(* ===== verification/GoLib.thy ===== *)
theory GoLib
  imports Main "HOL-Library.Word" "HOL-Library.State_Monad"
    "HOL-Library.Char_ord" "HOL-Library.List_Lexorder"
begin

text \<open>
  What the controller uses of Go itself: error values, the three ways a call can end, the
  functions of the \<open>strings\<close> package, 64-bit integers, and the state monad's program logic
  that every component theory proves its effects with. Nothing here is specific to volume
  group snapshots.
\<close>

section \<open>Collections of facts\<close>

named_theorems emits_intros \<open>rules that bound the effects of a program\<close>

section \<open>Errors and outcomes\<close>

text \<open>
  A Go \<open>error\<close> is its text and the reason an API error carries (\<open>''''\<close> for an error made
  with \<open>errors.New\<close> or \<open>fmt.Errorf\<close>). A nil error is \<open>None\<close> of \<open>error option\<close>.
\<close>

datatype error = Error (errReason: string) (errText: string)

definition errorf :: "string \<Rightarrow> error" where
  "errorf msg = Error [] msg"

lemma errText_errorf [simp]: "errText (errorf msg) = msg"
  by (simp add: errorf_def)

lemma errReason_errorf [simp]: "errReason (errorf msg) = []"
  by (simp add: errorf_def)

lemma errorf_inject [simp]: "errorf a = errorf b \<longleftrightarrow> a = b"
  by (simp add: errorf_def)

text \<open>
  A call returns a value, panics (here always a nil dereference), or never comes back
  because a \<open>select\<close> waits for ever.
\<close>

datatype 'a outcome = Ret 'a | Panic | Hang

section \<open>Integers\<close>

text \<open>\<open>int64\<close> and \<open>time.Duration\<close>: two's complement, \<open>*\<close> wraps around.\<close>

type_synonym int64 = "64 word"

section \<open>The strings package\<close>

text \<open>\<open>strings.Split(s, sep)\<close> with a one-byte separator: never empty, \<open>Split("", sep) = [""]\<close>.\<close>

fun split_on :: "char \<Rightarrow> string \<Rightarrow> string list" where
  "split_on c [] = [[]]"
| "split_on c (x # xs) =
     (if x = c then [] # split_on c xs
      else (case split_on c xs of [] \<Rightarrow> [[x]] | p # ps \<Rightarrow> (x # p) # ps))"

text \<open>\<open>strings.Join(xs, sep)\<close>.\<close>

fun join_with :: "char \<Rightarrow> string list \<Rightarrow> string" where
  "join_with c [] = []"
| "join_with c [x] = x"
| "join_with c (x # y # ys) = x @ c # join_with c (y # ys)"

text \<open>\<open>strings.TrimRight(s, cutset)\<close> with a one-byte cutset: every trailing occurrence goes.\<close>

definition trim_right :: "char \<Rightarrow> string \<Rightarrow> string" where
  "trim_right c s = rev (dropWhile (\<lambda>x. x = c) (rev s))"

text \<open>\<open>strings.HasPrefix(s, p)\<close>.\<close>

fun has_prefix :: "string \<Rightarrow> string \<Rightarrow> bool" where
  "has_prefix s [] = True"
| "has_prefix [] (p # ps) = False"
| "has_prefix (x # xs) (p # ps) = (x = p \<and> has_prefix xs ps)"

text \<open>\<open>strings.Contains\<close>.\<close>

fun str_contains :: "string \<Rightarrow> string \<Rightarrow> bool" where
  "str_contains [] sub = (sub = [])"
| "str_contains (c # s) sub = (has_prefix (c # s) sub \<or> str_contains s sub)"

text \<open>Reading a Go map: a missing key gives the zero value.\<close>

definition map_get :: "(string \<rightharpoonup> string) \<Rightarrow> string \<Rightarrow> string" where
  "map_get m k = (case m k of None \<Rightarrow> [] | Some v \<Rightarrow> v)"

text \<open>\<open>%v\<close> of a \<open>[]string\<close>: the elements between brackets, with spaces between them.\<close>

definition fmt_list :: "string list \<Rightarrow> string" where
  "fmt_list xs = ''['' @ join_with (CHR '' '') xs @ '']''"

subsection \<open>Splitting and joining\<close>

lemma split_on_nonempty [simp]: "split_on c s \<noteq> []"
  by (induction s) (auto split: list.splits)

lemma split_on_parts: "p \<in> set (split_on c s) \<Longrightarrow> c \<notin> set p"
proof (induction s arbitrary: p)
  case Nil
  then show ?case by simp
next
  case (Cons x xs)
  obtain q qs where q: "split_on c xs = q # qs"
    by (cases "split_on c xs") auto
  with Cons show ?case
    by (auto split: if_splits)
qed

lemma join_with_Cons:
  "ys \<noteq> [] \<Longrightarrow> join_with c (x # ys) = x @ c # join_with c ys"
  by (cases ys) auto

lemma join_split [simp]: "join_with c (split_on c s) = s"
proof (induction s)
  case Nil
  show ?case by simp
next
  case (Cons x xs)
  obtain q qs where q: "split_on c xs = q # qs"
    by (cases "split_on c xs") auto
  then show ?case
    using Cons by (cases qs) (auto simp: join_with_Cons)
qed

lemma split_on_none: "c \<notin> set s \<Longrightarrow> split_on c s = [s]"
  by (induction s) auto

lemma split_on_append_sep:
  "c \<notin> set p \<Longrightarrow> split_on c (p @ c # s) = p # split_on c s"
  by (induction p) auto

lemma split_join:
  assumes "xs \<noteq> []" and "\<And>x. x \<in> set xs \<Longrightarrow> c \<notin> set x"
  shows "split_on c (join_with c xs) = xs"
  using assms
proof (induction c xs rule: join_with.induct)
  case (1 c)
  then show ?case by simp
next
  case (2 c x)
  then show ?case by (simp add: split_on_none)
next
  case (3 c x y ys)
  then show ?case by (simp add: split_on_append_sep)
qed

lemma join_with_inject:
  assumes "xs \<noteq> []" "ys \<noteq> []"
    and "\<And>x. x \<in> set xs \<union> set ys \<Longrightarrow> c \<notin> set x"
    and "join_with c xs = join_with c ys"
  shows "xs = ys"
proof -
  have "split_on c (join_with c xs) = xs" "split_on c (join_with c ys) = ys"
    using assms(1-3) by (simp_all add: split_join)
  then show ?thesis using assms(4) by metis
qed

lemma join_with_eq_Nil: "join_with c xs = [] \<longleftrightarrow> xs = [] \<or> xs = [[]]"
  by (induction c xs rule: join_with.induct) auto

subsection \<open>Trimming\<close>

lemma trim_right_Nil [simp]: "trim_right c [] = []"
  by (simp add: trim_right_def)

lemma trim_right_snoc [simp]:
  "trim_right c (s @ [x]) = (if x = c then trim_right c s else s @ [x])"
  by (simp add: trim_right_def)

lemma trim_right_id: "s = [] \<or> last s \<noteq> c \<Longrightarrow> trim_right c s = s"
  by (cases s rule: rev_cases) auto

lemma last_join_with:
  "xs \<noteq> [] \<Longrightarrow> last xs \<noteq> [] \<Longrightarrow> last (join_with c xs) = last (last xs)"
proof (induction c xs rule: join_with.induct)
  case (3 c x y ys)
  have "join_with c (y # ys) \<noteq> []"
    using 3(3) by (auto simp: join_with_eq_Nil split: if_splits)
  with 3 show ?case by simp
qed auto

text \<open>The accumulate-then-trim idiom of \<open>processResponse\<close> is a join.\<close>

lemma concat_commas:
  "concat (map (\<lambda>x. x @ [c]) xs) = (if xs = [] then [] else join_with c xs @ [c])"
  by (induction c xs rule: join_with.induct) auto

lemma trim_concat_commas:
  assumes "xs = [] \<or> last xs \<noteq> [] \<and> c \<notin> set (last xs)"
  shows "trim_right c (concat (map (\<lambda>x. x @ [c]) xs)) = join_with c xs"
proof (cases "xs = []")
  case True
  then show ?thesis by simp
next
  case False
  with assms have l: "last xs \<noteq> []" "c \<notin> set (last xs)" by auto
  then have "last (join_with c xs) \<noteq> c"
    using False last_in_set [OF l(1)] by (auto simp: last_join_with)
  with False show ?thesis by (simp add: concat_commas trim_right_id)
qed

subsection \<open>Prefixes\<close>

lemma has_prefix_iff: "has_prefix s p \<longleftrightarrow> (\<exists>r. s = p @ r)"
  by (induction s p rule: has_prefix.induct) auto

lemma has_prefix_append [simp]: "has_prefix (p @ s) p"
  by (auto simp: has_prefix_iff)

lemma str_contains_iff: "str_contains s sub \<longleftrightarrow> (\<exists>a b. s = a @ sub @ b)"
proof (induction s)
  case Nil
  show ?case by simp
next
  case (Cons c s)
  have "(\<exists>a b. c # s = a @ sub @ b) \<longleftrightarrow> has_prefix (c # s) sub \<or> (\<exists>a b. s = a @ sub @ b)"
    unfolding has_prefix_iff by (metis append_Cons append_Nil append_eq_Cons_conv)
  with Cons show ?case by simp
qed

lemma str_contains_append: "str_contains s sub \<Longrightarrow> str_contains (s @ t) sub"
  by (auto simp: str_contains_iff) (metis append.assoc)

section \<open>Calls that may panic\<close>

text \<open>
  The components are programs of the library's state monad. A call whose callee can panic or
  hang is sequenced by \<open>andThen\<close>: the rest runs only if the callee returned.
\<close>

definition andThen ::
  "('w, 'a outcome) state \<Rightarrow> ('a \<Rightarrow> ('w, 'b outcome) state) \<Rightarrow> ('w, 'b outcome) state" where
  "andThen m f = do {
     x \<leftarrow> m;
     (case x of
        Ret v \<Rightarrow> f v
      | Panic \<Rightarrow> State_Monad.return Panic
      | Hang \<Rightarrow> State_Monad.return Hang)
   }"

definition ret :: "'a \<Rightarrow> ('w, 'a outcome) state" where
  "ret v = State_Monad.return (Ret v)"

definition panic :: "('w, 'a outcome) state" where
  "panic = State (\<lambda>w. (Panic, w))"

lemma panic_return: "panic = State_Monad.return Panic"
  by (simp add: panic_def State_Monad.return_def)

lemma run_ret [simp]: "run_state (ret v) w = (Ret v, w)"
  by (simp add: ret_def)

lemma run_panic [simp]: "run_state panic w = (Panic, w)"
  by (simp add: panic_def)

lemma run_andThen:
  "run_state (andThen m f) w =
     (case run_state m w of
        (Ret v, w') \<Rightarrow> run_state (f v) w'
      | (Panic, w') \<Rightarrow> (Panic, w')
      | (Hang, w') \<Rightarrow> (Hang, w'))"
  by (simp add: andThen_def split: prod.splits outcome.splits)

lemma andThen_ret [simp]: "andThen (ret v) f = f v"
  by (simp add: andThen_def ret_def)

section \<open>Invariants and Hoare triples over programs\<close>

definition triple :: "('w \<Rightarrow> bool) \<Rightarrow> ('w, 'a) state \<Rightarrow> ('a \<Rightarrow> 'w \<Rightarrow> bool) \<Rightarrow> bool" where
  "triple P m Q \<longleftrightarrow> (\<forall>w. P w \<longrightarrow> (case run_state m w of (x, w') \<Rightarrow> Q x w'))"

definition keeps :: "('w \<Rightarrow> bool) \<Rightarrow> ('w, 'a) state \<Rightarrow> bool" where
  "keeps I m \<longleftrightarrow> triple I m (\<lambda>_. I)"

lemma tripleI: "(\<And>w x w'. P w \<Longrightarrow> run_state m w = (x, w') \<Longrightarrow> Q x w') \<Longrightarrow> triple P m Q"
  by (auto simp: triple_def split: prod.splits)

lemma tripleD: "triple P m Q \<Longrightarrow> P w \<Longrightarrow> run_state m w = (x, w') \<Longrightarrow> Q x w'"
  by (auto simp: triple_def split: prod.splits)

lemma triple_bind:
  assumes "triple P m R" and "\<And>x. triple (R x) (f x) Q"
  shows "triple P (State_Monad.bind m f) Q"
  using assms by (fastforce simp: triple_def split: prod.splits)

lemma triple_return: "(\<And>w. P w \<Longrightarrow> Q v w) \<Longrightarrow> triple P (State_Monad.return v) Q"
  by (simp add: triple_def)

lemma triple_ret: "(\<And>w. P w \<Longrightarrow> Q (Ret v) w) \<Longrightarrow> triple P (ret v) Q"
  by (simp add: triple_def)

lemma triple_andThen:
  assumes "triple P m (\<lambda>x w. case x of Ret v \<Rightarrow> R v w | Panic \<Rightarrow> Q Panic w | Hang \<Rightarrow> Q Hang w)"
    and "\<And>v. triple (R v) (f v) Q"
  shows "triple P (andThen m f) Q"
  unfolding andThen_def
  by (rule triple_bind [OF assms(1)])
    (auto intro: assms(2) triple_return split: outcome.split)

lemma triple_conseq:
  "triple P m Q \<Longrightarrow> (\<And>w. P' w \<Longrightarrow> P w) \<Longrightarrow> (\<And>x w. Q x w \<Longrightarrow> Q' x w) \<Longrightarrow> triple P' m Q'"
  by (fastforce simp: triple_def)

lemma keeps_triple: "keeps I m \<Longrightarrow> triple I m (\<lambda>_. I)"
  by (simp add: keeps_def)

lemma keepsD: "keeps I m \<Longrightarrow> I w \<Longrightarrow> I (snd (run_state m w))"
  by (cases "run_state m w") (auto simp: keeps_def triple_def)

lemma keeps_run: "keeps I m \<Longrightarrow> I w \<Longrightarrow> run_state m w = (x, w') \<Longrightarrow> I w'"
  by (auto dest: keepsD)

lemma keeps_return: "keeps I (State_Monad.return v)"
  by (simp add: keeps_def triple_return)

lemma keeps_ret: "keeps I (ret v)"
  by (simp add: keeps_def triple_ret)

lemma keeps_panic: "keeps I panic"
  by (simp add: panic_return keeps_return)

lemma keeps_bind:
  "keeps I m \<Longrightarrow> (\<And>x. keeps I (f x)) \<Longrightarrow> keeps I (State_Monad.bind m f)"
  unfolding keeps_def by (rule triple_bind)

lemma keeps_andThen:
  "keeps I m \<Longrightarrow> (\<And>v. keeps I (f v)) \<Longrightarrow> keeps I (andThen m f)"
  unfolding andThen_def
  by (rule keeps_bind) (auto intro: keeps_return split: outcome.split)

end
