(* ===== verification/ApiTypes.thy ===== *)
theory ApiTypes
  imports GoLib
begin

text \<open>
  The data the controller works on: the custom resource of
  \<^verbatim>\<open>api/v1/dellcsivolumegroupsnapshot_types.go\<close>, the constants of
  \<^verbatim>\<open>pkg/common/common.go\<close>, and the fields the controller reads or writes of the Kubernetes,
  external-snapshotter and \<open>dell-csi-extensions\<close> objects. A Go pointer that may be nil is an
  \<open>option\<close>; a Go map kept in an object is an association list.
\<close>

section \<open>Constants of \<open>pkg/common\<close>\<close>

definition DellCSIVolumegroup :: string where
  "DellCSIVolumegroup = ''csi-volumegroup-snapshotter''"

definition LabelSnapshotGroup :: string where
  "LabelSnapshotGroup = ''snapshotGroup''"

definition EventTypeNormal :: string where "EventTypeNormal = ''Normal''"
definition EventTypeWarning :: string where "EventTypeWarning = ''Warning''"
definition EventReasonUpdated :: string where "EventReasonUpdated = ''Updated''"
definition EventStatusPending :: string where "EventStatusPending = ''Pending''"
definition EventStatusError :: string where "EventStatusError = ''Error''"
definition EventStatusIncomplete :: string where "EventStatusIncomplete = ''Incomplete''"
definition EventStatusComplete :: string where "EventStatusComplete = ''Complete''"
definition FinalizerName :: string where "FinalizerName = ''vgFinalizer''"
definition ExistingGroupID :: string where "ExistingGroupID = ''existingSnapshotGroupID''"

lemmas event_status_defs =
  EventStatusPending_def EventStatusError_def EventStatusIncomplete_def EventStatusComplete_def

lemma event_status_distinct [simp]:
  "EventStatusPending \<noteq> EventStatusError" "EventStatusPending \<noteq> EventStatusComplete"
  "EventStatusPending \<noteq> EventStatusIncomplete" "EventStatusError \<noteq> EventStatusComplete"
  "EventStatusError \<noteq> EventStatusPending" "EventStatusComplete \<noteq> EventStatusPending"
  "EventStatusComplete \<noteq> EventStatusError" "EventStatusError \<noteq> EventStatusIncomplete"
  "EventStatusComplete \<noteq> EventStatusIncomplete" "EventStatusIncomplete \<noteq> EventStatusPending"
  "EventStatusIncomplete \<noteq> EventStatusError" "EventStatusIncomplete \<noteq> EventStatusComplete"
  by (simp_all add: event_status_defs)

lemma event_status_nonempty [simp]:
  "EventStatusPending \<noteq> []" "EventStatusError \<noteq> []"
  "EventStatusComplete \<noteq> []" "EventStatusIncomplete \<noteq> []"
  "[] \<noteq> EventStatusPending" "[] \<noteq> EventStatusError"
  "[] \<noteq> EventStatusComplete" "[] \<noteq> EventStatusIncomplete"
  by (simp_all add: event_status_defs)

text \<open>String values fixed by the Kubernetes API: bound claims and volumes, deletion policies.\<close>

definition ClaimBound :: string where "ClaimBound = ''Bound''"
definition VolumeBound :: string where "VolumeBound = ''Bound''"
definition VolumeSnapshotContentDelete :: string where
  "VolumeSnapshotContentDelete = ''Delete''"
definition VolumeSnapshotContentRetain :: string where
  "VolumeSnapshotContentRetain = ''Retain''"

text \<open>The values of \<open>memberReclaimPolicy\<close>; the controller reads the policy of the snapshot class instead.\<close>

definition MemberReclaimDelete :: string where "MemberReclaimDelete = ''Delete''"
definition MemberReclaimRetain :: string where "MemberReclaimRetain = ''Retain''"

lemma deletion_policy_distinct [simp]:
  "VolumeSnapshotContentDelete \<noteq> VolumeSnapshotContentRetain"
  "VolumeSnapshotContentRetain \<noteq> VolumeSnapshotContentDelete"
  by (simp_all add: VolumeSnapshotContentDelete_def VolumeSnapshotContentRetain_def)

section \<open>Names and times\<close>

text \<open>\<open>types.NamespacedName\<close>, also called \<open>client.ObjectKey\<close>; cluster-wide objects have an empty namespace.\<close>

datatype nname = NN (nnNamespace: string) (nnName: string)

text \<open>\<open>metav1.Time\<close>: the zero time, or \<open>time.Unix(0, n)\<close>.\<close>

datatype gotime = ZeroTime | UnixNano int64

section \<open>The custom resource\<close>

record vgspec =
  spec_DriverName :: string
  spec_MemberReclaimPolicy :: string
  spec_Volumesnapshotclass :: string
  spec_PvcLabel :: string
  spec_PvcList :: "string list option"
  spec_Timeout :: int64

record vgstatus =
  status_SnapshotGroupID :: string
  status_SnapshotGroupName :: string
  status_Snapshots :: string
  status_CreationTime :: gotime
  status_ReadyToUse :: bool
  status_ContentReadyToUse :: bool
  status_Status :: string

record vg =
  vg_Name :: string
  vg_Namespace :: string
  vg_DeletionTimestamp :: "gotime option"
  vg_Finalizers :: "string list"
  vg_Generation :: int64
  vg_Spec :: vgspec
  vg_Status :: vgstatus

definition empty_spec :: vgspec where
  "empty_spec = \<lparr>spec_DriverName = [], spec_MemberReclaimPolicy = [],
     spec_Volumesnapshotclass = [], spec_PvcLabel = [], spec_PvcList = None, spec_Timeout = 0\<rparr>"

definition empty_status :: vgstatus where
  "empty_status = \<lparr>status_SnapshotGroupID = [], status_SnapshotGroupName = [],
     status_Snapshots = [], status_CreationTime = ZeroTime, status_ReadyToUse = False,
     status_ContentReadyToUse = False, status_Status = []\<rparr>"

text \<open>\<open>new(vgsv1.DellCsiVolumeGroupSnapshot)\<close>.\<close>

definition empty_vg :: vg where
  "empty_vg = \<lparr>vg_Name = [], vg_Namespace = [], vg_DeletionTimestamp = None,
     vg_Finalizers = [], vg_Generation = 0, vg_Spec = empty_spec, vg_Status = empty_status\<rparr>"

text \<open>\<open>vg.DeletionTimestamp.IsZero()\<close>: a nil pointer or the zero time.\<close>

definition deletion_is_zero :: "vg \<Rightarrow> bool" where
  "deletion_is_zero v =
     (case vg_DeletionTimestamp v of None \<Rightarrow> True | Some t \<Rightarrow> t = ZeroTime)"

definition vg_key :: "vg \<Rightarrow> nname" where
  "vg_key v = NN (vg_Namespace v) (vg_Name v)"

text \<open>\<open>vg.Status.Status = s\<close>.\<close>

definition set_status :: "string \<Rightarrow> vg \<Rightarrow> vg" where
  "set_status st v = v\<lparr>vg_Status := (vg_Status v)\<lparr>status_Status := st\<rparr>\<rparr>"

definition set_group_id :: "string \<Rightarrow> vg \<Rightarrow> vg" where
  "set_group_id gid v = v\<lparr>vg_Status := (vg_Status v)\<lparr>status_SnapshotGroupID := gid\<rparr>\<rparr>"

lemma set_status_simps [simp]:
  "vg_Name (set_status st v) = vg_Name v"
  "vg_Namespace (set_status st v) = vg_Namespace v"
  "vg_DeletionTimestamp (set_status st v) = vg_DeletionTimestamp v"
  "vg_Finalizers (set_status st v) = vg_Finalizers v"
  "vg_Generation (set_status st v) = vg_Generation v"
  "vg_Spec (set_status st v) = vg_Spec v"
  "status_Status (vg_Status (set_status st v)) = st"
  "status_SnapshotGroupID (vg_Status (set_status st v)) = status_SnapshotGroupID (vg_Status v)"
  "status_Snapshots (vg_Status (set_status st v)) = status_Snapshots (vg_Status v)"
  "vg_key (set_status st v) = vg_key v"
  by (simp_all add: set_status_def vg_key_def)

lemma set_group_id_simps [simp]:
  "vg_Name (set_group_id g v) = vg_Name v"
  "vg_Namespace (set_group_id g v) = vg_Namespace v"
  "vg_Finalizers (set_group_id g v) = vg_Finalizers v"
  "vg_Spec (set_group_id g v) = vg_Spec v"
  "status_Status (vg_Status (set_group_id g v)) = status_Status (vg_Status v)"
  "status_SnapshotGroupID (vg_Status (set_group_id g v)) = g"
  "vg_key (set_group_id g v) = vg_key v"
  by (simp_all add: set_group_id_def vg_key_def)

section \<open>Claims and volumes\<close>

record pvc =
  pvc_Name :: string
  pvc_Namespace :: string
  pvc_Labels :: "(string \<times> string) list"
  pvc_VolumeName :: string
  pvc_Phase :: string

text \<open>The CSI source of a volume is a pointer: driver and volume handle, or nil.\<close>

record pv =
  pv_Name :: string
  pv_CSI :: "(string \<times> string) option"
  pv_Phase :: string

section \<open>Snapshot classes, snapshots and snapshot contents\<close>

record vsclass =
  sc_Name :: string
  sc_Driver :: string
  sc_DeletionPolicy :: string

record snapstatus =
  ss_BoundContentName :: "string option"
  ss_ReadyToUse :: "bool option"

text \<open>\<open>schema.GroupVersionKind\<close>, as an object's type metadata gives it.\<close>

datatype gvk = GVK (gvkGroup: string) (gvkVersion: string) (gvkKind: string)

record volsnap =
  vs_GVK :: gvk
  vs_Name :: string
  vs_Namespace :: string
  vs_UID :: string
  vs_ResourceVersion :: string
  vs_Labels :: "(string \<times> string) list"
  vs_ClassName :: "string option"
  vs_SourceContentName :: "string option"
  vs_Status :: "snapstatus option"

record objref =
  or_Kind :: string
  or_APIVersion :: string
  or_Name :: string
  or_Namespace :: string
  or_UID :: string
  or_ResourceVersion :: string

record contentstatus =
  cs_SnapshotHandle :: "string option"
  cs_CreationTime :: "int64 option"
  cs_ReadyToUse :: "bool option"
  cs_RestoreSize :: "int64 option"

record content =
  vc_Name :: string
  vc_SnapshotRef :: objref
  vc_SnapshotHandle :: "string option"
  vc_ClassName :: "string option"
  vc_DeletionPolicy :: string
  vc_Driver :: string
  vc_Status :: "contentstatus option"

text \<open>The zero values that a failed \<open>Get\<close> leaves behind.\<close>

definition empty_snap :: volsnap where
  "empty_snap = \<lparr>vs_GVK = GVK [] [] [], vs_Name = [], vs_Namespace = [], vs_UID = [], vs_ResourceVersion = [],
     vs_Labels = [], vs_ClassName = None, vs_SourceContentName = None, vs_Status = None\<rparr>"

definition empty_ref :: objref where
  "empty_ref = \<lparr>or_Kind = [], or_APIVersion = [], or_Name = [], or_Namespace = [],
     or_UID = [], or_ResourceVersion = []\<rparr>"

definition empty_content :: content where
  "empty_content = \<lparr>vc_Name = [], vc_SnapshotRef = empty_ref, vc_SnapshotHandle = None,
     vc_ClassName = None, vc_DeletionPolicy = [], vc_Driver = [], vc_Status = None\<rparr>"

definition snap_key :: "volsnap \<Rightarrow> nname" where
  "snap_key s = NN (vs_Namespace s) (vs_Name s)"

text \<open>\<open>snapshot.Labels[common.LabelSnapshotGroup]\<close>.\<close>

definition snapshot_group :: "volsnap \<Rightarrow> string" where
  "snapshot_group s = map_get (map_of (vs_Labels s)) LabelSnapshotGroup"

section \<open>The driver's answer (\<open>dell-csi-extensions/volumeGroupSnapshot\<close>)\<close>

record csisnap =
  snap_Name :: string
  snap_CapacityBytes :: int64
  snap_SnapId :: string
  snap_SourceId :: string
  snap_ReadyToUse :: bool
  snap_CreationTime :: int64

record vgsresponse =
  res_SnapshotGroupID :: string
  res_Snapshots :: "csisnap list"
  res_CreationTime :: int64

section \<open>List options\<close>

text \<open>\<open>client.ListOptions\<close>: a namespace, and a label set turned into a selector, or no selector.\<close>

record listopts =
  lo_Namespace :: string
  lo_Labels :: "(string \<times> string) list option"

end
