(* ===== verification/Cluster.thy ===== *)
theory Cluster
  imports ApiTypes
begin

text \<open>
  The controller's surroundings: the API client, the driver and the library functions it is
  built with (parameters, since their code is not in the repository), the state it runs in,
  the calls it makes, and the program logic for bounding those calls. Every call appends one
  entry to the trace, in program order, so that ordering and at-most-once properties can be
  stated for an arbitrary API server.
\<close>

section \<open>Parameters\<close>

text \<open>
  \<open>client.Client\<close>, one field per kind of object the controller uses it for. The state \<open>'s\<close>
  of the cluster is arbitrary and every call may change it, so that a client may serve stale
  data, fail at any time, or run other actors between two calls. A failing \<open>Get\<close> leaves the
  object it was given as it was; a successful \<open>Update\<close>, \<open>Create\<close> or \<open>Status().Update\<close>
  overwrites it with the server's copy.
\<close>

record 's client =
  cl_GetVG :: "nname \<Rightarrow> 's \<Rightarrow> (error + vg) \<times> 's"
  cl_GetClass :: "nname \<Rightarrow> 's \<Rightarrow> (error + vsclass) \<times> 's"
  cl_GetSnap :: "nname \<Rightarrow> 's \<Rightarrow> (error + volsnap) \<times> 's"
  cl_GetContent :: "nname \<Rightarrow> 's \<Rightarrow> (error + content) \<times> 's"
  cl_GetPVC :: "nname \<Rightarrow> 's \<Rightarrow> (error + pvc) \<times> 's"
  cl_GetPV :: "nname \<Rightarrow> 's \<Rightarrow> (error + pv) \<times> 's"
  cl_ListPVC :: "listopts \<Rightarrow> 's \<Rightarrow> (error + pvc list) \<times> 's"
  cl_ListContent :: "'s \<Rightarrow> (error + content list) \<times> 's"
  cl_CreateContent :: "content \<Rightarrow> 's \<Rightarrow> (error + content) \<times> 's"
  cl_CreateSnap :: "volsnap \<Rightarrow> 's \<Rightarrow> (error + volsnap) \<times> 's"
  cl_UpdateVG :: "vg \<Rightarrow> 's \<Rightarrow> (error + vg) \<times> 's"
  cl_StatusUpdateVG :: "vg \<Rightarrow> 's \<Rightarrow> (error + vg) \<times> 's"
  cl_StatusUpdateContent :: "content \<Rightarrow> 's \<Rightarrow> (error + content) \<times> 's"
  cl_DeleteSnap :: "volsnap \<Rightarrow> 's \<Rightarrow> (error + unit) \<times> 's"
  cl_DeleteVG :: "vg \<Rightarrow> 's \<Rightarrow> (error + unit) \<times> 's"

text \<open>The objects \<open>GetReference\<close> may be handed: nil, an \<open>ObjectReference\<close>, an object with full
  metadata, one with list metadata only, or one neither accessor understands (with the
  accessor's error).\<close>

datatype robj =
    RNil
  | RRef objref
  | RMeta gvk string string string string  \<comment> \<open>name, namespace, UID, resource version\<close>
  | RList gvk string                       \<comment> \<open>resource version\<close>
  | ROther error

text \<open>
  \<open>DellCsiVolumeGroupSnapshotReconciler\<close> with the library functions its methods call: the
  driver's \<open>CreateVolumeGroupSnapshot\<close> (name, source volume ids, parameters),
  \<open>client.IgnoreNotFound\<close>, \<open>controllerutil.AddFinalizer\<close> and \<open>RemoveFinalizer\<close> on a
  finalizer list, \<open>uuid.New().String()\<close> (the n-th one drawn), \<open>scheme.ObjectKinds\<close>,
  \<open>gvk.Empty()\<close>, \<open>gvk.GroupVersion().String()\<close> and the \<open>%T: %v\<close> rendering of an object and
  its kinds.
\<close>

record 's reconciler =
  r_Client :: "'s client"
  r_VGClient :: "string \<Rightarrow> string list \<Rightarrow> (string \<times> string) list \<Rightarrow> 's \<Rightarrow> (error + vgsresponse) \<times> 's"
  r_DriverName :: string
  r_IgnoreNotFound :: "error \<Rightarrow> error option"
  r_AddFinalizer :: "string list \<Rightarrow> string \<Rightarrow> string list"
  r_RemoveFinalizer :: "string list \<Rightarrow> string \<Rightarrow> string list"
  r_NewUUID :: "nat \<Rightarrow> string"
  r_ObjectKinds :: "robj \<Rightarrow> error + gvk list"
  r_GvkEmpty :: "gvk \<Rightarrow> bool"
  r_GvString :: "gvk \<Rightarrow> string"
  r_FmtKinds :: "robj \<Rightarrow> gvk list \<Rightarrow> string"

section \<open>Effects and the world\<close>

text \<open>The object an event is recorded on.\<close>

datatype involved = OnVG nname | OnSnap nname | OnContent string

datatype effect =
    GetVG nname | GetClass nname | GetSnap nname | GetContent nname | GetPVC nname | GetPV nname
  | ListPVC listopts | ListContent
  | CreateContent content | CreateSnap volsnap
  | UpdateVG vg | StatusUpdateVG vg | StatusUpdateContent content
  | DeleteSnap volsnap | DeleteVG vg
  | CreateVGS string "string list" "(string \<times> string) list"
  | Event involved string string string
  | StartTimer int64
  | StartSnapWatch

text \<open>What a \<open>select\<close> over a timeout channel and a ticker delivers next.\<close>

datatype tick = Timeout | Tick

text \<open>
  The world a handler runs in: the cluster, the calls made so far, the entries of
  \<open>processResponse\<close>'s \<open>failedMap\<close>, the number of UUIDs drawn, and what the timer and the
  ticker are going to deliver (any interleaving).
\<close>

record 's world =
  cluster :: 's
  trace :: "effect list"
  failedMap :: "string \<rightharpoonup> string"
  uuidCount :: nat
  sched :: "tick list"

text \<open>Calls that change the cluster, and those among them that write the custom resource.\<close>

fun is_write :: "effect \<Rightarrow> bool" where
  "is_write (CreateContent _) = True"
| "is_write (CreateSnap _) = True"
| "is_write (UpdateVG _) = True"
| "is_write (StatusUpdateVG _) = True"
| "is_write (StatusUpdateContent _) = True"
| "is_write (DeleteSnap _) = True"
| "is_write (DeleteVG _) = True"
| "is_write _ = False"

fun is_driver_call :: "effect \<Rightarrow> bool" where
  "is_driver_call (CreateVGS _ _ _) = True"
| "is_driver_call _ = False"

fun is_read :: "effect \<Rightarrow> bool" where
  "is_read (GetVG _) = True"
| "is_read (GetClass _) = True"
| "is_read (GetSnap _) = True"
| "is_read (GetContent _) = True"
| "is_read (GetPVC _) = True"
| "is_read (GetPV _) = True"
| "is_read (ListPVC _) = True"
| "is_read ListContent = True"
| "is_read _ = False"

fun is_event :: "effect \<Rightarrow> bool" where
  "is_event (Event _ _ _ _) = True"
| "is_event _ = False"

text \<open>The world a handler starts in.\<close>

definition start :: "'s \<Rightarrow> tick list \<Rightarrow> 's world" where
  "start s ticks =
     \<lparr>cluster = s, trace = [], failedMap = Map.empty, uuidCount = 0, sched = ticks\<rparr>"

lemma start_simps [simp]:
  "cluster (start s ticks) = s" "trace (start s ticks) = []" "sched (start s ticks) = ticks"
  by (simp_all add: start_def)

section \<open>Primitive calls\<close>

definition call :: "effect \<Rightarrow> ('s \<Rightarrow> 'a \<times> 's) \<Rightarrow> ('s world, 'a) state" where
  "call e f = State (\<lambda>w. case f (cluster w) of
     (x, s) \<Rightarrow> (x, w\<lparr>cluster := s, trace := trace w @ [e]\<rparr>))"

definition getVG :: "'s reconciler \<Rightarrow> nname \<Rightarrow> ('s world, error + vg) state" where
  "getVG r k = call (GetVG k) (cl_GetVG (r_Client r) k)"

definition getClass :: "'s reconciler \<Rightarrow> nname \<Rightarrow> ('s world, error + vsclass) state" where
  "getClass r k = call (GetClass k) (cl_GetClass (r_Client r) k)"

definition getSnap :: "'s reconciler \<Rightarrow> nname \<Rightarrow> ('s world, error + volsnap) state" where
  "getSnap r k = call (GetSnap k) (cl_GetSnap (r_Client r) k)"

definition getContent :: "'s reconciler \<Rightarrow> nname \<Rightarrow> ('s world, error + content) state" where
  "getContent r k = call (GetContent k) (cl_GetContent (r_Client r) k)"

definition getPVC :: "'s reconciler \<Rightarrow> nname \<Rightarrow> ('s world, error + pvc) state" where
  "getPVC r k = call (GetPVC k) (cl_GetPVC (r_Client r) k)"

definition getPV :: "'s reconciler \<Rightarrow> nname \<Rightarrow> ('s world, error + pv) state" where
  "getPV r k = call (GetPV k) (cl_GetPV (r_Client r) k)"

definition listPVC :: "'s reconciler \<Rightarrow> listopts \<Rightarrow> ('s world, error + pvc list) state" where
  "listPVC r lo = call (ListPVC lo) (cl_ListPVC (r_Client r) lo)"

definition listContent :: "'s reconciler \<Rightarrow> ('s world, error + content list) state" where
  "listContent r = call ListContent (cl_ListContent (r_Client r))"

definition createContent :: "'s reconciler \<Rightarrow> content \<Rightarrow> ('s world, error + content) state" where
  "createContent r c = call (CreateContent c) (cl_CreateContent (r_Client r) c)"

definition createSnap :: "'s reconciler \<Rightarrow> volsnap \<Rightarrow> ('s world, error + volsnap) state" where
  "createSnap r s = call (CreateSnap s) (cl_CreateSnap (r_Client r) s)"

definition statusUpdateContent ::
  "'s reconciler \<Rightarrow> content \<Rightarrow> ('s world, error + content) state" where
  "statusUpdateContent r c = call (StatusUpdateContent c) (cl_StatusUpdateContent (r_Client r) c)"

definition deleteSnap :: "'s reconciler \<Rightarrow> volsnap \<Rightarrow> ('s world, error + unit) state" where
  "deleteSnap r s = call (DeleteSnap s) (cl_DeleteSnap (r_Client r) s)"

definition deleteVG :: "'s reconciler \<Rightarrow> vg \<Rightarrow> ('s world, error + unit) state" where
  "deleteVG r v = call (DeleteVG v) (cl_DeleteVG (r_Client r) v)"

text \<open>
  \<open>r.Update(ctx, vg)\<close> and \<open>r.Status().Update(ctx, vg)\<close> hand back the object the caller holds
  afterwards (the server's copy, or the caller's own if the call failed) and the error.
\<close>

definition updateVG :: "'s reconciler \<Rightarrow> vg \<Rightarrow> ('s world, vg \<times> error option) state" where
  "updateVG r v = do {
     res \<leftarrow> call (UpdateVG v) (cl_UpdateVG (r_Client r) v);
     State_Monad.return (case res of Inl e \<Rightarrow> (v, Some e) | Inr v' \<Rightarrow> (v', None))
   }"

definition statusUpdateVG :: "'s reconciler \<Rightarrow> vg \<Rightarrow> ('s world, vg \<times> error option) state" where
  "statusUpdateVG r v = do {
     res \<leftarrow> call (StatusUpdateVG v) (cl_StatusUpdateVG (r_Client r) v);
     State_Monad.return (case res of Inl e \<Rightarrow> (v, Some e) | Inr v' \<Rightarrow> (v', None))
   }"

definition createVGS ::
  "'s reconciler \<Rightarrow> string \<Rightarrow> string list \<Rightarrow> (string \<times> string) list
     \<Rightarrow> ('s world, error + vgsresponse) state" where
  "createVGS r name ids params = call (CreateVGS name ids params) (r_VGClient r name ids params)"

text \<open>\<open>EventRecorder.Eventf\<close>, with the message already formatted.\<close>

definition emit :: "effect \<Rightarrow> ('s world, unit) state" where
  "emit e = call e (\<lambda>s. ((), s))"

definition eventf :: "involved \<Rightarrow> string \<Rightarrow> string \<Rightarrow> ('s world, unit) state" where
  "eventf obj ty msg = emit (Event obj ty EventReasonUpdated msg)"

text \<open>The local state of a handler: \<open>failedMap[k] = v\<close>, \<open>failedMap[k] += v\<close>, \<open>uuid.New()\<close>.\<close>

definition resetFailed :: "('s world, unit) state" where
  "resetFailed = State (\<lambda>w. ((), w\<lparr>failedMap := Map.empty\<rparr>))"

definition setFailed :: "string \<Rightarrow> string \<Rightarrow> ('s world, unit) state" where
  "setFailed k v = State (\<lambda>w. ((), w\<lparr>failedMap := (failedMap w)(k \<mapsto> v)\<rparr>))"

definition appendFailed :: "string \<Rightarrow> string \<Rightarrow> ('s world, unit) state" where
  "appendFailed k v =
     State (\<lambda>w. ((), w\<lparr>failedMap := (failedMap w)(k \<mapsto> map_get (failedMap w) k @ v)\<rparr>))"

definition newUUID :: "'s reconciler \<Rightarrow> ('s world, string) state" where
  "newUUID r =
     State (\<lambda>w. (r_NewUUID r (uuidCount w), w\<lparr>uuidCount := Suc (uuidCount w)\<rparr>))"

definition getSched :: "('s world, tick list) state" where
  "getSched = State (\<lambda>w. (sched w, w))"

definition setSched :: "tick list \<Rightarrow> ('s world, unit) state" where
  "setSched ts = State (\<lambda>w. ((), w\<lparr>sched := ts\<rparr>))"

lemmas local_defs =
  resetFailed_def setFailed_def appendFailed_def newUUID_def getSched_def setSched_def

lemmas api_defs =
  getVG_def getClass_def getSnap_def getContent_def getPVC_def getPV_def listPVC_def
  listContent_def createContent_def createSnap_def statusUpdateContent_def deleteSnap_def
  deleteVG_def updateVG_def statusUpdateVG_def createVGS_def eventf_def emit_def

lemma run_call:
  "run_state (call e f) w =
     (fst (f (cluster w)), w\<lparr>cluster := snd (f (cluster w)), trace := trace w @ [e]\<rparr>)"
  by (simp add: call_def split: prod.splits)

lemma run_eventf [simp]:
  "run_state (eventf obj ty msg) w =
     ((), w\<lparr>trace := trace w @ [Event obj ty EventReasonUpdated msg]\<rparr>)"
  by (simp add: eventf_def emit_def run_call)

lemma run_locals [simp]:
  "run_state resetFailed w = ((), w\<lparr>failedMap := Map.empty\<rparr>)"
  "run_state (setFailed k v) w = ((), w\<lparr>failedMap := (failedMap w)(k \<mapsto> v)\<rparr>)"
  "run_state (appendFailed k v) w =
     ((), w\<lparr>failedMap := (failedMap w)(k \<mapsto> map_get (failedMap w) k @ v)\<rparr>)"
  "run_state (newUUID r) w = (r_NewUUID r (uuidCount w), w\<lparr>uuidCount := Suc (uuidCount w)\<rparr>)"
  "run_state getSched w = (sched w, w)"
  "run_state (setSched ts) w = ((), w\<lparr>sched := ts\<rparr>)"
  by (simp_all add: local_defs)

text \<open>What one recorded call does to the cluster.\<close>

fun apply_effect :: "'s reconciler \<Rightarrow> effect \<Rightarrow> 's \<Rightarrow> 's" where
  "apply_effect r (GetVG k) s = snd (cl_GetVG (r_Client r) k s)"
| "apply_effect r (GetClass k) s = snd (cl_GetClass (r_Client r) k s)"
| "apply_effect r (GetSnap k) s = snd (cl_GetSnap (r_Client r) k s)"
| "apply_effect r (GetContent k) s = snd (cl_GetContent (r_Client r) k s)"
| "apply_effect r (GetPVC k) s = snd (cl_GetPVC (r_Client r) k s)"
| "apply_effect r (GetPV k) s = snd (cl_GetPV (r_Client r) k s)"
| "apply_effect r (ListPVC lo) s = snd (cl_ListPVC (r_Client r) lo s)"
| "apply_effect r ListContent s = snd (cl_ListContent (r_Client r) s)"
| "apply_effect r (CreateContent c) s = snd (cl_CreateContent (r_Client r) c s)"
| "apply_effect r (CreateSnap x) s = snd (cl_CreateSnap (r_Client r) x s)"
| "apply_effect r (UpdateVG v) s = snd (cl_UpdateVG (r_Client r) v s)"
| "apply_effect r (StatusUpdateVG v) s = snd (cl_StatusUpdateVG (r_Client r) v s)"
| "apply_effect r (StatusUpdateContent c) s = snd (cl_StatusUpdateContent (r_Client r) c s)"
| "apply_effect r (DeleteSnap x) s = snd (cl_DeleteSnap (r_Client r) x s)"
| "apply_effect r (DeleteVG v) s = snd (cl_DeleteVG (r_Client r) v s)"
| "apply_effect r (CreateVGS n ids ps) s = snd (r_VGClient r n ids ps s)"
| "apply_effect r (Event _ _ _ _) s = s"
| "apply_effect r (StartTimer _) s = s"
| "apply_effect r StartSnapWatch s = s"

definition replay :: "'s reconciler \<Rightarrow> effect list \<Rightarrow> 's \<Rightarrow> 's" where
  "replay r = fold (apply_effect r)"

lemma replay_simps [simp]:
  "replay r [] s = s"
  "replay r (e # ts) s = replay r ts (apply_effect r e s)"
  "replay r (ts @ us) s = replay r us (replay r ts s)"
  by (simp_all add: replay_def)

section \<open>Bounding the effects of a program\<close>

text \<open>
  \<open>shaped r P m\<close>: whatever the cluster answers, the entries \<open>m\<close> adds to the trace form a list
  with property \<open>P\<close>, and replaying them on the cluster gives the cluster \<open>m\<close> leaves: the trace
  misses no change. \<open>emits r A m\<close>: each entry satisfies \<open>A\<close>. \<open>at_most r n A m\<close>: at most \<open>n\<close> of
  them satisfy \<open>A\<close>.
\<close>

definition grows :: "'s reconciler \<Rightarrow> (effect list \<Rightarrow> bool) \<Rightarrow> 's world \<Rightarrow> 's world \<Rightarrow> bool" where
  "grows r P w w' \<longleftrightarrow>
     (\<exists>ts. trace w' = trace w @ ts \<and> cluster w' = replay r ts (cluster w) \<and> P ts)"

definition shaped ::
  "'s reconciler \<Rightarrow> (effect list \<Rightarrow> bool) \<Rightarrow> ('s world, 'a) state \<Rightarrow> bool" where
  "shaped r P m \<longleftrightarrow> state_io_rel (grows r P) m"

definition emits :: "'s reconciler \<Rightarrow> (effect \<Rightarrow> bool) \<Rightarrow> ('s world, 'a) state \<Rightarrow> bool" where
  "emits r A m \<longleftrightarrow> shaped r (list_all A) m"

definition at_most ::
  "'s reconciler \<Rightarrow> nat \<Rightarrow> (effect \<Rightarrow> bool) \<Rightarrow> ('s world, 'a) state \<Rightarrow> bool" where
  "at_most r n A m \<longleftrightarrow> shaped r (\<lambda>ts. length (filter A ts) \<le> n) m"

lemma shapedD:
  "shaped r P m \<Longrightarrow> run_state m w = (x, w') \<Longrightarrow>
     \<exists>ts. trace w' = trace w @ ts \<and> cluster w' = replay r ts (cluster w) \<and> P ts"
  by (auto simp: shaped_def grows_def dest!: state_io_relD)

lemma shapedI:
  "(\<And>w x w'. run_state m w = (x, w') \<Longrightarrow>
     \<exists>ts. trace w' = trace w @ ts \<and> cluster w' = replay r ts (cluster w) \<and> P ts) \<Longrightarrow> shaped r P m"
  by (auto simp: shaped_def grows_def intro!: state_io_relI)

lemma shaped_mono: "shaped r P m \<Longrightarrow> (\<And>ts. P ts \<Longrightarrow> Q ts) \<Longrightarrow> shaped r Q m"
  by (fastforce simp: shaped_def grows_def state_io_rel_def)

lemma shaped_call:
  "P [e] \<Longrightarrow> (\<And>s. snd (f s) = apply_effect r e s) \<Longrightarrow> shaped r P (call e f)"
  by (rule shapedI) (auto simp: run_call)

lemma shaped_return: "P [] \<Longrightarrow> shaped r P (State_Monad.return v)"
  by (rule shapedI) auto

lemma shaped_bind:
  assumes m: "shaped r P m" and f: "\<And>x. shaped r Q (f x)"
    and PQ: "\<And>xs ys. P xs \<Longrightarrow> Q ys \<Longrightarrow> R (xs @ ys)"
  shows "shaped r R (State_Monad.bind m f)"
proof (rule shapedI)
  fix w y w''
  assume "run_state (State_Monad.bind m f) w = (y, w'')"
  then obtain x w' where 1: "run_state m w = (x, w')" and 2: "run_state (f x) w' = (y, w'')"
    by (auto split: prod.splits)
  obtain xs where "trace w' = trace w @ xs" "cluster w' = replay r xs (cluster w)" "P xs"
    using shapedD [OF m 1] by blast
  moreover obtain ys where
    "trace w'' = trace w' @ ys" "cluster w'' = replay r ys (cluster w')" "Q ys"
    using shapedD [OF f 2] by blast
  ultimately show "\<exists>ts. trace w'' = trace w @ ts \<and> cluster w'' = replay r ts (cluster w) \<and> R ts"
    by (intro exI [of _ "xs @ ys"]) (simp add: PQ)
qed

lemma shaped_andThen:
  assumes m: "shaped r P m" and f: "\<And>v. shaped r Q (f v)"
    and PQ: "\<And>xs ys. P xs \<Longrightarrow> Q ys \<Longrightarrow> R (xs @ ys)" and P: "\<And>xs. P xs \<Longrightarrow> R xs"
  shows "shaped r R (andThen m f)"
  unfolding andThen_def
proof (rule shaped_bind [OF m, where Q = "\<lambda>ys. Q ys \<or> ys = []"])
  show "shaped r (\<lambda>ys. Q ys \<or> ys = [])
      (case x of Ret v \<Rightarrow> f v | Panic \<Rightarrow> State_Monad.return Panic | Hang \<Rightarrow> State_Monad.return Hang)" for x
    by (cases x) (auto intro: shaped_mono [OF f] shaped_return)
qed (auto intro: PQ P)

text \<open>
  The interface between a property of traces and the programs: whatever holds of the empty
  list and is kept by concatenation composes along every way the components are built.
\<close>

locale trace_shape =
  fixes P :: "effect list \<Rightarrow> bool"
  assumes shape_Nil: "P []"
    and shape_append: "P xs \<Longrightarrow> P ys \<Longrightarrow> P (xs @ ys)"
begin

lemma return: "shaped r P (State_Monad.return v)"
  by (rule shaped_return) (rule shape_Nil)

lemma local_step:
  "(\<And>w. trace (snd (f w)) = trace w \<and> cluster (snd (f w)) = cluster w) \<Longrightarrow> shaped r P (State f)"
  by (rule shapedI) (metis append_Nil2 replay_simps(1) shape_Nil snd_conv state.sel)

lemma bind:
  "shaped r P m \<Longrightarrow> (\<And>x. shaped r P (f x)) \<Longrightarrow> shaped r P (State_Monad.bind m f)"
  by (rule shaped_bind [of r P m P f P]) (auto intro: shape_append)

lemma return_outcome: "shaped r P (ret v)" "shaped r P panic"
  by (simp_all add: ret_def panic_return return)

lemma and_then:
  "shaped r P m \<Longrightarrow> (\<And>v. shaped r P (f v)) \<Longrightarrow> shaped r P (andThen m f)"
  unfolding andThen_def
  by (rule bind) (auto intro: return split: outcome.split)

text \<open>Sequencing with what is known of the first result.\<close>

lemma and_then_result:
  assumes m: "shaped r P m" and f: "\<And>v w w'. run_state m w = (Ret v, w') \<Longrightarrow> shaped r P (f v)"
  shows "shaped r P (andThen m f)"
proof (rule shapedI)
  fix w y w''
  assume run: "run_state (andThen m f) w = (y, w'')"
  obtain x w' where 1: "run_state m w = (x, w')" by force
  obtain xs where xs: "trace w' = trace w @ xs" "cluster w' = replay r xs (cluster w)" "P xs"
    using shapedD [OF m 1] by blast
  show "\<exists>ts. trace w'' = trace w @ ts \<and> cluster w'' = replay r ts (cluster w) \<and> P ts"
  proof (cases x)
    case (Ret v)
    with run 1 have "run_state (f v) w' = (y, w'')" by (simp add: run_andThen)
    from shapedD [OF f [OF 1 [unfolded Ret]] this] obtain ys where
      "trace w'' = trace w' @ ys" "cluster w'' = replay r ys (cluster w')" "P ys"
      by blast
    with xs show ?thesis
      by (intro exI [of _ "xs @ ys"]) (simp add: shape_append)
  qed (use run 1 xs in \<open>auto simp: run_andThen\<close>)
qed

lemmas composition = return return_outcome bind and_then

end

interpretation all: trace_shape "list_all A" for A
  by unfold_locales simp_all

lemma emitsD:
  "emits r A m \<Longrightarrow> run_state m w = (x, w') \<Longrightarrow>
     \<exists>ts. trace w' = trace w @ ts \<and> cluster w' = replay r ts (cluster w) \<and> (\<forall>e \<in> set ts. A e)"
  unfolding emits_def by (drule (1) shapedD) (simp add: list_all_iff)

lemma at_mostD:
  "at_most r n A m \<Longrightarrow> run_state m w = (x, w') \<Longrightarrow>
     \<exists>ts. trace w' = trace w @ ts \<and> length (filter A ts) \<le> n"
  unfolding at_most_def by (drule (1) shapedD) blast

lemma emits_mono: "emits r A m \<Longrightarrow> (\<And>e. A e \<Longrightarrow> B e) \<Longrightarrow> emits r B m"
  unfolding emits_def by (erule shaped_mono) (auto simp: list_all_iff)

lemma emits_at_most: "emits r A m \<Longrightarrow> (\<And>e. A e \<Longrightarrow> \<not> B e) \<Longrightarrow> at_most r 0 B m"
  unfolding emits_def at_most_def
  by (erule shaped_mono) (auto simp: list_all_iff filter_empty_conv)

lemma emits_call:
  "A e \<Longrightarrow> (\<And>s. snd (f s) = apply_effect r e s) \<Longrightarrow> emits r A (call e f)"
  unfolding emits_def by (rule shaped_call) simp_all

lemma emits_return [emits_intros]:
  "emits r A (State_Monad.return v)" "emits r A (ret v)" "emits r A panic"
  by (simp_all add: emits_def all.return all.return_outcome)

lemma emits_bind [emits_intros]:
  "emits r A m \<Longrightarrow> (\<And>x. emits r A (f x)) \<Longrightarrow> emits r A (State_Monad.bind m f)"
  unfolding emits_def by (rule all.bind)

lemma emits_andThen [emits_intros]:
  "emits r A m \<Longrightarrow> (\<And>v. emits r A (f v)) \<Longrightarrow> emits r A (andThen m f)"
  unfolding emits_def by (rule all.and_then)

text \<open>Sequencing with what is known of the first result.\<close>

lemma emits_bind_result:
  assumes m: "emits r A m" and f: "\<And>x w w'. run_state m w = (x, w') \<Longrightarrow> emits r A (f x)"
  shows "emits r A (State_Monad.bind m f)"
  unfolding emits_def
proof (rule shapedI)
  fix w y w''
  assume "run_state (State_Monad.bind m f) w = (y, w'')"
  then obtain x w' where 1: "run_state m w = (x, w')" and 2: "run_state (f x) w' = (y, w'')"
    by (auto split: prod.splits)
  obtain xs where "trace w' = trace w @ xs" "cluster w' = replay r xs (cluster w)" "list_all A xs"
    using shapedD [OF m [unfolded emits_def] 1] by blast
  moreover obtain ys where
    "trace w'' = trace w' @ ys" "cluster w'' = replay r ys (cluster w')" "list_all A ys"
    using shapedD [OF f [OF 1, unfolded emits_def] 2] by blast
  ultimately show "\<exists>ts. trace w'' = trace w @ ts \<and> cluster w'' = replay r ts (cluster w) \<and> list_all A ts"
    by (intro exI [of _ "xs @ ys"]) simp
qed

text \<open>The primitive calls, each by the one entry it adds.\<close>

lemma emits_api [emits_intros]:
  "A (GetVG k) \<Longrightarrow> emits r A (getVG r k)"
  "A (GetClass k) \<Longrightarrow> emits r A (getClass r k)"
  "A (GetSnap k) \<Longrightarrow> emits r A (getSnap r k)"
  "A (GetContent k) \<Longrightarrow> emits r A (getContent r k)"
  "A (GetPVC k) \<Longrightarrow> emits r A (getPVC r k)"
  "A (GetPV k) \<Longrightarrow> emits r A (getPV r k)"
  "A (ListPVC lo) \<Longrightarrow> emits r A (listPVC r lo)"
  "A ListContent \<Longrightarrow> emits r A (listContent r)"
  "A (CreateContent c) \<Longrightarrow> emits r A (createContent r c)"
  "A (CreateSnap s) \<Longrightarrow> emits r A (createSnap r s)"
  "A (StatusUpdateContent c) \<Longrightarrow> emits r A (statusUpdateContent r c)"
  "A (DeleteSnap s) \<Longrightarrow> emits r A (deleteSnap r s)"
  "A (DeleteVG v) \<Longrightarrow> emits r A (deleteVG r v)"
  "A (CreateVGS n ids ps) \<Longrightarrow> emits r A (createVGS r n ids ps)"
  by (simp_all add: api_defs emits_call)

lemma emits_observations [emits_intros]:
  "A (Event obj ty EventReasonUpdated msg) \<Longrightarrow> emits r A (eventf obj ty msg)"
  "A (StartTimer d) \<Longrightarrow> emits r A (emit (StartTimer d))"
  "A StartSnapWatch \<Longrightarrow> emits r A (emit StartSnapWatch)"
  by (simp_all add: eventf_def emit_def emits_call)

lemma emits_update [emits_intros]:
  "A (UpdateVG v) \<Longrightarrow> emits r A (updateVG r v)"
  "A (StatusUpdateVG v) \<Longrightarrow> emits r A (statusUpdateVG r v)"
  by (simp_all add: updateVG_def statusUpdateVG_def emits_bind emits_call emits_return)

lemma emits_locals [emits_intros]:
  "emits r A resetFailed" "emits r A (setFailed k v)" "emits r A (appendFailed k v)"
  "emits r A (newUUID r')" "emits r A getSched" "emits r A (setSched ts)"
  by (simp_all add: local_defs emits_def all.local_step)

text \<open>Counting: a program split at a call, with the whole budget spent before or after it.\<close>

lemma at_most_bind:
  assumes "at_most r a A m" and "\<And>x. at_most r b A (f x)"
  shows "at_most r (a + b) A (State_Monad.bind m f)"
  using assms unfolding at_most_def by (rule shaped_bind) simp

lemma at_most_before:
  "at_most r 0 A m \<Longrightarrow> (\<And>x. at_most r n A (f x)) \<Longrightarrow> at_most r n A (State_Monad.bind m f)"
  using at_most_bind [of r 0 A m n f] by simp

lemma at_most_after:
  "at_most r n A m \<Longrightarrow> (\<And>x. at_most r 0 A (f x)) \<Longrightarrow> at_most r n A (State_Monad.bind m f)"
  using at_most_bind [of r n A m 0 f] by simp

lemma at_most_return: "at_most r n A (State_Monad.return v)" "at_most r n A (ret v)"
  by (simp_all add: at_most_def ret_def shaped_return)

lemma at_most_andThen_before:
  "at_most r 0 A m \<Longrightarrow> (\<And>v. at_most r n A (f v)) \<Longrightarrow> at_most r n A (andThen m f)"
  unfolding andThen_def
  by (rule at_most_before) (auto intro: at_most_return split: outcome.split)

lemma at_most_createVGS: "at_most r (Suc n) A (createVGS r name ids ps)"
  unfolding at_most_def createVGS_def by (rule shaped_call) simp_all

section \<open>Invariants of the cluster\<close>

text \<open>
  Since the trace misses no change, an invariant of the cluster that no recorded call of a
  program breaks is kept by the program.
\<close>

lemma emits_keeps:
  assumes "emits r A m" and "\<And>e s. A e \<Longrightarrow> I s \<Longrightarrow> I (apply_effect r e s)"
  shows "keeps (\<lambda>w. I (cluster w)) m"
  unfolding keeps_def
proof (rule tripleI)
  fix w x w'
  assume I: "I (cluster w)" and "run_state m w = (x, w')"
  then obtain ts where "cluster w' = replay r ts (cluster w)" "\<forall>e \<in> set ts. A e"
    using emitsD [OF assms(1)] by blast
  moreover have "\<forall>e \<in> set ts. A e \<Longrightarrow> I s \<Longrightarrow> I (replay r ts s)" for s
    by (induction ts arbitrary: s) (auto intro: assms(2))
  ultimately show "I (cluster w')" using I by simp
qed

section \<open>A cluster for examples\<close>

text \<open>A client that answers every call with one error, and a reconciler on it; the examples
  overwrite the operations they need.\<close>

definition failing_client :: "error \<Rightarrow> 's client" where
  "failing_client e = \<lparr>
     cl_GetVG = (\<lambda>k s. (Inl e, s)), cl_GetClass = (\<lambda>k s. (Inl e, s)),
     cl_GetSnap = (\<lambda>k s. (Inl e, s)), cl_GetContent = (\<lambda>k s. (Inl e, s)),
     cl_GetPVC = (\<lambda>k s. (Inl e, s)), cl_GetPV = (\<lambda>k s. (Inl e, s)),
     cl_ListPVC = (\<lambda>lo s. (Inl e, s)), cl_ListContent = (\<lambda>s. (Inl e, s)),
     cl_CreateContent = (\<lambda>c s. (Inl e, s)), cl_CreateSnap = (\<lambda>x s. (Inl e, s)),
     cl_UpdateVG = (\<lambda>v s. (Inl e, s)), cl_StatusUpdateVG = (\<lambda>v s. (Inl e, s)),
     cl_StatusUpdateContent = (\<lambda>c s. (Inl e, s)), cl_DeleteSnap = (\<lambda>x s. (Inl e, s)),
     cl_DeleteVG = (\<lambda>v s. (Inl e, s))\<rparr>"

definition example_reconciler :: "'s client \<Rightarrow> 's reconciler" where
  "example_reconciler c = \<lparr>
     r_Client = c, r_VGClient = (\<lambda>n ids ps s. (Inl (errorf ''no driver''), s)),
     r_DriverName = ''csi-powerstore.dellemc.com'',
     r_IgnoreNotFound = (\<lambda>e. if errReason e = ''NotFound'' then None else Some e),
     r_AddFinalizer = (\<lambda>fs f. if f \<in> set fs then fs else fs @ [f]),
     r_RemoveFinalizer = (\<lambda>fs f. removeAll f fs),
     r_NewUUID = (\<lambda>n. replicate n (CHR ''u'')),
     r_ObjectKinds = (\<lambda>obj. Inr [GVK ''snapshot.storage.k8s.io'' ''v1'' ''VolumeSnapshot'']),
     r_GvkEmpty = (\<lambda>k. k = GVK [] [] []),
     r_GvString = (\<lambda>k. gvkGroup k @ ''/'' @ gvkVersion k),
     r_FmtKinds = (\<lambda>obj ks. [])\<rparr>"

lemmas example_defs = failing_client_def example_reconciler_def start_def

end
