(* ===== verification/VolumeSource.thy ===== *)
theory VolumeSource
  imports Cluster "HOL-Library.AList"
begin

text \<open>
  From the specification of a volume group to the volumes to snapshot: the helper functions on
  volume handles, and the three ways the controller finds the persistent volume claims (by
  name list, by label, by namespace). Source:
  \<^verbatim>\<open>controllers/dellcsivolumegroupsnapshot_controller.go\<close>. A Go map from volume ids to claim
  names is an association list with one entry for each key.
\<close>

section \<open>Helpers\<close>

definition driverTypePowerstore :: string where
  "driverTypePowerstore = ''csi-powerstore.dellemc.com''"

fun containString :: "string list \<Rightarrow> string \<Rightarrow> bool" where
  "containString [] s = False"
| "containString (item # items) s = (if item = s then True else containString items s)"

definition parseVolumeHandle :: "string \<Rightarrow> string \<Rightarrow> string" where
  "parseVolumeHandle driverType volumeHandle =
     (if driverType = driverTypePowerstore
      then (let volHandle = split_on (CHR ''/'') volumeHandle
            in if length volHandle \<ge> 2 then volHandle ! 1 else [])
      else (let volHandle = split_on (CHR ''-'') volumeHandle
            in if length volHandle \<ge> 1 then volHandle ! 0 else []))"

definition driverVerification :: "'s reconciler \<Rightarrow> vsclass \<Rightarrow> bool" where
  "driverVerification r sc = (if sc_Driver sc \<noteq> r_DriverName r then False else True)"

section \<open>Source volumes\<close>

type_synonym volmap = "(string \<times> string) list"

type_synonym sources = "error + (string list \<times> volmap)"

text \<open>The loop of \<open>mapVolIDToPvcName\<close>: index, system id, ids and map so far, claims to go.\<close>

primrec mapLoop ::
  "'s reconciler \<Rightarrow> nat \<Rightarrow> string \<Rightarrow> string list \<Rightarrow> volmap \<Rightarrow> pvc list
     \<Rightarrow> ('s world, sources outcome) state" where
  "mapLoop r k systemID srcVolIDs m [] = ret (Inr (srcVolIDs, m))"
| "mapLoop r k systemID srcVolIDs m (c # cs) = do {
     let pvName = pvc_VolumeName c;
     res \<leftarrow> getPV r (NN [] pvName);
     (case res of
        Inl err \<Rightarrow>
          ret (Inl (errorf (''VG Snapshotter vg create failed, unable to find pv for '' @ pvName)))
      | Inr v \<Rightarrow>
          (case pv_CSI v of
             None \<Rightarrow> panic
           | Some (driver, srcVolID) \<Rightarrow>
               if pvc_Phase c \<noteq> ClaimBound \<or> pv_Phase v \<noteq> VolumeBound
               then mapLoop r (Suc k) systemID srcVolIDs m cs
               else (let arrayID = parseVolumeHandle driver srcVolID;
                         sysID = (if k = 0 then arrayID else systemID);
                         currentsystemID = arrayID
                     in if sysID = currentsystemID
                        then mapLoop r (Suc k) sysID (srcVolIDs @ [srcVolID])
                               (AList.update srcVolID (pvc_Name c) m) cs
                        else ret (Inl (errorf
                          (''VG Snapshotter vg create failed, VG Snapshotter systemIDs are different ''
                           @ sysID))))))
   }"

definition mapVolIDToPvcName ::
  "'s reconciler \<Rightarrow> pvc list \<Rightarrow> ('s world, sources outcome) state" where
  "mapVolIDToPvcName r pvcs =
     andThen (mapLoop r 0 [] [] [] pvcs) (\<lambda>res.
       case res of
         Inl e \<Rightarrow> ret (Inl e)
       | Inr (srcVolIDs, m) \<Rightarrow>
           if length srcVolIDs < 1 \<or> length m < 1
           then ret (Inl (errorf
             ''VG Snapshotter matching pvc label with pv failed to find source volume ids''))
           else ret (Inr (srcVolIDs, m)))"

definition getSourceVolIDsFromLabel ::
  "'s reconciler \<Rightarrow> string \<Rightarrow> string \<Rightarrow> ('s world, sources outcome) state" where
  "getSourceVolIDsFromLabel r label ns =
     (if label \<noteq> [] then do {
        res \<leftarrow> listPVC r \<lparr>lo_Namespace = ns, lo_Labels = Some [(''volume-group'', label)]\<rparr>;
        (case res of
           Inl err \<Rightarrow> ret (Inl (errorf
             (''VG Snapshotter vg create failed, pvc with label missing '' @ label)))
         | Inr items \<Rightarrow>
             if length items < 1
             then ret (Inl (errorf
               (''VG Snapshotter vg create failed, pvc with label missing '' @ label)))
             else mapVolIDToPvcName r items)
      }
      else ret (Inl (errorf ''VG Snapshotter vg create failed, pvc with label missing'')))"

text \<open>The lookup loop of \<open>getSourceVolIDsFromPvcName\<close>: names seen, claims found, names to go.\<close>

primrec pvcNameLoop ::
  "'s reconciler \<Rightarrow> string \<Rightarrow> string list \<Rightarrow> pvc list \<Rightarrow> string list
     \<Rightarrow> ('s world, error + pvc list) state" where
  "pvcNameLoop r ns duplicates pvcList [] = State_Monad.return (Inr pvcList)"
| "pvcNameLoop r ns duplicates pvcList (pvcName # names) =
     (if List.member duplicates pvcName
      then pvcNameLoop r ns duplicates pvcList names
      else do {
        res \<leftarrow> getPVC r (NN ns pvcName);
        (case res of
           Inl err \<Rightarrow> State_Monad.return (Inl (errorf
             (''VG Snapshotter vg create failed, unable to find pvc for pvc Name '' @ pvcName)))
         | Inr c \<Rightarrow> pvcNameLoop r ns (pvcName # duplicates) (pvcList @ [c]) names)
      })"

definition getSourceVolIDsFromPvcName ::
  "'s reconciler \<Rightarrow> string list \<Rightarrow> string \<Rightarrow> ('s world, sources outcome) state" where
  "getSourceVolIDsFromPvcName r pvcNames ns = do {
     res \<leftarrow> pvcNameLoop r ns [] [] pvcNames;
     (case res of
        Inl e \<Rightarrow> ret (Inl e)
      | Inr pvcList \<Rightarrow> mapVolIDToPvcName r pvcList)
   }"

definition getSourceVolIDsFromNs ::
  "'s reconciler \<Rightarrow> string \<Rightarrow> ('s world, sources outcome) state" where
  "getSourceVolIDsFromNs r ns = do {
     res \<leftarrow> listPVC r \<lparr>lo_Namespace = ns, lo_Labels = None\<rparr>;
     (case res of
        Inl err \<Rightarrow> ret (Inl (errorf
          (''VG Snapshotter vg create failed, no pvc found under ns '' @ ns)))
      | Inr items \<Rightarrow>
          if length items < 1
          then ret (Inl (errorf
            (''VG Snapshotter vg create failed, no pvc found under ns '' @ ns)))
          else mapVolIDToPvcName r items)
   }"

section \<open>Helpers: lemmas\<close>

lemma containString_iff [simp]: "containString xs s \<longleftrightarrow> s \<in> set xs"
  by (induction xs) auto

lemma driverVerification_iff [simp]: "driverVerification r sc \<longleftrightarrow> sc_Driver sc = r_DriverName r"
  by (simp add: driverVerification_def)

lemma parseVolumeHandle_powerstore:
  "CHR ''/'' \<notin> set vol \<Longrightarrow> CHR ''/'' \<notin> set array \<Longrightarrow>
     parseVolumeHandle driverTypePowerstore (vol @ CHR ''/'' # array @ CHR ''/'' # proto) = array"
  by (simp add: parseVolumeHandle_def split_on_append_sep Let_def Suc_le_eq)

lemma parseVolumeHandle_default:
  "d \<noteq> driverTypePowerstore \<Longrightarrow> CHR ''-'' \<notin> set sys \<Longrightarrow>
     parseVolumeHandle d (sys @ CHR ''-'' # vol) = sys"
  by (simp add: parseVolumeHandle_def split_on_append_sep)

lemma parseVolumeHandle_plain:
  "CHR ''/'' \<notin> set h \<Longrightarrow> parseVolumeHandle driverTypePowerstore h = []"
  "d \<noteq> driverTypePowerstore \<Longrightarrow> CHR ''-'' \<notin> set h \<Longrightarrow> parseVolumeHandle d h = h"
  by (simp_all add: parseVolumeHandle_def split_on_none)

section \<open>Source volumes: effects\<close>

lemma emits_mapLoop [emits_intros]:
  assumes "\<And>n. A (GetPV (NN [] n))"
  shows "emits r A (mapLoop r k s ids m cs)"
  by (induction cs arbitrary: k s ids m)
    (auto simp: Let_def assms intro!: emits_intros split: sum.split option.split prod.split)

lemma emits_mapVolIDToPvcName [emits_intros]:
  "(\<And>n. A (GetPV (NN [] n))) \<Longrightarrow> emits r A (mapVolIDToPvcName r pvcs)"
  unfolding mapVolIDToPvcName_def
  by (auto intro!: emits_intros split: sum.split prod.split)

lemma emits_pvcNameLoop [emits_intros]:
  assumes "\<And>n. A (GetPVC (NN ns n))"
  shows "emits r A (pvcNameLoop r ns dup cs names)"
  by (induction names arbitrary: dup cs)
    (auto simp: assms intro!: emits_intros split: sum.split)

lemma emits_getSourceVolIDs [emits_intros]:
  assumes "\<And>n. A (GetPV (NN [] n))" "\<And>n. A (GetPVC (NN ns n))"
    and "\<And>l. A (ListPVC \<lparr>lo_Namespace = ns, lo_Labels = l\<rparr>)"
  shows "emits r A (getSourceVolIDsFromLabel r label ns)"
    "emits r A (getSourceVolIDsFromPvcName r names ns)"
    "emits r A (getSourceVolIDsFromNs r ns)"
  unfolding getSourceVolIDsFromLabel_def getSourceVolIDsFromPvcName_def getSourceVolIDsFromNs_def
  using assms by (auto intro!: emits_intros split: sum.split)

section \<open>Source volumes: what the loop computes\<close>

text \<open>
  \<open>reads_volumes r s tab\<close>: in cluster state \<open>s\<close> a \<open>Get\<close> of a persistent volume answers
  from the table \<open>tab\<close> and changes nothing. \<open>bound_claims\<close> lists driver, volume handle and
  claim name of the claims that are bound to a bound CSI volume.
\<close>

definition reads_volumes :: "'s reconciler \<Rightarrow> 's \<Rightarrow> (nname \<Rightarrow> error + pv) \<Rightarrow> bool" where
  "reads_volumes r s tab \<longleftrightarrow> (\<forall>k. cl_GetPV (r_Client r) k s = (tab k, s))"

definition resolvable :: "(nname \<Rightarrow> error + pv) \<Rightarrow> pvc \<Rightarrow> bool" where
  "resolvable tab c \<longleftrightarrow>
     (case tab (NN [] (pvc_VolumeName c)) of Inl _ \<Rightarrow> False | Inr v \<Rightarrow> pv_CSI v \<noteq> None)"

definition bound_claim :: "(nname \<Rightarrow> error + pv) \<Rightarrow> pvc \<Rightarrow> (string \<times> string \<times> string) option" where
  "bound_claim tab c =
     (case tab (NN [] (pvc_VolumeName c)) of
        Inl _ \<Rightarrow> None
      | Inr v \<Rightarrow>
          (case pv_CSI v of
             None \<Rightarrow> None
           | Some (d, h) \<Rightarrow>
               if pvc_Phase c = ClaimBound \<and> pv_Phase v = VolumeBound
               then Some (d, h, pvc_Name c) else None))"

definition bound_claims ::
  "(nname \<Rightarrow> error + pv) \<Rightarrow> pvc list \<Rightarrow> (string \<times> string \<times> string) list" where
  "bound_claims tab cs = List.map_filter (bound_claim tab) cs"

definition claim_array :: "string \<times> string \<times> string \<Rightarrow> string" where
  "claim_array x = parseVolumeHandle (fst x) (fst (snd x))"

definition different_systems :: "string \<Rightarrow> error" where
  "different_systems sys = errorf
     (''VG Snapshotter vg create failed, VG Snapshotter systemIDs are different '' @ sys)"

definition no_source_ids :: error where
  "no_source_ids =
     errorf ''VG Snapshotter matching pvc label with pv failed to find source volume ids''"

text \<open>What \<open>mapVolIDToPvcName\<close> returns for bound claims that are fine.\<close>

definition collect ::
  "string list \<Rightarrow> volmap \<Rightarrow> (string \<times> string \<times> string) list \<Rightarrow> string list \<times> volmap" where
  "collect ids m bc =
     (ids @ map (fst \<circ> snd) bc, fold (\<lambda>x. AList.update (fst (snd x)) (snd (snd x))) bc m)"

text \<open>How one claim ends the loop, given the system all claims must be on: its volume cannot be read,
  has no CSI source (a nil dereference), or is on another system. The first such claim decides.\<close>

definition no_volume :: "string \<Rightarrow> error" where
  "no_volume pvName = errorf (''VG Snapshotter vg create failed, unable to find pv for '' @ pvName)"

definition claim_problem ::
  "(nname \<Rightarrow> error + pv) \<Rightarrow> string \<Rightarrow> pvc \<Rightarrow> sources outcome option" where
  "claim_problem tab sys c =
     (case tab (NN [] (pvc_VolumeName c)) of
        Inl _ \<Rightarrow> Some (Ret (Inl (no_volume (pvc_VolumeName c))))
      | Inr v \<Rightarrow>
          if pv_CSI v = None then Some Panic
          else (case bound_claim tab c of
                  None \<Rightarrow> None
                | Some x \<Rightarrow> if claim_array x = sys then None
                            else Some (Ret (Inl (different_systems sys)))))"

definition first_problem ::
  "(nname \<Rightarrow> error + pv) \<Rightarrow> string \<Rightarrow> pvc list \<Rightarrow> sources outcome option" where
  "first_problem tab sys cs =
     (case List.map_filter (claim_problem tab sys) cs of [] \<Rightarrow> None | p # _ \<Rightarrow> Some p)"

text \<open>The system id the loop compares with: that of the first claim of the list, if bound.\<close>

definition reference_system :: "(nname \<Rightarrow> error + pv) \<Rightarrow> pvc list \<Rightarrow> string" where
  "reference_system tab cs =
     (case cs of
        [] \<Rightarrow> []
      | c # _ \<Rightarrow> (case bound_claim tab c of None \<Rightarrow> [] | Some x \<Rightarrow> claim_array x))"

definition select_sources :: "(nname \<Rightarrow> error + pv) \<Rightarrow> pvc list \<Rightarrow> sources outcome" where
  "select_sources tab cs =
     (case first_problem tab (reference_system tab cs) cs of
        Some p \<Rightarrow> p
      | None \<Rightarrow>
          let bc = bound_claims tab cs
          in if bc = [] then Ret (Inl no_source_ids) else Ret (Inr (collect [] [] bc)))"

lemma bound_claims_simps [simp]:
  "bound_claims tab [] = []"
  "bound_claims tab (c # cs) =
     (case bound_claim tab c of None \<Rightarrow> bound_claims tab cs | Some x \<Rightarrow> x # bound_claims tab cs)"
  by (simp_all add: bound_claims_def List.map_filter_def split: option.split)

lemma collect_simps [simp]:
  "collect ids m [] = (ids, m)"
  "collect ids m (x # bc) =
     collect (ids @ [fst (snd x)]) (AList.update (fst (snd x)) (snd (snd x)) m) bc"
  by (simp_all add: collect_def)

lemma first_problem_simps [simp]:
  "first_problem tab sys [] = None"
  "first_problem tab sys (c # cs) =
     (case claim_problem tab sys c of None \<Rightarrow> first_problem tab sys cs | Some p \<Rightarrow> Some p)"
  by (simp_all add: first_problem_def List.map_filter_def split: option.split)

lemma claim_problem_None:
  "claim_problem tab sys c = None \<Longrightarrow> bound_claim tab c = Some x \<Longrightarrow> claim_array x = sys"
  by (auto simp: claim_problem_def split: sum.splits if_splits)

text \<open>One round of the loop.\<close>

lemma run_mapLoop_Cons:
  assumes "reads_volumes r (cluster w) tab"
    and sys'_def: "sys' = (if k = 0 then reference_system tab [c] else sys)"
  shows "\<exists>w'. cluster w' = cluster w \<and>
     run_state (mapLoop r k sys ids m (c # cs)) w =
       (case claim_problem tab sys' c of
          Some p \<Rightarrow> (p, w')
        | None \<Rightarrow>
            (case bound_claim tab c of
               None \<Rightarrow> run_state (mapLoop r (Suc k) sys ids m cs) w'
             | Some x \<Rightarrow> run_state (mapLoop r (Suc k) sys' (ids @ [fst (snd x)])
                            (AList.update (fst (snd x)) (snd (snd x)) m) cs) w'))"
proof -
  let ?k = "NN [] (pvc_VolumeName c)"
  let ?w = "w\<lparr>trace := trace w @ [GetPV ?k]\<rparr>"
  have g: "run_state (getPV r ?k) w = (tab ?k, ?w)"
    using assms(1) by (simp add: getPV_def run_call reads_volumes_def)
  show ?thesis
  proof (cases "tab ?k")
    case (Inl e)
    with g show ?thesis by (auto simp: claim_problem_def no_volume_def Let_def)
  next
    case (Inr v)
    with g show ?thesis
      by (cases "pv_CSI v")
        (auto simp: claim_problem_def bound_claim_def claim_array_def reference_system_def
          different_systems_def sys'_def Let_def intro!: exI [of _ ?w])
  qed
qed

lemma run_mapLoop_later:
  assumes "reads_volumes r (cluster w) tab"
  shows "\<exists>w'. cluster w' = cluster w \<and>
     run_state (mapLoop r (Suc k) sys ids m cs) w =
       (case first_problem tab sys cs of
          Some p \<Rightarrow> p
        | None \<Rightarrow> Ret (Inr (collect ids m (bound_claims tab cs))), w')"
  using assms
proof (induction cs arbitrary: k ids m w)
  case Nil
  then show ?case by simp
next
  case (Cons c cs)
  from run_mapLoop_Cons [OF Cons.prems refl, where k = "Suc k" and sys = sys and ids = ids and m = m
      and c = c and cs = cs] obtain w1
    where c1: "cluster w1 = cluster w" and step: "run_state (mapLoop r (Suc k) sys ids m (c # cs)) w =
       (case claim_problem tab sys c of
          Some p \<Rightarrow> (p, w1)
        | None \<Rightarrow>
            (case bound_claim tab c of
               None \<Rightarrow> run_state (mapLoop r (Suc (Suc k)) sys ids m cs) w1
             | Some x \<Rightarrow> run_state (mapLoop r (Suc (Suc k)) sys (ids @ [fst (snd x)])
                            (AList.update (fst (snd x)) (snd (snd x)) m) cs) w1))"
    by auto
  have IH: "\<exists>w'. cluster w' = cluster w \<and> run_state (mapLoop r (Suc (Suc k)) sys ids' m' cs) w1 =
      (case first_problem tab sys cs of Some p \<Rightarrow> p
        | None \<Rightarrow> Ret (Inr (collect ids' m' (bound_claims tab cs))), w')" for ids' m'
    using Cons.IH [of w1 "Suc k" ids' m'] Cons.prems c1 by simp
  show ?case
    using IH step c1
    by (cases "claim_problem tab sys c"; cases "bound_claim tab c")
      (auto simp del: mapLoop.simps cong: option.case_cong)
qed

lemma run_mapLoop:
  assumes "reads_volumes r (cluster w) tab"
  shows "\<exists>w'. cluster w' = cluster w \<and>
     run_state (mapLoop r 0 [] [] [] cs) w =
       (case first_problem tab (reference_system tab cs) cs of
          Some p \<Rightarrow> p
        | None \<Rightarrow> Ret (Inr (collect [] [] (bound_claims tab cs))), w')"
proof (cases cs)
  case Nil
  then show ?thesis by simp
next
  case (Cons c cs')
  have sys: "reference_system tab (c # cs') = reference_system tab [c]"
    by (simp add: reference_system_def)
  from run_mapLoop_Cons [OF assms refl, where k = 0 and sys = "[]" and ids = "[]" and m = "[]"
      and c = c and cs = cs'] obtain w1
    where c1: "cluster w1 = cluster w" and step: "run_state (mapLoop r 0 [] [] [] (c # cs')) w =
       (case claim_problem tab (reference_system tab [c]) c of
          Some p \<Rightarrow> (p, w1)
        | None \<Rightarrow>
            (case bound_claim tab c of
               None \<Rightarrow> run_state (mapLoop r (Suc 0) [] [] [] cs') w1
             | Some x \<Rightarrow> run_state (mapLoop r (Suc 0) (reference_system tab [c]) ([] @ [fst (snd x)])
                            (AList.update (fst (snd x)) (snd (snd x)) []) cs') w1))"
    by auto
  have later: "\<exists>w'. cluster w' = cluster w \<and> run_state (mapLoop r (Suc 0) sys ids m cs') w1 =
      (case first_problem tab sys cs' of Some p \<Rightarrow> p
        | None \<Rightarrow> Ret (Inr (collect ids m (bound_claims tab cs'))), w')" for sys ids m
    using run_mapLoop_later [of r w1 tab 0 sys ids m cs'] assms c1 by simp
  have unbound: "bound_claim tab c = None \<Longrightarrow> reference_system tab [c] = []"
    by (simp add: reference_system_def)
  show ?thesis
    using later step c1 unbound unfolding Cons sys
    by (cases "claim_problem tab (reference_system tab [c]) c"; cases "bound_claim tab c")
      (auto simp del: mapLoop.simps cong: option.case_cong)
qed

lemma update_nonempty: "AList.update k v m \<noteq> []"
  by (cases m) auto

lemma fold_update_nonempty:
  "m \<noteq> [] \<or> bc \<noteq> [] \<Longrightarrow> fold (\<lambda>x. AList.update (f x) (g x)) bc m \<noteq> []"
  by (induction bc arbitrary: m) (simp_all add: update_nonempty)

lemma first_problem_result:
  "first_problem tab sys cs = Some p \<Longrightarrow> p = Panic \<or> (\<exists>e. p = Ret (Inl e))"
  by (induction cs) (auto simp: claim_problem_def split: option.splits sum.splits if_splits)

lemma run_mapVolIDToPvcName:
  assumes "reads_volumes r (cluster w) tab"
  shows "\<exists>w'. cluster w' = cluster w \<and>
     run_state (mapVolIDToPvcName r cs) w = (select_sources tab cs, w')"
proof -
  let ?p = "first_problem tab (reference_system tab cs) cs"
  obtain w' where c: "cluster w' = cluster w" and l: "run_state (mapLoop r 0 [] [] [] cs) w =
      (case ?p of Some p \<Rightarrow> p | None \<Rightarrow> Ret (Inr (collect [] [] (bound_claims tab cs))), w')"
    using run_mapLoop [OF assms] by blast
  have "run_state (mapVolIDToPvcName r cs) w = (select_sources tab cs, w')"
  proof (cases ?p)
    case None
    with l show ?thesis
      using fold_update_nonempty [of "[]" "bound_claims tab cs" "\<lambda>x. fst (snd x)" "\<lambda>x. snd (snd x)"]
      by (auto simp: mapVolIDToPvcName_def run_andThen select_sources_def collect_def
          no_source_ids_def Let_def Suc_le_eq)
  next
    case (Some p)
    with l first_problem_result [OF Some] show ?thesis
      by (auto simp: mapVolIDToPvcName_def run_andThen select_sources_def)
  qed
  with c show ?thesis by blast
qed

section \<open>Source volumes: any cluster\<close>

text \<open>What the loop returns, whatever the cluster answers.\<close>

lemma update_values: "snd ` set (AList.update k v m) \<subseteq> insert v (snd ` set m)"
  by (induction m) auto

lemma chain: "A \<subseteq> U \<union> B \<Longrightarrow> U \<subseteq> insert c S \<Longrightarrow> A \<subseteq> S \<union> insert c B"
  by blast

lemma mapLoop_result:
  assumes "run_state (mapLoop r k sys ids m cs) w = (Ret (Inr (ids', m')), w')"
    and "set ids = fst ` set m" and "distinct (map fst m)"
  shows "set ids' = fst ` set m' \<and> distinct (map fst m')
     \<and> length ids' \<le> length ids + length cs
     \<and> snd ` set m' \<subseteq> snd ` set m \<union> pvc_Name ` set cs"
  using assms
proof (induction cs arbitrary: k sys ids m w)
  case Nil
  then show ?case by simp
next
  case (Cons c cs)
  obtain res w1 where g: "run_state (getPV r (NN [] (pvc_VolumeName c))) w = (res, w1)" by force
  with Cons.prems(1) obtain v d h where v: "res = Inr v" "pv_CSI v = Some (d, h)"
    by (cases res) (auto simp: Let_def split: option.splits)
  have skip: ?case if "run_state (mapLoop r k' sys' ids m cs) w1 = (Ret (Inr (ids', m')), w')" for k' sys'
    using Cons.IH [OF that] Cons.prems(2,3) by auto
  have add: ?case if "run_state (mapLoop r k' sys' (ids @ [h]) (AList.update h (pvc_Name c) m) cs) w1
      = (Ret (Inr (ids', m')), w')" for k' sys'
  proof -
    let ?m = "AList.update h (pvc_Name c) m"
    have "set (ids @ [h]) = fst ` set ?m" "distinct (map fst ?m)"
      using Cons.prems(2,3) by (simp_all add: dom_update distinct_update)
    then have 1: "set ids' = fst ` set m' \<and> distinct (map fst m')"
      and 2: "length ids' \<le> length (ids @ [h]) + length cs"
      and 3: "snd ` set m' \<subseteq> snd ` set ?m \<union> pvc_Name ` set cs"
      using Cons.IH [OF that] by simp_all
    have "snd ` set m' \<subseteq> snd ` set m \<union> pvc_Name ` set (c # cs)"
      using chain [OF 3 update_values] by simp
    with 1 2 show ?thesis by simp
  qed
  have "(\<exists>k' sys'. run_state (mapLoop r k' sys' ids m cs) w1 = (Ret (Inr (ids', m')), w'))
     \<or> (\<exists>k' sys'. run_state (mapLoop r k' sys' (ids @ [h]) (AList.update h (pvc_Name c) m) cs) w1
         = (Ret (Inr (ids', m')), w'))"
    using Cons.prems(1) g v by (auto simp: Let_def split: if_splits)
  then show ?case using skip add by blast
qed

text \<open>Claims that are passed over, in front of the first one that is not.\<close>

lemma first_problem_skips:
  assumes "\<forall>c \<in> set cs. resolvable tab c \<and> bound_claim tab c = None"
  shows "first_problem tab sys (cs @ rest) = first_problem tab sys rest"
  using assms by (induction cs) (auto simp: claim_problem_def resolvable_def split: sum.splits)

lemma first_problem_systems:
  assumes "\<forall>c \<in> set cs. resolvable tab c"
  shows "first_problem tab sys cs =
    (if \<forall>x \<in> set (bound_claims tab cs). claim_array x = sys then None
     else Some (Ret (Inl (different_systems sys))))"
  using assms
  by (induction cs) (auto simp: claim_problem_def resolvable_def split: sum.splits option.splits)

section \<open>Claim names\<close>

text \<open>The names of a list in order of first occurrence, each once.\<close>

primrec fresh :: "'a list \<Rightarrow> 'a list \<Rightarrow> 'a list" where
  "fresh seen [] = []"
| "fresh seen (x # xs) = (if x \<in> set seen then fresh seen xs else x # fresh (x # seen) xs)"

lemma set_fresh: "set (fresh seen xs) = set xs - set seen"
  by (induction xs arbitrary: seen) auto

lemma distinct_fresh: "distinct (fresh seen xs)"
  by (induction xs arbitrary: seen) (auto simp: set_fresh)

lemma fresh_append: "fresh seen (xs @ ys) = fresh seen xs @ fresh (rev (fresh seen xs) @ seen) ys"
  by (induction xs arbitrary: seen) auto

text \<open>The lookups the name list leads to, up to the first name with no claim.\<close>

primrec lookup_claims :: "(nname \<Rightarrow> error + pvc) \<Rightarrow> string \<Rightarrow> string list \<Rightarrow> error + pvc list" where
  "lookup_claims tab ns [] = Inr []"
| "lookup_claims tab ns (n # names) =
     (case tab (NN ns n) of
        Inl _ \<Rightarrow> Inl (errorf
          (''VG Snapshotter vg create failed, unable to find pvc for pvc Name '' @ n))
      | Inr c \<Rightarrow>
          (case lookup_claims tab ns names of Inl e \<Rightarrow> Inl e | Inr cs \<Rightarrow> Inr (c # cs)))"

lemma run_pvcNameLoop:
  assumes "\<And>k. cl_GetPVC (r_Client r) k (cluster w) = (tab k, cluster w)"
  shows "\<exists>w'. cluster w' = cluster w \<and>
     run_state (pvcNameLoop r ns dup cs names) w =
       ((case lookup_claims tab ns (fresh dup names) of Inl e \<Rightarrow> Inl e | Inr ds \<Rightarrow> Inr (cs @ ds)), w')"
  using assms
proof (induction names arbitrary: dup cs w)
  case Nil
  then show ?case by auto
next
  case (Cons n names)
  show ?case
  proof (cases "n \<in> set dup")
    case True
    with Cons show ?thesis by simp
  next
    case False
    let ?w = "w\<lparr>trace := trace w @ [GetPVC (NN ns n)]\<rparr>"
    have g: "run_state (getPVC r (NN ns n)) w = (tab (NN ns n), ?w)"
      using Cons.prems by (simp add: getPVC_def run_call)
    show ?thesis
    proof (cases "tab (NN ns n)")
      case (Inl e)
      with g False show ?thesis by auto
    next
      case (Inr c)
      obtain w' where "cluster w' = cluster ?w"
        "run_state (pvcNameLoop r ns (n # dup) (cs @ [c]) names) ?w =
          ((case lookup_claims tab ns (fresh (n # dup) names) of
              Inl e \<Rightarrow> Inl e | Inr ds \<Rightarrow> Inr ((cs @ [c]) @ ds)), w')"
        using Cons.IH [of ?w "n # dup" "cs @ [c]"] Cons.prems by auto
      with g False Inr show ?thesis
        by (auto split: sum.splits)
    qed
  qed
qed

section \<open>Properties\<close>

text \<open>C27: Whatever the cluster answers, when source volumes are found the map has one entry for
  each distinct volume id, its keys are exactly the ids, every value is the name of one of the
  claims, there is at least one id and there are at most as many as claims.\<close>

lemma source_ids_match_map:
  assumes "run_state (mapVolIDToPvcName r cs) w = (Ret (Inr (ids, m)), w')"
  shows "ids \<noteq> [] \<and> set ids = fst ` set m \<and> distinct (map fst m) \<and> length ids \<le> length cs
     \<and> snd ` set m \<subseteq> pvc_Name ` set cs"
proof -
  from assms have "run_state (mapLoop r 0 [] [] [] cs) w = (Ret (Inr (ids, m)), w')" and "ids \<noteq> []"
    by (auto simp: mapVolIDToPvcName_def run_andThen split: prod.splits outcome.splits sum.splits
        if_splits)
  from mapLoop_result [OF this(1)] this(2) show ?thesis by simp
qed

definition example_claim :: "string \<Rightarrow> string \<Rightarrow> string \<Rightarrow> pvc" where
  "example_claim n vol ph = \<lparr>pvc_Name = n, pvc_Namespace = ''ns'', pvc_Labels = [],
     pvc_VolumeName = vol, pvc_Phase = ph\<rparr>"

definition example_volume :: "string \<Rightarrow> pv" where
  "example_volume handle = \<lparr>pv_Name = ''pv'', pv_CSI = Some (driverTypePowerstore, handle),
     pv_Phase = VolumeBound\<rparr>"

definition volumes_client :: "(nname \<Rightarrow> error + pv) \<Rightarrow> unit reconciler" where
  "volumes_client tab = example_reconciler
     ((failing_client (errorf ''down''))\<lparr>cl_GetPV := (\<lambda>k s. (tab k, s))\<rparr>)"

lemma volumes_client_reads: "reads_volumes (volumes_client tab) s tab"
  by (simp add: reads_volumes_def volumes_client_def example_reconciler_def)

lemma source_ids_match_map_witness:
  "\<exists>w' ids m. run_state (mapVolIDToPvcName
       (volumes_client (\<lambda>k. Inr (example_volume (nnName k @ ''/array/scsi''))))
       [example_claim ''a'' ''v1'' ClaimBound, example_claim ''b'' ''v1'' ClaimBound]) (start () [])
       = (Ret (Inr (ids, m)), w')
     \<and> ids = [''v1/array/scsi'', ''v1/array/scsi''] \<and> m = [(''v1/array/scsi'', ''b'')]
     \<and> set ids = fst ` set m"
proof -
  let ?tab = "\<lambda>k. Inr (example_volume (nnName k @ ''/array/scsi''))"
  let ?cs = "[example_claim ''a'' ''v1'' ClaimBound, example_claim ''b'' ''v1'' ClaimBound]"
  have sel: "select_sources ?tab ?cs =
      Ret (Inr ([''v1/array/scsi'', ''v1/array/scsi''], [(''v1/array/scsi'', ''b'')]))"
    by (simp add: select_sources_def claim_problem_def collect_def reference_system_def bound_claim_def
        example_volume_def example_claim_def claim_array_def Let_def parseVolumeHandle_def)
  from run_mapVolIDToPvcName [OF volumes_client_reads, where w = "start () []" and tab = ?tab and cs = ?cs]
  obtain w' where run: "run_state (mapVolIDToPvcName (volumes_client ?tab) ?cs) (start () []) =
      (Ret (Inr ([''v1/array/scsi'', ''v1/array/scsi''], [(''v1/array/scsi'', ''b'')])), w')"
    unfolding sel by (elim exE conjE)
  from source_ids_match_map [OF run]
  have keys: "set [''v1/array/scsi'', ''v1/array/scsi''] = fst ` set [(''v1/array/scsi'', ''b'')]"
    by (elim conjE)
  show ?thesis
    by (intro exI conjI) (rule run, rule refl, rule refl, rule keys)
qed

text \<open>C37: The first claim of the list fixes the system the others must be on even when it is not
  bound and so skipped: then its system is the empty string, and the group fails with "systemIDs
  are different" although all volumes to snapshot may be on one system.\<close>

lemma unbound_first_claim_fails:
  assumes "reads_volumes r (cluster w) tab" and "\<forall>c \<in> set (c # cs). resolvable tab c"
    and "bound_claim tab c = None" and "x \<in> set (bound_claims tab cs)" and "claim_array x \<noteq> []"
  shows "fst (run_state (mapVolIDToPvcName r (c # cs)) w) = Ret (Inl (different_systems []))"
proof -
  have "reference_system tab (c # cs) = []"
    using assms(3) by (simp add: reference_system_def)
  moreover have "first_problem tab [] (c # cs) = Some (Ret (Inl (different_systems [])))"
    using assms(3-5) by (subst first_problem_systems [OF assms(2)]) auto
  ultimately have "select_sources tab (c # cs) = Ret (Inl (different_systems []))"
    unfolding select_sources_def by simp
  with run_mapVolIDToPvcName [OF assms(1)] show ?thesis by (metis fst_conv)
qed

lemma unbound_first_claim_fails_witness:
  "fst (run_state (mapVolIDToPvcName
      (volumes_client (\<lambda>k. Inr (example_volume (nnName k @ ''/array/scsi''))))
      [example_claim ''a'' ''v1'' ''Pending'', example_claim ''b'' ''v2'' ClaimBound]) (start () []))
     = Ret (Inl (different_systems []))"
proof (rule unbound_first_claim_fails [OF volumes_client_reads])
  let ?tab = "\<lambda>k. Inr (example_volume (nnName k @ ''/array/scsi''))"
  show "\<forall>c \<in> set [example_claim ''a'' ''v1'' ''Pending'', example_claim ''b'' ''v2'' ClaimBound].
      resolvable ?tab c"
    by (simp add: resolvable_def example_volume_def)
  show "bound_claim ?tab (example_claim ''a'' ''v1'' ''Pending'') = None"
    by (simp add: bound_claim_def example_volume_def example_claim_def ClaimBound_def)
  show "(driverTypePowerstore, ''v2/array/scsi'', ''b'') \<in>
      set (bound_claims ?tab [example_claim ''b'' ''v2'' ClaimBound])"
    by (simp add: bound_claim_def example_volume_def example_claim_def)
  show "claim_array (driverTypePowerstore, ''v2/array/scsi'', ''b'') \<noteq> []"
    by (simp add: claim_array_def parseVolumeHandle_def Let_def)
qed

text \<open>C38: A claim whose volume has no CSI source makes the controller panic (nil dereference),
  whatever comes after it in the list, once the loop gets to it.\<close>

lemma non_csi_volume_panics:
  assumes "reads_volumes r (cluster w) tab"
    and "\<forall>c \<in> set cs. resolvable tab c \<and> bound_claim tab c = None"
    and "tab (NN [] (pvc_VolumeName c)) = Inr v" and "pv_CSI v = None"
  shows "fst (run_state (mapVolIDToPvcName r (cs @ c # rest)) w) = Panic"
proof -
  have "first_problem tab sys (cs @ c # rest) = Some Panic" for sys
    unfolding first_problem_skips [OF assms(2)] using assms(3,4) by (simp add: claim_problem_def)
  then have "select_sources tab (cs @ c # rest) = Panic" by (simp add: select_sources_def)
  with run_mapVolIDToPvcName [OF assms(1)] show ?thesis by (metis fst_conv)
qed

lemma non_csi_volume_panics_witness:
  "fst (run_state (mapVolIDToPvcName
      (volumes_client (\<lambda>k. Inr (\<lparr>pv_Name = ''nfs'', pv_CSI = None, pv_Phase = VolumeBound\<rparr>)))
      [example_claim ''a'' ''v1'' ClaimBound]) (start () [])) = Panic"
  using non_csi_volume_panics [OF volumes_client_reads, where cs = "[]"] by simp

text \<open>The array id is read back from a volume handle in either documented format: the second
  slash-separated part for PowerStore, the part before the first dash for every other driver.\<close>

lemma volume_handle_array:
  assumes "CHR ''/'' \<notin> set vol" "CHR ''/'' \<notin> set array" "CHR ''-'' \<notin> set array"
    and "driver \<noteq> driverTypePowerstore"
  shows "parseVolumeHandle driverTypePowerstore (vol @ CHR ''/'' # array @ CHR ''/'' # proto) = array
     \<and> parseVolumeHandle driver (array @ CHR ''-'' # vol) = array"
  using assms by (simp add: parseVolumeHandle_powerstore parseVolumeHandle_default)

lemma volume_handle_array_witness:
  "parseVolumeHandle driverTypePowerstore (''vol1'' @ CHR ''/'' # ''PS01'' @ CHR ''/'' # ''scsi'') = ''PS01''
     \<and> parseVolumeHandle ''csi-vxflexos.dellemc.com'' (''PS01'' @ CHR ''-'' # ''vol1'') = ''PS01''"
  by (rule volume_handle_array) (simp_all add: driverTypePowerstore_def)

end
