(* ===== verification/SnapshotObjects.thy ===== *)
theory SnapshotObjects
  imports VolumeSource
begin

text \<open>
  The Kubernetes objects of one group member: building a \<open>VolumeSnapshot\<close> and its
  \<open>VolumeSnapshotContent\<close>, building the reference between them, checking objects that exist
  already, creating what is missing and refreshing the content's status. Source:
  \<^verbatim>\<open>controllers/dellcsivolumegroupsnapshot_controller.go\<close>. A dereferenced pointer that is nil
  panics.
\<close>

section \<open>Building objects\<close>

definition makeVolSnap :: "string \<Rightarrow> string \<Rightarrow> string \<Rightarrow> string \<Rightarrow> string \<Rightarrow> volsnap" where
  "makeVolSnap ns vgname name snapClassName content =
     \<lparr>vs_GVK = GVK [] [] [], vs_Name = name, vs_Namespace = ns, vs_UID = [],
      vs_ResourceVersion = [], vs_Labels = [(LabelSnapshotGroup, vgname)],
      vs_ClassName = Some snapClassName, vs_SourceContentName = Some content,
      vs_Status = None\<rparr>"

definition makeVolSnapContent ::
  "string \<Rightarrow> objref \<Rightarrow> csisnap \<Rightarrow> vsclass \<Rightarrow> content" where
  "makeVolSnapContent contentName snapRef s sc =
     \<lparr>vc_Name = contentName, vc_SnapshotRef = snapRef,
      vc_SnapshotHandle = Some (snap_SnapId s), vc_ClassName = Some (sc_Name sc),
      vc_DeletionPolicy = sc_DeletionPolicy sc, vc_Driver = sc_Driver sc, vc_Status = None\<rparr>"

text \<open>The kind of an object: its own, or else the first one the scheme knows for its type.\<close>

definition referenceKind :: "'s reconciler \<Rightarrow> robj \<Rightarrow> gvk \<Rightarrow> error + gvk" where
  "referenceKind r obj k =
     (if r_GvkEmpty r k
      then (case r_ObjectKinds r obj of
              Inl err \<Rightarrow> Inl err
            | Inr [] \<Rightarrow> Inl (errorf
                (''VG Snapshotter vg created ok unexpected gvks registered for object ''
                 @ r_FmtKinds r obj []))
            | Inr (k' # ks) \<Rightarrow>
                if r_GvkEmpty r k'
                then Inl (errorf
                  (''VG Snapshotter vg created ok unexpected gvks registered for object ''
                   @ r_FmtKinds r obj (k' # ks)))
                else Inr k')
      else Inr k)"

definition GetReference :: "'s reconciler \<Rightarrow> robj \<Rightarrow> error + objref" where
  "GetReference r obj =
     (case obj of
        RNil \<Rightarrow> Inl (errorf
          ''VG Snapshotter vg created ok but nil reference oject for VolumeSnapshot'')
      | RRef ref \<Rightarrow> Inr ref
      | ROther err \<Rightarrow> Inl err
      | RList k rv \<Rightarrow>
          (case referenceKind r obj k of
             Inl err \<Rightarrow> Inl err
           | Inr k' \<Rightarrow> Inr \<lparr>or_Kind = gvkKind k', or_APIVersion = r_GvString r k', or_Name = [],
                           or_Namespace = [], or_UID = [], or_ResourceVersion = rv\<rparr>)
      | RMeta k name ns uid rv \<Rightarrow>
          (case referenceKind r obj k of
             Inl err \<Rightarrow> Inl err
           | Inr k' \<Rightarrow> Inr \<lparr>or_Kind = gvkKind k', or_APIVersion = r_GvString r k', or_Name = name,
                           or_Namespace = ns, or_UID = uid, or_ResourceVersion = rv\<rparr>))"

text \<open>A \<open>VolumeSnapshot\<close> seen as a runtime object.\<close>

definition snap_obj :: "volsnap \<Rightarrow> robj" where
  "snap_obj s = RMeta (vs_GVK s) (vs_Name s) (vs_Namespace s) (vs_UID s) (vs_ResourceVersion s)"

section \<open>Existing objects\<close>

definition validateExistingVolSnapcontent ::
  "content \<Rightarrow> volsnap \<Rightarrow> vg \<Rightarrow> string \<Rightarrow> ('s world, (bool \<times> error option) outcome) state" where
  "validateExistingVolSnapcontent vc volsnap v snapID =
     (case (vc_SnapshotHandle vc, vs_ClassName volsnap, vc_ClassName vc) of
        (Some handle, Some existingClass, Some contentClass) \<Rightarrow>
          (let ref = vc_SnapshotRef vc;
               update = (handle \<noteq> snapID);
               e1 = (if vc_Driver vc \<noteq> spec_DriverName (vg_Spec v)
                     then Some (errorf (''VolumeSnapshotContent Driver '' @ vc_Driver vc @ '' ''
                            @ spec_DriverName (vg_Spec v))) else None);
               e2 = (if existingClass \<noteq> contentClass
                     then Some (errorf (''VolumeSnapshotContent VolumeSnapshotClass ''
                            @ contentClass @ '' '' @ existingClass)) else e1);
               e3 = (if or_Name ref \<noteq> vs_Name volsnap \<or> or_Namespace ref \<noteq> vs_Namespace volsnap
                     then Some (errorf (''VolumeSnapshotContent VolumeSnapshotRef name ''
                            @ or_Name ref @ '' '' @ vs_Name volsnap @ '' namespace ''
                            @ or_Namespace ref @ '' '' @ vs_Namespace volsnap)) else e2)
           in (case e3 of
                 Some contentErr \<Rightarrow> do {
                   eventf (OnVG (vg_key v)) EventTypeWarning
                     (''Warning existing volumeSnapshotContent found '' @ vc_Name vc @ '' in ''
                      @ vg_Name v @ '' not matching. error: '' @ errText contentErr);
                   ret (False, Some contentErr)
                 }
               | None \<Rightarrow> ret (update, None)))
      | _ \<Rightarrow> panic)"

definition checkExistingVolsnapcontent ::
  "'s reconciler \<Rightarrow> volsnap \<Rightarrow> vg \<Rightarrow> string
     \<Rightarrow> ('s world, (string \<times> bool \<times> error option) outcome) state" where
  "checkExistingVolsnapcontent r volsnap v snapID = do {
     res \<leftarrow> listContent r;
     (case res of
        Inl err \<Rightarrow> ret ([], False, Some err)
      | Inr items \<Rightarrow>
          if length items < 1 then ret ([], False, None)
          else (case find (\<lambda>vc. vs_Name volsnap = or_Name (vc_SnapshotRef vc)
                              \<and> vs_Namespace volsnap = or_Namespace (vc_SnapshotRef vc)) items of
                  None \<Rightarrow> ret ([], False, None)
                | Some vc \<Rightarrow>
                    andThen (validateExistingVolSnapcontent vc volsnap v snapID)
                      (\<lambda>(update, contentErr). ret (vc_Name vc, update, contentErr))))
   }"

text \<open>
  The errors \<open>checkExistingVolSnapshot\<close> collects about an existing snapshot, given the content
  name it is bound to, the error of the content's \<open>Get\<close> and the content object (still zero
  when that \<open>Get\<close> failed): the error flag, \<open>snapErr\<close> and \<open>contentErr\<close>; \<open>None\<close> is a nil
  dereference.
\<close>

definition existingSnapErrors ::
  "string \<Rightarrow> error option \<Rightarrow> content \<Rightarrow> volsnap \<Rightarrow> vg
     \<Rightarrow> (bool \<times> error option \<times> error option) option" where
  "existingSnapErrors existingContentname getErr vc volsnap v =
     (let afterStatus =
        (case vs_Status volsnap of
           None \<Rightarrow> Some (getErr \<noteq> None, getErr, None)
         | Some st \<Rightarrow>
             (case (ss_ReadyToUse st, ss_BoundContentName st) of
                (Some ready, Some bound) \<Rightarrow>
                  (let snapErr = (if \<not> ready
                         then Some (errorf ''VG Snapshotter vg created ok existing VolumeSnapshot Status.ReadyToUse'')
                         else getErr);
                       contentErr = (if bound \<noteq> existingContentname
                         then Some (errorf ''VG Snapshotter vg created ok VolumeSnapshot exists with BoundVolumeSnapshotContentName  different from VolumeSnapshotContentName'')
                         else None)
                   in Some (snapErr \<noteq> None \<or> contentErr \<noteq> None, snapErr, contentErr))
              | _ \<Rightarrow> None))
      in (case afterStatus of
            None \<Rightarrow> None
          | Some (flag, snapErr, contentErr) \<Rightarrow>
              (case (vc_SnapshotHandle vc, vs_ClassName volsnap) of
                 (Some handle, Some existingClass) \<Rightarrow>
                   if existingClass \<noteq> spec_Volumesnapshotclass (vg_Spec v)
                   then Some (True, Some (errorf ''VG Snapshotter vg created ok volumesnapshot exits with different Volumesnapshotclass''), contentErr)
                   else Some (flag, snapErr, contentErr)
               | _ \<Rightarrow> None)))"

definition checkExistingVolSnapshot ::
  "'s reconciler \<Rightarrow> volsnap \<Rightarrow> vg \<Rightarrow> string \<Rightarrow> ('s world, (bool \<times> error option) outcome) state" where
  "checkExistingVolSnapshot r volsnap v snapID =
     (case vs_SourceContentName volsnap of
        None \<Rightarrow> panic
      | Some existingContentname \<Rightarrow> do {
          res \<leftarrow> getContent r (NN [] existingContentname);
          let getErr = (case res of Inl err \<Rightarrow> Some err | Inr _ \<Rightarrow> None);
          let vc = (case res of Inl _ \<Rightarrow> empty_content | Inr c \<Rightarrow> c);
          (case existingSnapErrors existingContentname getErr vc volsnap v of
             None \<Rightarrow> panic
           | Some (existVolumeSnapshotError, snapErr, contentErr) \<Rightarrow>
               (case (existVolumeSnapshotError, snapErr, contentErr) of
                  (True, Some err, _) \<Rightarrow> do {
                    eventf (OnVG (vg_key v)) EventTypeWarning
                      (''Warning existing volumeSnapshot found '' @ vs_Name volsnap @ '' in ''
                       @ vg_Name v @ ''. error: '' @ errText err);
                    ret (True, Some err)
                  }
                | (True, None, Some err) \<Rightarrow> do {
                    eventf (OnVG (vg_key v)) EventTypeWarning
                      (''Warning volumeSnapshotContent '' @ existingContentname
                       @ '' cannot be used in '' @ vg_Name v @ ''. error: '' @ errText err);
                    ret (True, Some err)
                  }
                | _ \<Rightarrow> ret (False, None)))
        })"

section \<open>Creating and refreshing the objects of a member\<close>

text \<open>The branch that creates: content first, then the snapshot.\<close>

definition createContentAndSnap ::
  "'s reconciler \<Rightarrow> string \<Rightarrow> string \<Rightarrow> vg \<Rightarrow> csisnap \<Rightarrow> vsclass \<Rightarrow> volsnap \<Rightarrow> objref
     \<Rightarrow> ('s world, (bool \<times> string \<times> error option) outcome) state" where
  "createContentAndSnap r volumeSnapshotName contentName v s sc volsnap snapRef = do {
     cres \<leftarrow> createContent r (makeVolSnapContent contentName snapRef s sc);
     (case cres of
        Inl err \<Rightarrow> do {
          eventf (OnVG (vg_key v)) EventTypeWarning
            (''Failed to create VolumeSnapshotContent '' @ contentName @ '' in '' @ vg_Name v
             @ ''. error: '' @ errText err);
          appendFailed (snap_Name s)
            (''VG Snapshotter vg created ok unable to create VolumeSnapshotContent ''
             @ contentName @ '' in '' @ vg_Name v);
          ret (False, [], Some err)
        }
      | Inr _ \<Rightarrow> do {
          sres \<leftarrow> createSnap r volsnap;
          (case sres of
             Inl err \<Rightarrow> do {
               eventf (OnVG (vg_key v)) EventTypeWarning
                 (''Failed to Create Volumesnapshot '' @ volumeSnapshotName @ '' in vg ''
                  @ vg_Name v @ ''. error : '' @ errText err);
               appendFailed (snap_Name s)
                 (''VG Snapshotter vg created ok unable to create VolumeSnapshot  ''
                  @ volumeSnapshotName @ '' in '' @ vg_Name v);
               ret (False, [], Some err)
             }
           | Inr _ \<Rightarrow> ret (False, contentName, None))
        })
   }"

definition createVolumeSnapshot ::
  "'s reconciler \<Rightarrow> string \<Rightarrow> string \<Rightarrow> vg \<Rightarrow> csisnap \<Rightarrow> vsclass
     \<Rightarrow> ('s world, (bool \<times> string \<times> error option) outcome) state" where
  "createVolumeSnapshot r volumeSnapshotName contentName v s sc = do {
     res \<leftarrow> getSnap r (NN (vg_Namespace v) volumeSnapshotName);
     let got = (case res of Inl _ \<Rightarrow> empty_snap | Inr x \<Rightarrow> x);
     let volumeSnapshotExists = (vs_Name got \<noteq> []);
     let volsnap = (if volumeSnapshotExists then got
                    else makeVolSnap (vg_Namespace v) (vg_Name v) volumeSnapshotName
                           (spec_Volumesnapshotclass (vg_Spec v)) contentName);
     andThen (if volumeSnapshotExists
              then checkExistingVolSnapshot r volsnap v (snap_SnapId s)
              else ret (False, None))
       (\<lambda>(hasError, volsnapErr).
          if hasError then ret (False, [], volsnapErr)
          else (case GetReference r (snap_obj volsnap) of
                  Inl refErr \<Rightarrow> do {
                    setFailed (snap_Name s)
                      (''VG Snapshotter vg created ok unable to get Reference to VolumeSnapshot ''
                       @ volumeSnapshotName @ '' in '' @ vg_Name v);
                    ret (False, [], Some refErr)
                  }
                | Inr snapRef \<Rightarrow>
                    if volumeSnapshotExists
                    then andThen (checkExistingVolsnapcontent r volsnap v (snap_SnapId s))
                      (\<lambda>(contentNameExists, update, contentErr).
                         case contentErr of
                           Some err \<Rightarrow> do {
                             setFailed (snap_Name s)
                               (''VG Snapshotter vg created ok unable to update VolumeSnapshotContent  ''
                                @ contentName @ '' in '' @ vg_Name v);
                             ret (False, [], Some err)
                           }
                         | None \<Rightarrow> ret (update, contentNameExists, None))
                    else createContentAndSnap r volumeSnapshotName contentName v s sc volsnap snapRef))
   }"

definition refreshedContent :: "csisnap \<Rightarrow> content \<Rightarrow> content" where
  "refreshedContent s vc =
     vc\<lparr>vc_SnapshotHandle := Some (snap_SnapId s),
        vc_Status := Some \<lparr>cs_SnapshotHandle = Some (snap_SnapId s),
          cs_CreationTime = Some (snap_CreationTime s),
          cs_ReadyToUse = Some (snap_ReadyToUse s),
          cs_RestoreSize = Some (snap_CapacityBytes s)\<rparr>\<rparr>"

definition updateVolumeSnapshotContentStatus ::
  "'s reconciler \<Rightarrow> string \<Rightarrow> bool \<Rightarrow> csisnap \<Rightarrow> string \<Rightarrow> ('s world, error option) state" where
  "updateVolumeSnapshotContentStatus r contentName updateSnapIDForContent s vgName = do {
     let failed = ''VG Snapshotter vg created ok unable to update VolumeSnapshotContent  ''
                    @ contentName @ '' in '' @ vgName;
     let done = (\<lambda>vc :: content. do {
           eventf (OnContent (vc_Name vc)) EventTypeNormal
             (''Created VG Volumesnapshotcontent in vg '' @ vgName @ '' with name: ''
              @ contentName);
           State_Monad.return None
         });
     res \<leftarrow> getContent r (NN [] contentName);
     (case res of
        Inl err \<Rightarrow> do {
          eventf (OnContent []) EventTypeWarning
            (''Failed to get newly created VolumeSnapshotContent '' @ contentName @ '' in vg ''
             @ vgName @ ''. error : '' @ errText err);
          appendFailed (snap_Name s)
            (''VG Snapshotter vg created ok unable to get newly created VolumeSnapshotContent  ''
             @ contentName @ '' in '' @ vgName);
          State_Monad.return (Some err)
        }
      | Inr vc \<Rightarrow>
          if updateSnapIDForContent
          then do {
            ures \<leftarrow> statusUpdateContent r (refreshedContent s vc);
            (case ures of
               Inl err \<Rightarrow> do {
                 setFailed (snap_Name s) failed;
                 State_Monad.return (Some err)
               }
             | Inr _ \<Rightarrow> do {
                 gres \<leftarrow> getContent r (NN [] contentName);
                 (case gres of
                    Inl err \<Rightarrow> do {
                      setFailed (snap_Name s) failed;
                      State_Monad.return (Some err)
                    }
                  | Inr vc' \<Rightarrow> done vc')
               })
          }
          else done vc)
   }"

section \<open>Effects\<close>

text \<open>
  What the work on one member may do: read snapshots and contents, create them, refresh a
  content's status, record events. It never touches the group object, never deletes, and never
  calls the driver.
\<close>

fun member_effect :: "effect \<Rightarrow> bool" where
  "member_effect (GetSnap _) = True"
| "member_effect (GetContent _) = True"
| "member_effect ListContent = True"
| "member_effect (CreateContent _) = True"
| "member_effect (CreateSnap _) = True"
| "member_effect (StatusUpdateContent _) = True"
| "member_effect (Event _ _ _ _) = True"
| "member_effect _ = False"

text \<open>The checks and the status refresh create nothing.\<close>

fun check_effect :: "effect \<Rightarrow> bool" where
  "check_effect (CreateContent _) = False"
| "check_effect (CreateSnap _) = False"
| "check_effect e = member_effect e"

lemma check_effect_member: "check_effect e \<Longrightarrow> member_effect e"
  by (cases e) auto

lemma emits_validate [emits_intros]:
  "emits r check_effect (validateExistingVolSnapcontent vc volsnap v snapID)"
  unfolding validateExistingVolSnapcontent_def Let_def
  by (auto intro!: emits_intros split: option.split prod.split)

lemma emits_checkExistingVolsnapcontent [emits_intros]:
  "emits r check_effect (checkExistingVolsnapcontent r volsnap v snapID)"
  unfolding checkExistingVolsnapcontent_def
  by (auto intro!: emits_intros split: option.split sum.split)

lemma emits_checkExistingVolSnapshot [emits_intros]:
  "emits r check_effect (checkExistingVolSnapshot r volsnap v snapID)"
  unfolding checkExistingVolSnapshot_def Let_def
  by (auto intro!: emits_intros split: option.split sum.split prod.split bool.split)

lemma emits_updateVolumeSnapshotContentStatus [emits_intros]:
  "emits r check_effect (updateVolumeSnapshotContentStatus r cn u s vgName)"
  unfolding updateVolumeSnapshotContentStatus_def Let_def
  by (auto intro!: emits_intros split: sum.split)

lemmas check_emits_member [emits_intros] =
  emits_checkExistingVolsnapcontent [THEN emits_mono, OF check_effect_member]
  emits_checkExistingVolSnapshot [THEN emits_mono, OF check_effect_member]
  emits_updateVolumeSnapshotContentStatus [THEN emits_mono, OF check_effect_member]

lemma emits_createContentAndSnap [emits_intros]:
  "emits r member_effect (createContentAndSnap r n cn v s sc volsnap ref)"
  unfolding createContentAndSnap_def
  by (auto intro!: emits_intros split: sum.split)

lemma emits_createVolumeSnapshot [emits_intros]:
  "emits r member_effect (createVolumeSnapshot r n cn v s sc)"
  unfolding createVolumeSnapshot_def Let_def
  by (auto intro!: emits_intros split: sum.split option.split)

section \<open>The shape of a creation\<close>

text \<open>
  \<open>binds c s\<close>: content and snapshot point at each other. \<open>paired P ts\<close>: in \<open>ts\<close>, every creation
  of a snapshot comes right after the creation of a content it is bound to, and every content
  created satisfies \<open>P\<close>.
\<close>

definition binds :: "content \<Rightarrow> volsnap \<Rightarrow> bool" where
  "binds c s \<longleftrightarrow> vs_SourceContentName s = Some (vc_Name c)
     \<and> or_Name (vc_SnapshotRef c) = vs_Name s
     \<and> or_Namespace (vc_SnapshotRef c) = vs_Namespace s"

fun paired :: "(content \<Rightarrow> bool) \<Rightarrow> effect list \<Rightarrow> bool" where
  "paired P [] = True"
| "paired P (CreateSnap s # ts) = False"
| "paired P (CreateContent c # CreateSnap s # ts) = (P c \<and> binds c s \<and> paired P ts)"
| "paired P (CreateContent c # ts) = (P c \<and> paired P ts)"
| "paired P (e # ts) = paired P ts"

lemma paired_content: "P c \<Longrightarrow> paired P ts \<Longrightarrow> paired P (CreateContent c # ts)"
  by (cases ts; cases "hd ts") auto

lemma paired_append: "paired P xs \<Longrightarrow> paired P ys \<Longrightarrow> paired P (xs @ ys)"
  by (induction P xs rule: paired.induct) (auto simp: paired_content)

lemma paired_contents: "paired P ts \<Longrightarrow> CreateContent c \<in> set ts \<Longrightarrow> P c"
  by (induction P ts rule: paired.induct) auto

interpretation pairing: trace_shape "paired P" for P
  by unfold_locales (simp_all add: paired_append)

lemma emits_paired:
  assumes "emits r A m" and "\<And>e. A e \<Longrightarrow> (\<forall>c. e \<noteq> CreateContent c) \<and> (\<forall>s. e \<noteq> CreateSnap s)"
  shows "shaped r (paired P) m"
  using assms(1) unfolding emits_def
proof (rule shaped_mono)
  fix ts
  assume "list_all A ts"
  then show "paired P ts"
  proof (induction ts)
    case (Cons e ts)
    then show ?case using assms(2) [of e] by (cases e) auto
  qed simp
qed

text \<open>What a created content must say about the driver's snapshot and the snapshot class.\<close>

definition content_for :: "csisnap \<Rightarrow> vsclass \<Rightarrow> content \<Rightarrow> bool" where
  "content_for s sc c \<longleftrightarrow> vc_SnapshotHandle c = Some (snap_SnapId s)
     \<and> vc_ClassName c = Some (sc_Name sc) \<and> vc_DeletionPolicy c = sc_DeletionPolicy sc
     \<and> vc_Driver c = sc_Driver sc"

lemma GetReference_snap:
  "GetReference r (snap_obj x) = Inr ref \<Longrightarrow>
     or_Name ref = vs_Name x \<and> or_Namespace ref = vs_Namespace x"
  by (auto simp: GetReference_def snap_obj_def split: sum.splits)

lemma makeVolSnap_binds:
  assumes "GetReference r (snap_obj (makeVolSnap ns vgname name cls cn)) = Inr ref"
  shows "binds (makeVolSnapContent cn ref s sc) (makeVolSnap ns vgname name cls cn)"
  using GetReference_snap [OF assms]
  by (simp add: binds_def makeVolSnapContent_def makeVolSnap_def)

lemma content_for_make [simp]: "content_for s sc (makeVolSnapContent cn ref s sc)"
  by (simp add: content_for_def makeVolSnapContent_def)

lemma paired_createContentAndSnap:
  assumes "\<And>c. content_for s sc c \<Longrightarrow> P c"
    and "binds (makeVolSnapContent cn ref s sc) volsnap"
  shows "shaped r (paired P) (createContentAndSnap r n cn v s sc volsnap ref)"
proof -
  have "paired P [CreateContent (makeVolSnapContent cn ref s sc)]"
    and "paired P [CreateContent (makeVolSnapContent cn ref s sc), CreateSnap volsnap]"
    using assms by simp_all
  then show ?thesis
    by (intro shapedI)
      (auto simp: createContentAndSnap_def api_defs run_call local_defs
        split: sum.splits prod.splits intro!: paired_append)
qed

text \<open>Calls that create nothing have the shape for every \<open>P\<close>.\<close>

lemma check_paired:
  "emits r check_effect m \<Longrightarrow> shaped r (paired P) m"
  by (erule emits_paired) auto

lemma paired_createVolumeSnapshot:
  assumes P: "\<And>c. content_for s sc c \<Longrightarrow> P c"
  shows "shaped r (paired P) (createVolumeSnapshot r n cn v s sc)"
proof -
  let ?new = "makeVolSnap (vg_Namespace v) (vg_Name v) n (spec_Volumesnapshotclass (vg_Spec v)) cn"
  have new: "GetReference r (snap_obj ?new) = Inr ref \<Longrightarrow>
      shaped r (paired P) (createContentAndSnap r n cn v s sc ?new ref)" for ref
    using paired_createContentAndSnap [OF P makeVolSnap_binds] .
  have get: "shaped r (paired P) (getSnap r k)" and quiet: "shaped r (paired P) (setFailed x y)" for k x y
    by (rule check_paired, simp add: emits_intros)+
  show ?thesis
    unfolding createVolumeSnapshot_def Let_def
    by (auto intro!: pairing.composition get quiet new
        check_paired [OF emits_checkExistingVolSnapshot]
        check_paired [OF emits_checkExistingVolsnapcontent]
        split: sum.split option.split prod.split)
qed

section \<open>Properties\<close>

lemma existingSnapErrors_no_handle: "vc_SnapshotHandle vc = None \<Longrightarrow> existingSnapErrors n e vc x v = None"
  by (auto simp: existingSnapErrors_def Let_def split: option.split)

text \<open>C39: When a snapshot of a member's name exists and the \<open>Get\<close> of the content it names fails, for
  any reason, the controller goes on with the empty content and panics on its nil snapshot handle,
  whatever the status of the snapshot.\<close>

lemma lost_content_panics:
  assumes "cl_GetSnap (r_Client r) (NN (vg_Namespace v) n) (cluster w) = (Inr x, st)"
    and "vs_Name x \<noteq> []" and "vs_SourceContentName x = Some c"
    and "cl_GetContent (r_Client r) (NN [] c) st = (Inl e, st')"
  shows "fst (run_state (createVolumeSnapshot r n cn v s sc) w) = Panic"
  using assms
  by (simp add: createVolumeSnapshot_def checkExistingVolSnapshot_def getSnap_def getContent_def
      run_call run_andThen Let_def empty_content_def existingSnapErrors_no_handle)

definition example_snap :: volsnap where
  "example_snap = (makeVolSnap ''ns'' ''vg'' ''vg-a'' ''class'' ''content'')
     \<lparr>vs_Status := Some \<lparr>ss_BoundContentName = Some ''content'', ss_ReadyToUse = Some True\<rparr>\<rparr>"

definition example_csisnap :: csisnap where
  "example_csisnap = \<lparr>snap_Name = [], snap_CapacityBytes = 8, snap_SnapId = ''snap1/array/scsi'',
     snap_SourceId = ''v1/array/scsi'', snap_ReadyToUse = True, snap_CreationTime = 5\<rparr>"

definition example_class :: vsclass where
  "example_class = \<lparr>sc_Name = ''class'', sc_Driver = driverTypePowerstore,
     sc_DeletionPolicy = VolumeSnapshotContentDelete\<rparr>"

lemma lost_content_panics_witness:
  "fst (run_state (createVolumeSnapshot
      (example_reconciler ((failing_client (Error ''NotFound'' ''gone''))
         \<lparr>cl_GetSnap := (\<lambda>k s. (Inr example_snap, s))\<rparr>))
      ''vg-a'' ''snapcontent-1'' (empty_vg\<lparr>vg_Namespace := ''ns''\<rparr>) example_csisnap example_class)
      (start () [])) = Panic"
  by (rule lost_content_panics [where x = example_snap and c = "''content''"])
    (simp_all add: example_reconciler_def failing_client_def example_snap_def makeVolSnap_def)

text \<open>An existing content is reused for a snapshot exactly when its driver is the group's, its
  class is the snapshot's and it refers to the snapshot by name and namespace; then the update flag
  says whether it carries another snapshot id than the driver returned.\<close>

lemma content_reused_iff:
  assumes "vc_SnapshotHandle vc = Some h" and "vs_ClassName x = Some xc" and "vc_ClassName vc = Some cc"
  shows "fst (run_state (validateExistingVolSnapcontent vc x v snapID) w) = Ret (update, None)
     \<longleftrightarrow> vc_Driver vc = spec_DriverName (vg_Spec v) \<and> cc = xc
       \<and> or_Name (vc_SnapshotRef vc) = vs_Name x \<and> or_Namespace (vc_SnapshotRef vc) = vs_Namespace x
       \<and> update = (h \<noteq> snapID)"
  using assms by (auto simp: validateExistingVolSnapcontent_def Let_def)

definition example_content :: content where
  "example_content = \<lparr>vc_Name = ''content'',
     vc_SnapshotRef = empty_ref\<lparr>or_Name := ''vg-a'', or_Namespace := ''ns''\<rparr>,
     vc_SnapshotHandle = Some ''old'', vc_ClassName = Some ''class'',
     vc_DeletionPolicy = VolumeSnapshotContentDelete, vc_Driver = driverTypePowerstore,
     vc_Status = None\<rparr>"

lemma content_reused_iff_witness:
  "fst (run_state (validateExistingVolSnapcontent example_content example_snap
      (empty_vg\<lparr>vg_Spec := empty_spec\<lparr>spec_DriverName := driverTypePowerstore\<rparr>\<rparr>)
      ''snap1/array/scsi'') (start () [])) = Ret (True, None)"
  by (subst content_reused_iff [where h = "''old''" and xc = "''class''" and cc = "''class''"])
    (simp_all add: example_content_def example_snap_def makeVolSnap_def empty_ref_def
      empty_vg_def empty_spec_def)

text \<open>Refreshing a content's status writes at most once, only when the update flag is set, and
  then writes the snapshot id, creation time, readiness and size the driver returned.\<close>

lemma content_refresh_writes:
  "shaped r (\<lambda>ts. filter is_write ts = []
       \<or> u \<and> (\<exists>vc. filter is_write ts = [StatusUpdateContent (refreshedContent s vc)]))
     (updateVolumeSnapshotContentStatus r cn u s vgName)"
  by (rule shapedI)
    (auto simp: updateVolumeSnapshotContentStatus_def Let_def getContent_def statusUpdateContent_def
      run_call split: sum.splits if_splits)

text \<open>A reference built for a snapshot names that snapshot (name, namespace, UID, resource
  version) and carries the kind and version of a non-empty group-version-kind: the snapshot's own,
  or the scheme's first one for its type when the snapshot has none.\<close>

lemma snapshot_reference:
  assumes "GetReference r (snap_obj x) = Inr ref"
  shows "or_Name ref = vs_Name x \<and> or_Namespace ref = vs_Namespace x \<and> or_UID ref = vs_UID x
     \<and> or_ResourceVersion ref = vs_ResourceVersion x
     \<and> (\<exists>k. \<not> r_GvkEmpty r k \<and> or_Kind ref = gvkKind k \<and> or_APIVersion ref = r_GvString r k
          \<and> (k = vs_GVK x \<or> (\<exists>ks. r_ObjectKinds r (snap_obj x) = Inr (k # ks))))"
proof -
  from assms obtain k where k: "referenceKind r (snap_obj x) (vs_GVK x) = Inr k"
    and ref: "ref = \<lparr>or_Kind = gvkKind k, or_APIVersion = r_GvString r k, or_Name = vs_Name x,
      or_Namespace = vs_Namespace x, or_UID = vs_UID x, or_ResourceVersion = vs_ResourceVersion x\<rparr>"
    by (auto simp: GetReference_def snap_obj_def split: sum.splits)
  from k have "\<not> r_GvkEmpty r k \<and> (k = vs_GVK x \<or> (\<exists>ks. r_ObjectKinds r (snap_obj x) = Inr (k # ks)))"
    by (auto simp: referenceKind_def split: if_splits sum.splits list.splits)
  with ref show ?thesis by auto
qed

lemma snapshot_reference_witness:
  "\<exists>ref. GetReference (example_reconciler (failing_client (errorf ''down''))) (snap_obj example_snap)
       = Inr ref \<and> or_Name ref = ''vg-a'' \<and> or_Namespace ref = ''ns''"
proof -
  let ?r = "example_reconciler (failing_client (errorf ''down''))"
  let ?ref = "\<lparr>or_Kind = ''VolumeSnapshot'', or_APIVersion = ''snapshot.storage.k8s.io/v1'',
    or_Name = ''vg-a'', or_Namespace = ''ns'', or_UID = [], or_ResourceVersion = []\<rparr>"
  have "GetReference ?r (snap_obj example_snap) = Inr ?ref"
    by (simp add: GetReference_def referenceKind_def snap_obj_def example_snap_def makeVolSnap_def
        example_reconciler_def)
  from this snapshot_reference [OF this] show ?thesis
    by (auto simp: example_snap_def makeVolSnap_def)
qed

end
