(* ===== verification/Response.thy ===== *)
theory Response
  imports SnapshotObjects
begin

text \<open>
  What happens once the driver has answered: one \<open>VolumeSnapshot\<close> and content for every
  snapshot of the response, the wait until they are ready, and the group's status. Source:
  \<^verbatim>\<open>controllers/dellcsivolumegroupsnapshot_controller.go\<close>. The summary \<open>processResponse\<close>
  logs of its \<open>failedMap\<close> is not modelled; the map itself is.
\<close>

section \<open>Waiting for the snapshots\<close>

primrec readyLoop ::
  "'s reconciler \<Rightarrow> string \<Rightarrow> string list \<Rightarrow> ('s world, (bool \<times> error option) outcome) state" where
  "readyLoop r ns [] = ret (True, None)"
| "readyLoop r ns (snapName # snaps) = do {
     res \<leftarrow> getSnap r (NN ns snapName);
     let snap = (case res of Inl _ \<Rightarrow> empty_snap | Inr x \<Rightarrow> x);
     (case (vs_Name snap \<noteq> [], vs_Status snap) of
        (True, Some st) \<Rightarrow>
          (case ss_ReadyToUse st of
             None \<Rightarrow> panic
           | Some status \<Rightarrow> if \<not> status then ret (False, None) else readyLoop r ns snaps)
      | _ \<Rightarrow> readyLoop r ns snaps)
   }"

definition checkReadyToUse ::
  "'s reconciler \<Rightarrow> string \<Rightarrow> string \<Rightarrow> ('s world, (bool \<times> error option) outcome) state" where
  "checkReadyToUse r ns snapshots = readyLoop r ns (split_on (CHR '','') snapshots)"

text \<open>The \<open>for { select ... }\<close>: each round takes what the timer or the ticker delivers next.\<close>

primrec pollLoop ::
  "'s reconciler \<Rightarrow> string \<Rightarrow> string \<Rightarrow> tick list
     \<Rightarrow> ('s world, (bool \<times> error option) outcome) state" where
  "pollLoop r ns snaps [] = State_Monad.return Hang"
| "pollLoop r ns snaps (t # ts) = do {
     setSched ts;
     (case t of
        Timeout \<Rightarrow> ret (False, Some (errorf ''timed out''))
      | Tick \<Rightarrow>
          andThen (checkReadyToUse r ns snaps) (\<lambda>(ok, err).
            case err of
              Some e \<Rightarrow> ret (False, Some e)
            | None \<Rightarrow> if ok then ret (True, None) else pollLoop r ns snaps ts))
   }"

text \<open>\<open>time.After(timeouts * 1000000000)\<close> in \<open>int64\<close> nanoseconds, with the default of 90.\<close>

definition timeout_ns :: "int64 \<Rightarrow> int64" where
  "timeout_ns timeouts = (if timeouts = 0 then 90 else timeouts) * 1000000000"

definition checkSnapshotStatus ::
  "'s reconciler \<Rightarrow> string \<Rightarrow> string \<Rightarrow> int64
     \<Rightarrow> ('s world, (bool \<times> error option) outcome) state" where
  "checkSnapshotStatus r ns snaps timeouts = do {
     emit (StartTimer (timeout_ns timeouts));
     ts \<leftarrow> getSched;
     pollLoop r ns snaps ts
   }"

section \<open>The members of a response\<close>

definition memberName :: "vg \<Rightarrow> volmap \<Rightarrow> csisnap \<Rightarrow> string" where
  "memberName v volIDPvcNameMap s =
     (let pvcName = map_get (map_of volIDPvcNameMap) (snap_SourceId s)
      in if snap_Name s \<noteq> [] then snap_Name s @ ''-'' @ pvcName
         else vg_Name v @ ''-'' @ pvcName)"

text \<open>The loop of \<open>processResponse\<close>: names and errors so far, snapshots to go.\<close>

primrec processSnapshots ::
  "'s reconciler \<Rightarrow> volmap \<Rightarrow> vg \<Rightarrow> vsclass \<Rightarrow> string \<Rightarrow> error list \<Rightarrow> csisnap list
     \<Rightarrow> ('s world, (string \<times> error list) outcome) state" where
  "processSnapshots r vm v sc snaps snapErrors [] = ret (snaps, snapErrors)"
| "processSnapshots r vm v sc snaps snapErrors (s # ss) = do {
     let volumeSnapshotName = memberName v vm s;
     uid \<leftarrow> newUUID r;
     let contentName = ''snapcontent-'' @ uid;
     andThen (createVolumeSnapshot r volumeSnapshotName contentName v s sc)
       (\<lambda>(update, contentName', createErr). do {
          (case createErr of
             Some e \<Rightarrow> eventf (OnVG (vg_key v)) EventTypeWarning
                        (''create snapshor error  '' @ errText e)
           | None \<Rightarrow> State_Monad.return ());
          updateErr \<leftarrow> updateVolumeSnapshotContentStatus r contentName' update s (vg_Name v);
          (case updateErr of
             Some e \<Rightarrow> eventf (OnVG (vg_key v)) EventTypeWarning
                        (''snapshot content status failed '' @ errText e)
           | None \<Rightarrow> State_Monad.return ());
          processSnapshots r vm v sc (snaps @ volumeSnapshotName @ '','')
            (snapErrors
             @ (case createErr of Some e \<Rightarrow> [e] | None \<Rightarrow> [])
             @ (case updateErr of Some e \<Rightarrow> [e] | None \<Rightarrow> [])) ss
        })
   }"

text \<open>The status \<open>processResponse\<close> writes.\<close>

definition responseStatus :: "vgsresponse \<Rightarrow> string \<Rightarrow> bool \<Rightarrow> vgstatus" where
  "responseStatus res snaps ok =
     \<lparr>status_SnapshotGroupID = res_SnapshotGroupID res,
      status_SnapshotGroupName = [],
      status_Snapshots = trim_right (CHR '','') snaps,
      status_CreationTime = UnixNano (res_CreationTime res),
      status_ReadyToUse = ok,
      status_ContentReadyToUse = False,
      status_Status = (if ok then EventStatusComplete else EventStatusError)\<rparr>"

definition responseError :: "error list \<Rightarrow> error" where
  "responseError snapErrors = errorf (''VG Snapshotter Process Response failed ''
     @ '' '' @ concat (map (\<lambda>e. errText e @ '' '') snapErrors))"

definition processResponse ::
  "'s reconciler \<Rightarrow> vgsresponse \<Rightarrow> volmap \<Rightarrow> vg \<Rightarrow> vsclass \<Rightarrow> string
     \<Rightarrow> ('s world, (vg \<times> error option) outcome) state" where
  "processResponse r res vm v sc groupName = do {
     resetFailed;
     emit StartSnapWatch;
     andThen (processSnapshots r vm v sc [] [] (res_Snapshots res))
       (\<lambda>(snaps, snapErrors).
          andThen (checkSnapshotStatus r (vg_Namespace v) snaps (spec_Timeout (vg_Spec v)))
            (\<lambda>(ok, err). do {
               (if ok then eventf (OnVG (vg_key v)) EventTypeNormal ''all snapshots ok''
                else State_Monad.return ());
               (case err of
                  Some e \<Rightarrow> eventf (OnVG (vg_key v)) EventTypeWarning
                             (''snapshots state not Ready '' @ errText e)
                | None \<Rightarrow> State_Monad.return ());
               (v', updErr) \<leftarrow> statusUpdateVG r (v\<lparr>vg_Status := responseStatus res snaps ok\<rparr>);
               (case updErr of
                  Some e \<Rightarrow> eventf (OnVG (vg_key v')) EventTypeWarning
                             (''Failed vg create: '' @ groupName @ '' error: '' @ errText e)
                | None \<Rightarrow> State_Monad.return ());
               (let errs = snapErrors @ (case updErr of Some e \<Rightarrow> [e] | None \<Rightarrow> [])
                in ret (v', if length errs > 0 then Some (responseError errs) else None))
             }))
   }"

section \<open>Effects\<close>

lemma emits_readyLoop [emits_intros]:
  assumes "\<And>n. A (GetSnap (NN ns n))"
  shows "emits r A (readyLoop r ns names)"
  by (induction names)
    (auto simp: Let_def assms intro!: emits_intros split: option.split prod.split bool.split)

lemma emits_checkReadyToUse [emits_intros]:
  "(\<And>n. A (GetSnap (NN ns n))) \<Longrightarrow> emits r A (checkReadyToUse r ns snaps)"
  by (simp add: checkReadyToUse_def emits_readyLoop)

lemma emits_pollLoop [emits_intros]:
  assumes "\<And>n. A (GetSnap (NN ns n))"
  shows "emits r A (pollLoop r ns snaps ts)"
  by (induction ts)
    (auto simp: assms intro!: emits_intros split: tick.split option.split)

lemma emits_checkSnapshotStatus [emits_intros]:
  "(\<And>n. A (GetSnap (NN ns n))) \<Longrightarrow> (\<And>d. A (StartTimer d)) \<Longrightarrow>
     emits r A (checkSnapshotStatus r ns snaps timeouts)"
  unfolding checkSnapshotStatus_def by (intro emits_intros)

lemma emits_processSnapshots [emits_intros]:
  "emits r member_effect (processSnapshots r vm v sc snaps errs ss)"
  by (induction ss arbitrary: snaps errs)
    (auto simp: Let_def intro!: emits_intros split: option.split prod.split)

text \<open>
  Everything \<open>processResponse\<close> does: work on members, the timer and the informer it starts, and
  status writes of the group that say \<open>Complete\<close> or \<open>Error\<close>.
\<close>

fun response_effect :: "effect \<Rightarrow> bool" where
  "response_effect (StatusUpdateVG v) =
     (status_Status (vg_Status v) \<in> {EventStatusComplete, EventStatusError})"
| "response_effect (StartTimer _) = True"
| "response_effect StartSnapWatch = True"
| "response_effect e = member_effect e"

lemma member_effect_response: "member_effect e \<Longrightarrow> response_effect e"
  by (cases e) auto

lemma status_responseStatus [simp]:
  "status_Status (responseStatus res snaps ok) =
     (if ok then EventStatusComplete else EventStatusError)"
  "status_SnapshotGroupID (responseStatus res snaps ok) = res_SnapshotGroupID res"
  "status_Snapshots (responseStatus res snaps ok) = trim_right (CHR '','') snaps"
  "status_ReadyToUse (responseStatus res snaps ok) = ok"
  by (simp_all add: responseStatus_def)

lemma emits_processResponse [emits_intros]:
  "emits r response_effect (processResponse r res vm v sc groupName)"
  unfolding processResponse_def Let_def
  by (auto intro!: emits_intros emits_processSnapshots [THEN emits_mono, OF member_effect_response]
      split: option.split prod.split)

lemma paired_processSnapshots:
  assumes "\<And>s c. s \<in> set ss \<Longrightarrow> content_for s sc c \<Longrightarrow> P c"
  shows "shaped r (paired P) (processSnapshots r vm v sc snaps errs ss)"
  using assms
proof (induction ss arbitrary: snaps errs)
  case Nil
  then show ?case by (simp add: pairing.return_outcome)
next
  case (Cons s ss)
  have create: "shaped r (paired P) (createVolumeSnapshot r n cn v s sc)" for n cn
    by (rule paired_createVolumeSnapshot) (auto intro: Cons.prems)
  have quiet: "shaped r (paired P) (newUUID r)" "shaped r (paired P) (eventf obj ty msg)" for obj ty msg
    by (rule check_paired, simp add: emits_intros)+
  show ?case
    using Cons.IH Cons.prems
    by (auto simp: Let_def intro!: pairing.composition create quiet
        check_paired [OF emits_updateVolumeSnapshotContentStatus] split: option.split)
qed

lemma paired_processResponse:
  assumes "\<And>s c. s \<in> set (res_Snapshots res) \<Longrightarrow> content_for s sc c \<Longrightarrow> P c"
  shows "shaped r (paired P) (processResponse r res vm v sc groupName)"
proof -
  have quiet: "shaped r (paired P) resetFailed" "shaped r (paired P) (emit StartSnapWatch)"
    "shaped r (paired P) (eventf obj ty msg)" for obj ty msg
    by (simp_all add: check_paired emits_intros emit_def shaped_call)
  have wait: "shaped r (paired P) (checkSnapshotStatus r ns snaps t)" for ns snaps t
    by (rule emits_paired [where A = "\<lambda>e. \<not> is_write e"]) (auto intro!: emits_intros)
  have upd: "shaped r (paired P) (statusUpdateVG r v')" for v'
    by (rule emits_paired [where A = "\<lambda>e. e = StatusUpdateVG v'"]) (auto intro!: emits_intros)
  show ?thesis
    unfolding processResponse_def Let_def
    by (auto intro!: pairing.composition quiet wait upd paired_processSnapshots assms
        split: option.split prod.split)
qed

section \<open>Results\<close>

subsection \<open>The member list\<close>

lemma run_processSnapshots:
  assumes "run_state (processSnapshots r vm v sc snaps errs ss) w = (Ret (snaps', errs'), w')"
  shows "snaps' = snaps @ concat (map (\<lambda>s. memberName v vm s @ '','') ss)
     \<and> (\<exists>es. errs' = errs @ es \<and> length es \<le> 2 * length ss)"
  using assms
proof (induction ss arbitrary: snaps errs w)
  case Nil
  then show ?case by simp
next
  case (Cons s ss)
  let ?n = "memberName v vm s"
  from Cons.prems obtain w1 u1 u2 where
    "run_state (processSnapshots r vm v sc (snaps @ ?n @ '','')
       (errs @ (case u1 of Some e \<Rightarrow> [e] | None \<Rightarrow> []) @ (case u2 of Some e \<Rightarrow> [e] | None \<Rightarrow> [])) ss) w1
       = (Ret (snaps', errs'), w')"
    by (fastforce simp: Let_def run_andThen split: prod.splits outcome.splits)
  from Cons.IH [OF this] obtain es where
    "snaps' = (snaps @ ?n @ '','') @ concat (map (\<lambda>s. memberName v vm s @ '','') ss)"
    "errs' = (errs @ (case u1 of Some e \<Rightarrow> [e] | None \<Rightarrow> []) @ (case u2 of Some e \<Rightarrow> [e] | None \<Rightarrow> [])) @ es"
    "length es \<le> 2 * length ss"
    by blast
  then show ?case
    by (intro conjI exI [of _ "(case u1 of Some e \<Rightarrow> [e] | None \<Rightarrow> [])
        @ (case u2 of Some e \<Rightarrow> [e] | None \<Rightarrow> []) @ es"]) (auto split: option.splits)
qed

lemma memberName_nonempty [simp]: "memberName v vm s \<noteq> []"
  by (simp add: memberName_def Let_def)

text \<open>What the accumulated and trimmed list of names reads back as.\<close>

lemma member_list_reads_back:
  assumes "ss \<noteq> []" and "\<And>s. s \<in> set ss \<Longrightarrow> CHR '','' \<notin> set (memberName v vm s)"
  shows "split_on (CHR '','') (trim_right (CHR '','') (concat (map (\<lambda>s. memberName v vm s @ '','') ss)))
     = map (memberName v vm) ss"
proof -
  let ?names = "map (memberName v vm) ss"
  have "last ?names \<noteq> [] \<and> CHR '','' \<notin> set (last ?names)"
    using assms by (simp add: last_map)
  then have "trim_right (CHR '','') (concat (map (\<lambda>x. x @ '','') ?names)) = join_with (CHR '','') ?names"
    by (intro trim_concat_commas) simp
  moreover have "split_on (CHR '','') (join_with (CHR '','') ?names) = ?names"
    using assms by (intro split_join) auto
  ultimately show ?thesis by (simp add: o_def)
qed

subsection \<open>The wait\<close>

lemma readyLoop_no_hang: "fst (run_state (readyLoop r ns names) w) \<noteq> Hang"
  by (induction names arbitrary: w)
    (auto simp: Let_def split: prod.splits option.splits bool.splits)

lemma readyLoop_no_error:
  "run_state (readyLoop r ns names) w = (Ret (ok, err), w') \<Longrightarrow> err = None"
  by (induction names arbitrary: w)
    (auto simp: Let_def split: prod.splits option.splits bool.splits if_splits)

lemma checkReadyToUse_cases:
  obtains (ready) ok w' where "run_state (checkReadyToUse r ns snaps) w = (Ret (ok, None), w')"
  | (panic) w' where "run_state (checkReadyToUse r ns snaps) w = (Panic, w')"
proof (cases "run_state (checkReadyToUse r ns snaps) w")
  case (Pair x w')
  then have x: "run_state (readyLoop r ns (split_on (CHR '','') snaps)) w = (x, w')"
    by (simp add: checkReadyToUse_def)
  show ?thesis
  proof (cases x)
    case (Ret y)
    with x Pair show ?thesis
      by (cases y) (auto intro: ready dest: readyLoop_no_error)
  next
    case Hang
    with x readyLoop_no_hang [of r ns "split_on (CHR '','') snaps" w] show ?thesis by simp
  qed (use Pair panic in auto)
qed

lemma run_pollLoop_Cons:
  "run_state (pollLoop r ns snaps (Timeout # ts)) w =
     (Ret (False, Some (errorf ''timed out'')), w\<lparr>sched := ts\<rparr>)"
  "run_state (pollLoop r ns snaps (Tick # ts)) w =
     (case run_state (checkReadyToUse r ns snaps) (w\<lparr>sched := ts\<rparr>) of
        (Ret (ok, Some e), w') \<Rightarrow> (Ret (False, Some e), w')
      | (Ret (ok, None), w') \<Rightarrow>
          if ok then (Ret (True, None), w') else run_state (pollLoop r ns snaps ts) w'
      | (Panic, w') \<Rightarrow> (Panic, w')
      | (Hang, w') \<Rightarrow> (Hang, w'))"
  by (simp_all add: run_andThen split: prod.split outcome.split option.split)

lemma pollLoop_no_hang:
  "Timeout \<in> set ts \<Longrightarrow> fst (run_state (pollLoop r ns snaps ts) w) \<noteq> Hang"
proof (induction ts arbitrary: w)
  case (Cons t ts)
  show ?case
  proof (cases t)
    case Tick
    with Cons show ?thesis
      by (cases rule: checkReadyToUse_cases [of r ns snaps "w\<lparr>sched := ts\<rparr>"])
        (simp_all add: run_pollLoop_Cons del: pollLoop.simps)
  qed (simp add: run_pollLoop_Cons del: pollLoop.simps)
qed simp

lemma pollLoop_result:
  assumes "run_state (pollLoop r ns snaps ts) w = (Ret (ok, err), w')"
  shows "(ok \<and> err = None \<and> Tick \<in> set ts)
     \<or> (\<not> ok \<and> err = Some (errorf ''timed out'') \<and> Timeout \<in> set ts)"
  using assms
proof (induction ts arbitrary: w)
  case (Cons t ts)
  show ?case
  proof (cases t)
    case Tick
    with Cons.prems Cons.IH show ?thesis
      by (cases rule: checkReadyToUse_cases [of r ns snaps "w\<lparr>sched := ts\<rparr>"])
        (auto simp: run_pollLoop_Cons simp del: pollLoop.simps split: if_splits)
  qed (use Cons.prems in \<open>auto simp: run_pollLoop_Cons simp del: pollLoop.simps\<close>)
qed simp

subsection \<open>The readiness check over a table of snapshots\<close>

definition reads_snaps :: "'s reconciler \<Rightarrow> 's \<Rightarrow> (nname \<Rightarrow> error + volsnap) \<Rightarrow> bool" where
  "reads_snaps r s tab \<longleftrightarrow> (\<forall>k. cl_GetSnap (r_Client r) k s = (tab k, s))"

text \<open>The readiness a snapshot reports: \<open>None\<close> when it is missing or has no status yet, else the
  pointer of its status.\<close>

definition reported :: "(nname \<Rightarrow> error + volsnap) \<Rightarrow> nname \<Rightarrow> bool option option" where
  "reported tab k =
     (case tab k of
        Inl _ \<Rightarrow> None
      | Inr x \<Rightarrow> if vs_Name x = [] then None else map_option ss_ReadyToUse (vs_Status x))"

lemma run_readyLoop:
  assumes "reads_snaps r (cluster w) tab" and "\<forall>n \<in> set names. reported tab (NN ns n) \<noteq> Some None"
  shows "fst (run_state (readyLoop r ns names) w) =
     Ret (\<forall>n \<in> set names. reported tab (NN ns n) \<noteq> Some (Some False), None)"
  using assms
proof (induction names arbitrary: w)
  case Nil
  then show ?case by simp
next
  case (Cons n names)
  let ?w = "w\<lparr>trace := trace w @ [GetSnap (NN ns n)]\<rparr>"
  have g: "run_state (getSnap r (NN ns n)) w = (tab (NN ns n), ?w)"
    using Cons.prems(1) by (simp add: getSnap_def run_call reads_snaps_def)
  have IH: "fst (run_state (readyLoop r ns names) ?w) =
      Ret (\<forall>n \<in> set names. reported tab (NN ns n) \<noteq> Some (Some False), None)"
    using Cons.IH [of ?w] Cons.prems by simp
  show ?case
  proof (cases "tab (NN ns n)")
    case (Inl e)
    with g IH show ?thesis by (simp add: Let_def reported_def empty_snap_def)
  next
    case (Inr x)
    with g IH Cons.prems(2) show ?thesis
      by (auto simp: Let_def reported_def split: option.splits bool.splits if_splits)
  qed
qed

lemma run_checkSnapshotStatus:
  "run_state (checkSnapshotStatus r ns snaps t) w =
     run_state (pollLoop r ns snaps (sched w)) (w\<lparr>trace := trace w @ [StartTimer (timeout_ns t)]\<rparr>)"
  by (simp add: checkSnapshotStatus_def emit_def run_call)

subsection \<open>The steps of a response processed without error\<close>

lemma processResponse_steps:
  assumes "run_state (processResponse r res vm v sc g) w = (Ret (v', None), w')"
  obtains names w1 ok err w2 w3 where
    "run_state (processSnapshots r vm v sc [] [] (res_Snapshots res))
      (w\<lparr>failedMap := Map.empty, trace := trace w @ [StartSnapWatch]\<rparr>) = (Ret (names, []), w1)"
    and "run_state (checkSnapshotStatus r (vg_Namespace v) names (spec_Timeout (vg_Spec v))) w1
      = (Ret (ok, err), w2)"
    and "cluster w3 = cluster w2"
    and "run_state (statusUpdateVG r (v\<lparr>vg_Status := responseStatus res names ok\<rparr>)) w3 = ((v', None), w')"
proof -
  let ?w = "w\<lparr>failedMap := Map.empty, trace := trace w @ [StartSnapWatch]\<rparr>"
  obtain x w1 where 1: "run_state (processSnapshots r vm v sc [] [] (res_Snapshots res)) ?w = (x, w1)"
    by force
  with assms obtain names errs where x: "x = Ret (names, errs)"
    by (cases x) (auto simp: processResponse_def run_andThen emit_def run_call)
  obtain y w2 where 2: "run_state (checkSnapshotStatus r (vg_Namespace v) names (spec_Timeout (vg_Spec v))) w1
      = (y, w2)" by force
  with assms 1 x obtain ok err where y: "y = Ret (ok, err)"
    by (cases y) (auto simp: processResponse_def run_andThen emit_def run_call)
  define w3 where "w3 = w2\<lparr>trace := trace w2
     @ (if ok then [Event (OnVG (vg_key v)) EventTypeNormal EventReasonUpdated ''all snapshots ok''] else [])
     @ (case err of Some e \<Rightarrow> [Event (OnVG (vg_key v)) EventTypeWarning EventReasonUpdated
                              (''snapshots state not Ready '' @ errText e)] | None \<Rightarrow> [])\<rparr>"
  obtain u updErr w4 where 3: "run_state (statusUpdateVG r (v\<lparr>vg_Status := responseStatus res names ok\<rparr>)) w3
      = ((u, updErr), w4)" by (metis prod.collapse)
  with assms 1 2 x y have "errs = [] \<and> u = v' \<and> updErr = None \<and> w4 = w'"
    by (cases ok; cases err; cases updErr)
      (auto simp: processResponse_def run_andThen emit_def run_call w3_def Let_def split: if_splits)
  with 1 2 3 x y show thesis by (intro that [of names w1 ok err w2 w3]) (simp_all add: w3_def)
qed

section \<open>Properties\<close>

text \<open>One round of the wait reports "ready" exactly when no listed snapshot reports itself not
  ready; snapshots that are missing or have no status yet are passed over. (A status without the
  readiness pointer would be a nil dereference and is excluded.)\<close>

lemma ready_check_decides:
  assumes "reads_snaps r (cluster w) tab"
    and "\<forall>n \<in> set (split_on (CHR '','') snaps). reported tab (NN ns n) \<noteq> Some None"
  shows "fst (run_state (checkReadyToUse r ns snaps) w) =
     Ret (\<forall>n \<in> set (split_on (CHR '','') snaps). reported tab (NN ns n) \<noteq> Some (Some False), None)"
  unfolding checkReadyToUse_def by (rule run_readyLoop [OF assms])

definition snaps_reconciler :: "(nname \<Rightarrow> error + volsnap) \<Rightarrow> unit reconciler" where
  "snaps_reconciler tab = example_reconciler
     ((failing_client (errorf ''down''))\<lparr>cl_GetSnap := (\<lambda>k s. (tab k, s)),
        cl_StatusUpdateVG := (\<lambda>v s. (Inr v, s))\<rparr>)"

lemma snaps_reconciler_reads: "reads_snaps (snaps_reconciler tab) s tab"
  by (simp add: reads_snaps_def snaps_reconciler_def example_reconciler_def)

lemma ready_check_decides_witness:
  "fst (run_state (checkReadyToUse (snaps_reconciler (\<lambda>k.
       if nnName k = ''b'' then Inr (example_snap\<lparr>vs_Status := Some \<lparr>ss_BoundContentName = None,
         ss_ReadyToUse = Some False\<rparr>\<rparr>) else Inr example_snap)) ''ns'' ''a,b,'') (start () []))
     = Ret (False, None)"
  by (subst ready_check_decides [OF snaps_reconciler_reads])
    (simp_all add: reported_def example_snap_def makeVolSnap_def)

text \<open>The wait succeeds on its first tick when none of the listed snapshots exists at all, so
  that \<open>processResponse\<close> marks the group \<open>Complete\<close> and ready to use with no member present.\<close>

lemma missing_snapshots_count_as_ready:
  assumes "reads_snaps r (cluster w) tab"
    and "\<forall>n \<in> set (split_on (CHR '','') snaps). \<exists>e. tab (NN ns n) = Inl e"
    and "sched w = Tick # ts"
  shows "fst (run_state (checkSnapshotStatus r ns snaps t) w) = Ret (True, None)"
proof -
  let ?w = "w\<lparr>trace := trace w @ [StartTimer (timeout_ns t)], sched := ts\<rparr>"
  have "fst (run_state (checkReadyToUse r ns snaps) ?w) = Ret (True, None)"
    unfolding checkReadyToUse_def
    using run_readyLoop [of r ?w tab "split_on (CHR '','') snaps" ns] assms(1,2)
    by (force simp: reported_def)
  then show ?thesis
    using assms(3)
    by (cases "run_state (checkReadyToUse r ns snaps) ?w")
      (simp add: run_checkSnapshotStatus run_pollLoop_Cons del: pollLoop.simps)
qed

lemma missing_snapshots_count_as_ready_witness:
  "fst (run_state (checkSnapshotStatus (snaps_reconciler (\<lambda>k. Inl (errorf ''gone''))) ''ns'' ''a,b,'' 0)
     (start () [Tick, Timeout])) = Ret (True, None)"
  by (rule missing_snapshots_count_as_ready [OF snaps_reconciler_reads, where ts = "[Timeout]"]) simp_all

text \<open>When the timer is going to fire, the wait comes back, however the ticks are interleaved and
  whatever the cluster answers: with success, with "timed out", or with the nil dereference of a
  status that lacks its readiness.\<close>

lemma wait_terminates:
  assumes "Timeout \<in> set (sched w)"
  shows "fst (run_state (checkSnapshotStatus r ns snaps t) w)
     \<in> {Ret (True, None), Ret (False, Some (errorf ''timed out'')), Panic}"
proof -
  let ?w = "w\<lparr>trace := trace w @ [StartTimer (timeout_ns t)]\<rparr>"
  obtain x w' where run: "run_state (pollLoop r ns snaps (sched w)) ?w = (x, w')" by force
  moreover have "x \<noteq> Hang"
    using pollLoop_no_hang [OF assms, of r ns snaps ?w] run by simp
  ultimately show ?thesis
    using pollLoop_result [of r ns snaps "sched w" ?w]
    by (cases x) (force simp: run_checkSnapshotStatus)+
qed

lemma wait_terminates_witness:
  "fst (run_state (checkSnapshotStatus (snaps_reconciler (\<lambda>k. Inr example_snap)) ''ns'' ''a'' 5)
     (start () [Tick, Tick, Timeout])) \<in> {Ret (True, None), Ret (False, Some (errorf ''timed out'')), Panic}"
  by (rule wait_terminates) simp

text \<open>C33: The wait lasts the number of seconds of the specification, 90 when it is zero, as long as
  their number of nanoseconds fits into 64 bits; at 9223372037 seconds the product has wrapped
  around to a negative duration, for which the timer fires at once.\<close>

lemma timeout_seconds:
  assumes "0 \<le> sint t" and "sint t \<le> 9223372036"
  shows "sint (timeout_ns t) = (if t = 0 then 90 else sint t) * 1000000000
     \<and> sint (timeout_ns 9223372037) < 0"
proof -
  have "sint (timeout_ns u) = sint u * 1000000000" if "u \<noteq> 0" "0 \<le> sint u" "sint u \<le> 9223372036" for u
  proof -
    have "sint (u * 1000000000) = signed_take_bit 63 (sint u * sint (1000000000 :: int64))"
      by (simp add: sint_word_ariths(3))
    also have "sint (1000000000 :: int64) = 1000000000" by simp
    also have "signed_take_bit 63 (sint u * 1000000000) = sint u * 1000000000"
      using that(2,3) by (intro signed_take_bit_int_eq_self) simp_all
    finally show ?thesis using that(1) by (simp add: timeout_ns_def)
  qed
  moreover have "sint (timeout_ns 0) = 90 * 1000000000" by (simp add: timeout_ns_def)
  moreover have "sint (timeout_ns 9223372037) < 0" by (simp add: timeout_ns_def)
  ultimately show ?thesis using assms by auto
qed

lemma timeout_seconds_witness:
  "sint (timeout_ns 30) = 30000000000 \<and> sint (timeout_ns 9223372037) < 0"
  using timeout_seconds [of 30] by simp

subsection \<open>The status written\<close>

text \<open>A group whose status reports the driver's response: its group id, its members in order, and
  \<open>Complete\<close> and ready together, or \<open>Error\<close> and not ready.\<close>

definition reports_response :: "vgsresponse \<Rightarrow> volmap \<Rightarrow> vg \<Rightarrow> vg \<Rightarrow> bool" where
  "reports_response res vm v u \<longleftrightarrow>
     status_SnapshotGroupID (vg_Status u) = res_SnapshotGroupID res
     \<and> split_on (CHR '','') (status_Snapshots (vg_Status u)) = map (memberName v vm) (res_Snapshots res)
     \<and> status_Status (vg_Status u) =
         (if status_ReadyToUse (vg_Status u) then EventStatusComplete else EventStatusError)"

text \<open>C17: Every group status \<open>processResponse\<close> writes reports the driver's response: its group id,
  the names of its members in the order of the response (read back as \<open>deleteVg\<close> and the informer
  callback read them), and \<open>Complete\<close> with the ready flag or \<open>Error\<close> without it. Member names are
  Kubernetes object names and so have no comma.\<close>

lemma status_reports_response:
  assumes "res_Snapshots res \<noteq> []"
    and "\<forall>s \<in> set (res_Snapshots res). CHR '','' \<notin> set (memberName v vm s)"
  shows "emits r (\<lambda>e. case e of StatusUpdateVG u \<Rightarrow> reports_response res vm v u | _ \<Rightarrow> True)
     (processResponse r res vm v sc groupName)"
proof -
  let ?A = "\<lambda>e. case e of StatusUpdateVG u \<Rightarrow> reports_response res vm v u | _ \<Rightarrow> True"
  have members: "emits r ?A (processSnapshots r vm v sc [] [] (res_Snapshots res))"
    by (rule emits_mono [OF emits_processSnapshots]) (auto split: effect.split)
  have rep: "reports_response res vm v (v\<lparr>vg_Status := responseStatus res names ok\<rparr>)"
    if "run_state (processSnapshots r vm v sc [] [] (res_Snapshots res)) w = (Ret (names, errs), w')"
    for names errs ok w w'
    using run_processSnapshots [OF that] member_list_reads_back [OF assms(1), of v vm] assms(2)
    by (simp add: reports_response_def)
  have rest: "emits r ?A (andThen (processSnapshots r vm v sc [] [] (res_Snapshots res)) f)"
    if "\<And>names errs w w'. run_state (processSnapshots r vm v sc [] [] (res_Snapshots res)) w
          = (Ret (names, errs), w') \<Longrightarrow> emits r ?A (f (names, errs))" for f
    using members that unfolding emits_def by (intro all.and_then_result) auto
  show ?thesis
    unfolding processResponse_def Let_def
    by (intro emits_bind rest)
      (auto simp: rep intro!: emits_intros split: option.split prod.split)
qed

lemma status_reports_response_witness:
  "emits (snaps_reconciler (\<lambda>k. Inl (errorf ''gone'')))
     (\<lambda>e. case e of StatusUpdateVG u \<Rightarrow>
        reports_response \<lparr>res_SnapshotGroupID = ''array-7'', res_Snapshots = [example_csisnap],
          res_CreationTime = 5\<rparr> [(''v1/array/scsi'', ''a'')] (empty_vg\<lparr>vg_Name := ''vg''\<rparr>) u | _ \<Rightarrow> True)
     (processResponse (snaps_reconciler (\<lambda>k. Inl (errorf ''gone'')))
        \<lparr>res_SnapshotGroupID = ''array-7'', res_Snapshots = [example_csisnap], res_CreationTime = 5\<rparr>
        [(''v1/array/scsi'', ''a'')] (empty_vg\<lparr>vg_Name := ''vg''\<rparr>) example_class ''vg'')"
  by (rule status_reports_response) (simp_all add: memberName_def example_csisnap_def map_get_def)

text \<open>C36: A wait that times out is not an error of \<open>processResponse\<close>: when the members themselves
  were processed without error and the status write goes through, it reports success after
  having written the status \<open>Error\<close>, not ready.\<close>

lemma timeout_reported_as_success:
  assumes "run_state (processSnapshots r vm v sc [] [] (res_Snapshots res))
      (snd (run_state (emit StartSnapWatch) (w\<lparr>failedMap := Map.empty\<rparr>))) = (Ret (names, []), w1)"
    and "sched w1 = Timeout # ts"
    and "cl_StatusUpdateVG (r_Client r) (v\<lparr>vg_Status := responseStatus res names False\<rparr>) (cluster w1)
      = (Inr u, st)"
  shows "fst (run_state (processResponse r res vm v sc groupName) w) = Ret (u, None)
     \<and> StatusUpdateVG (v\<lparr>vg_Status := responseStatus res names False\<rparr>)
         \<in> set (trace (snd (run_state (processResponse r res vm v sc groupName) w)))
     \<and> status_Status (responseStatus res names False) = EventStatusError"
  using assms
  by (simp add: processResponse_def run_andThen run_checkSnapshotStatus run_pollLoop_Cons
      statusUpdateVG_def run_call emit_def Let_def del: pollLoop.simps)

lemma timeout_reported_as_success_witness:
  "fst (run_state (processResponse (snaps_reconciler (\<lambda>k. Inr example_snap))
        \<lparr>res_SnapshotGroupID = ''array-7'', res_Snapshots = [], res_CreationTime = 5\<rparr>
        [] empty_vg example_class ''vg'') (start () [Timeout]))
     = Ret (empty_vg\<lparr>vg_Status := responseStatus
         \<lparr>res_SnapshotGroupID = ''array-7'', res_Snapshots = [], res_CreationTime = 5\<rparr> [] False\<rparr>, None)"
  by (rule timeout_reported_as_success [where ts = "[]", THEN conjunct1])
    (simp add: emit_def run_call snaps_reconciler_def example_reconciler_def start_def)+

end
