(* ===== verification/Reconcile.thy ===== *)
theory Reconcile
  imports Response
begin

text \<open>
  The reconciliation of one \<open>DellCsiVolumeGroupSnapshot\<close>: creation of the group, its deletion
  with the policy of the snapshot class, and the status checks that decide between them.
  Source: \<^verbatim>\<open>controllers/dellcsivolumegroupsnapshot_controller.go\<close>, \<open>Reconcile\<close> and
  \<open>deleteVg\<close>. The result is the error handed back to the work queue; \<open>ctrl.Result\<close> is always
  empty.
\<close>

section \<open>Deletion\<close>

primrec deleteLoop :: "'s reconciler \<Rightarrow> vg \<Rightarrow> string list \<Rightarrow> ('s world, error option) state" where
  "deleteLoop r v [] = State_Monad.return None"
| "deleteLoop r v (snapName # names) = do {
     res \<leftarrow> getSnap r (NN (vg_Namespace v) snapName);
     (case res of
        Inl err \<Rightarrow> deleteLoop r v names
      | Inr snap \<Rightarrow> do {
          dres \<leftarrow> deleteSnap r snap;
          (case dres of
             Inl err \<Rightarrow> do {
               eventf (OnVG (vg_key v)) EventTypeWarning
                 ''failed to delete snapshots of volumegroup'';
               State_Monad.return (Some err)
             }
           | Inr _ \<Rightarrow> deleteLoop r v names)
        })
   }"

definition dropFinalizer :: "'s reconciler \<Rightarrow> vg \<Rightarrow> ('s world, error option) state" where
  "dropFinalizer r v = do {
     (v', err) \<leftarrow> updateVG r (v\<lparr>vg_Finalizers := r_RemoveFinalizer r (vg_Finalizers v) FinalizerName\<rparr>);
     State_Monad.return err
   }"

text \<open>The two policies exclude each other, so the code's two \<open>if\<close>s are one chain.\<close>

definition deleteVg :: "'s reconciler \<Rightarrow> vg \<Rightarrow> ('s world, error option) state" where
  "deleteVg r v = do {
     let vscName = spec_Volumesnapshotclass (vg_Spec v);
     res \<leftarrow> getClass r (NN [] vscName);
     (case res of
        Inl err \<Rightarrow> State_Monad.return (Some (errorf
          (''VG Snapshotter can't find volume snapshot class '' @ vscName)))
      | Inr vsc \<Rightarrow>
          let deletionPolicy = sc_DeletionPolicy vsc;
              snapshotNames = split_on (CHR '','') (status_Snapshots (vg_Status v))
          in if deletionPolicy = VolumeSnapshotContentDelete
             then do {
               derr \<leftarrow> deleteLoop r v snapshotNames;
               (case derr of
                  Some err \<Rightarrow> State_Monad.return (Some err)
                | None \<Rightarrow> dropFinalizer r v)
             }
             else if deletionPolicy = VolumeSnapshotContentRetain
             then dropFinalizer r v
             else State_Monad.return None)
   }"

section \<open>Creation\<close>

definition findSources :: "'s reconciler \<Rightarrow> vg \<Rightarrow> ('s world, sources outcome) state" where
  "findSources r v =
     (case spec_PvcList (vg_Spec v) of
        Some names \<Rightarrow> getSourceVolIDsFromPvcName r names (vg_Namespace v)
      | None \<Rightarrow>
          if spec_PvcLabel (vg_Spec v) \<noteq> []
          then getSourceVolIDsFromLabel r (spec_PvcLabel (vg_Spec v)) (vg_Namespace v)
          else getSourceVolIDsFromNs r (vg_Namespace v))"

text \<open>The last token of the recorded group id, handed to the driver.\<close>

definition groupParams :: "vg \<Rightarrow> (string \<times> string) list" where
  "groupParams v =
     (let tokens = split_on (CHR ''-'') (status_SnapshotGroupID (vg_Status v));
          index = length tokens
      in if index > 0 then [(ExistingGroupID, tokens ! (index - 1))] else [])"

text \<open>An error exit: status \<open>Error\<close> is written (a failing write is only logged), a warning event
  is recorded and the error returned.\<close>

definition failCreate ::
  "'s reconciler \<Rightarrow> vg \<Rightarrow> string \<Rightarrow> error \<Rightarrow> ('s world, error option outcome) state" where
  "failCreate r v msg err = do {
     (v', _) \<leftarrow> statusUpdateVG r (set_status EventStatusError v);
     eventf (OnVG (vg_key v')) EventTypeWarning msg;
     ret (Some err)
   }"

definition ensureFinalizer :: "'s reconciler \<Rightarrow> vg \<Rightarrow> ('s world, vg \<times> error option) state" where
  "ensureFinalizer r v =
     (if \<not> containString (vg_Finalizers v) FinalizerName
      then updateVG r (v\<lparr>vg_Finalizers := r_AddFinalizer r (vg_Finalizers v) FinalizerName\<rparr>)
      else State_Monad.return (v, None))"

definition recordGroupID ::
  "'s reconciler \<Rightarrow> vg \<Rightarrow> vgsresponse \<Rightarrow> ('s world, vg \<times> error option) state" where
  "recordGroupID r v res =
     (if status_SnapshotGroupID (vg_Status v) = [] \<and> res_SnapshotGroupID res \<noteq> []
      then updateVG r (set_group_id (res_SnapshotGroupID res) v)
      else State_Monad.return (v, None))"

text \<open>After the driver's answer: finalizer, group id, members, final status.\<close>

definition finishCreate ::
  "'s reconciler \<Rightarrow> nname \<Rightarrow> vg \<Rightarrow> vsclass \<Rightarrow> volmap \<Rightarrow> vgsresponse
     \<Rightarrow> ('s world, error option outcome) state" where
  "finishCreate r req v sc vm res = do {
     let groupName = nnName req;
     eventf (OnVG (vg_key v)) EventTypeNormal
       (''Created snapshot consistency group on array with id: '' @ res_SnapshotGroupID res);
     (v1, err1) \<leftarrow> ensureFinalizer r v;
     (case err1 of
        Some err \<Rightarrow> ret (Some err)
      | None \<Rightarrow> do {
          (v2, err2) \<leftarrow> recordGroupID r v1 res;
          (case err2 of
             Some err \<Rightarrow> ret (Some err)
           | None \<Rightarrow>
               andThen (processResponse r res vm v2 sc groupName) (\<lambda>(v3, pErr). do {
                 (v4, sErr) \<leftarrow> statusUpdateVG r v3;
                 (case sErr of
                    Some err \<Rightarrow> do {
                      eventf (OnVG (vg_key v4)) EventTypeWarning
                        (''Failed vg create: '' @ groupName @ '' error: '' @ errText err);
                      ret (Some err)
                    }
                  | None \<Rightarrow>
                      (case pErr of
                         Some err \<Rightarrow> ret (Some err)
                       | None \<Rightarrow> do {
                           eventf (OnVG (vg_key v4)) EventTypeNormal
                             (''Created volume group with id: '' @ res_SnapshotGroupID res);
                           ret None
                         }))
               }))
        })
   }"

definition createGroup ::
  "'s reconciler \<Rightarrow> nname \<Rightarrow> vg \<Rightarrow> vsclass \<Rightarrow> string list \<Rightarrow> volmap
     \<Rightarrow> ('s world, error option outcome) state" where
  "createGroup r req v sc srcVolIDs vm = do {
     let groupName = nnName req;
     res \<leftarrow> createVGS r groupName (sort srcVolIDs) (groupParams v);
     (case res of
        Inl grpcErr \<Rightarrow> failCreate r v
          (''Failed vg create: '' @ groupName @ '' error: '' @ errText grpcErr) grpcErr
      | Inr answer \<Rightarrow> finishCreate r req v sc vm answer)
   }"

definition bothGivenError :: "vg \<Rightarrow> string list \<Rightarrow> error" where
  "bothGivenError v names = errorf
     (''PvcLabel and PvcList can't be provided at the same time. PvcLabel=''
      @ spec_PvcLabel (vg_Spec v) @ '', PvcList='' @ fmt_list names)"

definition driverMismatchError :: error where
  "driverMismatchError = errorf
     ''VG Snapshotter vg create failed, VolumeSnapshotClass driver name does not match volumegroupsnapshotter''"

text \<open>With the status already \<open>Pending\<close>: the snapshot class, the source volumes, the group.\<close>

definition createFromClass ::
  "'s reconciler \<Rightarrow> nname \<Rightarrow> vg \<Rightarrow> ('s world, error option outcome) state" where
  "createFromClass r req v = do {
     scres \<leftarrow> getClass r (NN [] (spec_Volumesnapshotclass (vg_Spec v)));
     (case scres of
        Inl scerr \<Rightarrow> failCreate r v (''Failed vg create: error: '' @ errText scerr) scerr
      | Inr sc \<Rightarrow>
          if \<not> driverVerification r sc
          then failCreate r v (''Failed vg create: error: '' @ errText driverMismatchError)
                 driverMismatchError
          else andThen (findSources r v) (\<lambda>src.
            case src of
              Inl volErr \<Rightarrow> failCreate r v
                (''Failed vg create: '' @ nnName req @ '' error: '' @ errText volErr) volErr
            | Inr (srcVolIDs, vm) \<Rightarrow> createGroup r req v sc srcVolIDs vm))
   }"

definition createChecked ::
  "'s reconciler \<Rightarrow> nname \<Rightarrow> vg \<Rightarrow> ('s world, error option outcome) state" where
  "createChecked r req v =
     (case (spec_PvcLabel (vg_Spec v) \<noteq> [], spec_PvcList (vg_Spec v)) of
        (True, Some names) \<Rightarrow> do {
          eventf (OnVG (vg_key v)) EventTypeWarning
            ''Failed vg create: error: both pvc label and list not supported '';
          ret (Some (bothGivenError v names))
        }
      | _ \<Rightarrow> createFromClass r req v)"

definition reconcileCreate ::
  "'s reconciler \<Rightarrow> nname \<Rightarrow> vg \<Rightarrow> ('s world, error option outcome) state" where
  "reconcileCreate r req v = do {
     (v', _) \<leftarrow> statusUpdateVG r (set_status EventStatusPending v);
     createChecked r req v'
   }"

section \<open>Reconcile\<close>

definition incompleteError :: error where
  "incompleteError = errorf ''VG Snapshotter status is incomplete. Nothing is deleted''"

definition pendingError :: error where
  "pendingError =
     errorf ''VG Snapshotter status is pending. Avoid creation of another snapshot''"

definition reconcile ::
  "'s reconciler \<Rightarrow> nname \<Rightarrow> ('s world, error option outcome) state" where
  "reconcile r req = do {
     res \<leftarrow> getVG r req;
     (case res of
        Inl err \<Rightarrow> ret (r_IgnoreNotFound r err)
      | Inr v \<Rightarrow>
          let st = vg_Status v
          in if \<not> deletion_is_zero v
             then (if status_Status st = EventStatusComplete
                      \<and> containString (vg_Finalizers v) FinalizerName
                   then do { err \<leftarrow> deleteVg r v; ret err }
                   else ret (Some incompleteError))
             else if status_SnapshotGroupID st \<noteq> [] \<and> status_Status st = EventStatusComplete
             then do {
               eventf (OnVG (vg_key v)) EventTypeWarning ''VG exists'';
               ret None
             }
             else if status_Status st = EventStatusPending
             then ret (Some pendingError)
             else reconcileCreate r req v)
   }"

section \<open>Effects\<close>

lemma emits_deleteLoop [emits_intros]:
  assumes "\<And>n. A (GetSnap (NN (vg_Namespace v) n))" "\<And>x. A (DeleteSnap x)"
    and "\<And>ty msg. A (Event (OnVG (vg_key v)) ty EventReasonUpdated msg)"
  shows "emits r A (deleteLoop r v names)"
  by (induction names) (auto simp: assms intro!: emits_intros split: sum.split)

lemma emits_findSources [emits_intros]:
  "emits r is_read (findSources r v)"
  unfolding findSources_def by (auto intro!: emits_intros split: option.split)

text \<open>What follows the driver's answer: writes of the group, work on members, the wait. Nothing is
  deleted and the driver is not called again.\<close>

fun after_driver :: "effect \<Rightarrow> bool" where
  "after_driver (UpdateVG _) = True"
| "after_driver (StatusUpdateVG _) = True"
| "after_driver e = response_effect e"

lemma response_after_driver: "response_effect e \<Longrightarrow> after_driver e"
  by (cases e) auto

lemma emits_failCreate [emits_intros]:
  assumes "A (StatusUpdateVG (set_status EventStatusError v))"
    and "\<And>obj ty m. A (Event obj ty EventReasonUpdated m)"
  shows "emits r A (failCreate r v msg err)"
  unfolding failCreate_def using assms by (auto intro!: emits_intros)

lemma emits_ensureFinalizer [emits_intros]: "(\<And>u. A (UpdateVG u)) \<Longrightarrow> emits r A (ensureFinalizer r v)"
  by (simp add: ensureFinalizer_def emits_intros)

lemma emits_recordGroupID [emits_intros]: "(\<And>u. A (UpdateVG u)) \<Longrightarrow> emits r A (recordGroupID r v res)"
  by (simp add: recordGroupID_def emits_intros)

lemma emits_finishCreate [emits_intros]: "emits r after_driver (finishCreate r req v sc vm res)"
  unfolding finishCreate_def Let_def
  by (auto intro!: emits_intros emits_processResponse [THEN emits_mono, OF response_after_driver]
      split: option.split)

text \<open>The order of a creation, seen from the driver call.\<close>

definition drives :: "nname \<Rightarrow> effect list \<Rightarrow> bool" where
  "drives req ts \<longleftrightarrow> (\<exists>ids ps post. ts = CreateVGS (nnName req) ids ps # post
     \<and> sorted ids \<and> list_all after_driver post)"

definition no_driver :: "effect list \<Rightarrow> bool" where
  "no_driver = list_all (\<lambda>e. \<not> is_driver_call e)"

definition reads_then_drives :: "nname \<Rightarrow> effect list \<Rightarrow> bool" where
  "reads_then_drives req ts \<longleftrightarrow> no_driver ts
     \<or> (\<exists>pre us. ts = pre @ us \<and> list_all is_read pre \<and> drives req us)"

definition creation_order :: "nname \<Rightarrow> effect list \<Rightarrow> bool" where
  "creation_order req ts \<longleftrightarrow> no_driver ts
     \<or> (\<exists>v pre us. ts = GetVG req # StatusUpdateVG v # pre @ us
          \<and> status_Status (vg_Status v) = EventStatusPending \<and> list_all is_read pre \<and> drives req us)"

lemma no_driver_append [simp]: "no_driver (xs @ ys) \<longleftrightarrow> no_driver xs \<and> no_driver ys"
  by (simp add: no_driver_def)

lemma reads_no_driver: "list_all is_read ts \<Longrightarrow> no_driver ts"
  unfolding no_driver_def by (erule list.pred_mono_strong) (case_tac z, auto)

lemma after_driver_no_driver: "list_all after_driver ts \<Longrightarrow> no_driver ts"
  unfolding no_driver_def by (erule list.pred_mono_strong) (case_tac z, auto)

lemma reads_reads_then_drives:
  "list_all is_read xs \<Longrightarrow> reads_then_drives req ys \<Longrightarrow> reads_then_drives req (xs @ ys)"
proof -
  assume xs: "list_all is_read xs" and ys: "reads_then_drives req ys"
  show "reads_then_drives req (xs @ ys)"
  proof (cases "no_driver ys")
    case True
    with xs show ?thesis by (simp add: reads_then_drives_def reads_no_driver)
  next
    case False
    with ys obtain pre us where "ys = pre @ us" "list_all is_read pre" "drives req us"
      by (auto simp: reads_then_drives_def)
    with xs have "xs @ ys = (xs @ pre) @ us \<and> list_all is_read (xs @ pre) \<and> drives req us" by simp
    then show ?thesis unfolding reads_then_drives_def by blast
  qed
qed

lemma drives_reads_then_drives: "drives req ts \<Longrightarrow> reads_then_drives req ts"
  unfolding reads_then_drives_def by (metis append_Nil list.pred_inject(1))

lemma shaped_createGroup: "shaped r (drives req) (createGroup r req v sc ids vm)"
  unfolding createGroup_def Let_def
proof (rule shaped_bind)
  show "shaped r (\<lambda>ts. ts = [CreateVGS (nnName req) (sort ids) (groupParams v)])
      (createVGS r (nnName req) (sort ids) (groupParams v))"
    unfolding createVGS_def by (rule shaped_call) simp_all
  show "shaped r (list_all after_driver)
      (case res of
         Inl grpcErr \<Rightarrow> failCreate r v (''Failed vg create: '' @ nnName req @ '' error: '' @ errText grpcErr) grpcErr
       | Inr answer \<Rightarrow> finishCreate r req v sc vm answer)" for res
    unfolding emits_def [symmetric] by (auto intro!: emits_intros split: sum.split)
qed (auto simp: drives_def)

lemma shaped_quiet: "emits r (\<lambda>e. \<not> is_driver_call e) m \<Longrightarrow> shaped r (reads_then_drives req) m"
  unfolding emits_def by (erule shaped_mono) (simp add: reads_then_drives_def no_driver_def)

lemma shaped_createChecked: "shaped r (reads_then_drives req) (createChecked r req v)"
proof -
  have fail: "shaped r (reads_then_drives req) (failCreate r v msg err)" for msg err
    by (rule shaped_quiet) (simp add: emits_intros)
  have group: "shaped r (reads_then_drives req) (createGroup r req v sc ids vm)" for sc ids vm
    by (rule shaped_mono [OF shaped_createGroup drives_reads_then_drives])
  have sources: "shaped r (reads_then_drives req) (andThen (findSources r v) k)"
    if "\<And>x. shaped r (reads_then_drives req) (k x)" for k
    by (rule shaped_andThen [OF emits_findSources [unfolded emits_def] that])
      (erule (1) reads_reads_then_drives, simp add: reads_then_drives_def reads_no_driver)
  have cls: "shaped r (reads_then_drives req) (State_Monad.bind (getClass r n) k)"
    if "\<And>x. shaped r (reads_then_drives req) (k x)" for k n
    by (rule shaped_bind [OF _ that, where P = "list_all is_read"])
      (auto intro: reads_reads_then_drives simp: emits_def [symmetric] emits_intros)
  have both: "shaped r (reads_then_drives req)
      (do { eventf (OnVG (vg_key v)) EventTypeWarning msg; ret x })" for msg x
    by (rule shaped_quiet) (simp add: emits_intros)
  show ?thesis
    unfolding createChecked_def createFromClass_def
    by (auto intro!: cls sources fail group both split: option.split sum.split bool.split)
qed

lemma emits_deleteVg [emits_intros]:
  assumes "\<And>k. A (GetClass k)" "\<And>k. A (GetSnap k)" "\<And>x. A (DeleteSnap x)" "\<And>u. A (UpdateVG u)"
    and "\<And>obj ty msg. A (Event obj ty EventReasonUpdated msg)"
  shows "emits r A (deleteVg r v)"
  unfolding deleteVg_def dropFinalizer_def Let_def
  by (auto intro!: emits_intros assms split: sum.split option.split)

text \<open>From the status \<open>Pending\<close> on.\<close>

definition pending_then_drives :: "nname \<Rightarrow> effect list \<Rightarrow> bool" where
  "pending_then_drives req ts \<longleftrightarrow> no_driver ts
     \<or> (\<exists>v pre us. ts = StatusUpdateVG v # pre @ us
          \<and> status_Status (vg_Status v) = EventStatusPending \<and> list_all is_read pre \<and> drives req us)"

lemma shaped_reconcileCreate: "shaped r (pending_then_drives req) (reconcileCreate r req v)"
  unfolding reconcileCreate_def
proof (rule shaped_bind)
  show "shaped r (\<lambda>ts. ts = [StatusUpdateVG (set_status EventStatusPending v)])
      (statusUpdateVG r (set_status EventStatusPending v))"
    unfolding statusUpdateVG_def
    by (rule shaped_bind [OF shaped_call shaped_return,
          of "\<lambda>ts. ts = [StatusUpdateVG _]" _ _ _ "\<lambda>ts. ts = []"]) simp_all
  show "shaped r (reads_then_drives req) (case x of (v', uu) \<Rightarrow> createChecked r req v')"
    for x :: "vg \<times> error option"
    by (cases x) (simp add: shaped_createChecked)
qed (auto simp: reads_then_drives_def pending_then_drives_def no_driver_def)


lemma shaped_reconcile: "shaped r (creation_order req) (reconcile r req)"
  unfolding reconcile_def
proof (rule shaped_bind)
  show "shaped r (\<lambda>ts. ts = [GetVG req]) (getVG r req)"
    unfolding getVG_def by (rule shaped_call) simp_all
  have quiet: "shaped r (pending_then_drives req) m" if "emits r (\<lambda>e. \<not> is_driver_call e) m"
    for m :: "('a world, error option outcome) state"
    using that unfolding emits_def
    by (rule shaped_mono) (simp add: pending_then_drives_def no_driver_def)
  show "shaped r (pending_then_drives req)
     (case res of
        Inl err \<Rightarrow> ret (r_IgnoreNotFound r err)
      | Inr v \<Rightarrow>
          let st = vg_Status v
          in if \<not> deletion_is_zero v
             then (if status_Status st = EventStatusComplete
                      \<and> containString (vg_Finalizers v) FinalizerName
                   then do { err \<leftarrow> deleteVg r v; ret err }
                   else ret (Some incompleteError))
             else if status_SnapshotGroupID st \<noteq> [] \<and> status_Status st = EventStatusComplete
             then do {
               eventf (OnVG (vg_key v)) EventTypeWarning ''VG exists'';
               ret None
             }
             else if status_Status st = EventStatusPending
             then ret (Some pendingError)
             else reconcileCreate r req v)" for res
    by (auto simp: Let_def intro!: quiet emits_intros shaped_reconcileCreate split: sum.split)
qed (auto simp: creation_order_def pending_then_drives_def no_driver_def)

text \<open>Everything but the members' objects leaves the pairs of creations alone.\<close>

definition creates_nothing :: "effect \<Rightarrow> bool" where
  "creates_nothing e \<longleftrightarrow> (\<forall>c. e \<noteq> CreateContent c) \<and> (\<forall>s. e \<noteq> CreateSnap s)"

lemma creates_nothing_simps [simp]:
  "creates_nothing (GetVG k)" "creates_nothing (UpdateVG v)" "creates_nothing (StatusUpdateVG v)"
  "creates_nothing (CreateVGS n ids ps)" "creates_nothing (Event obj ty rs m)"
  "creates_nothing (GetClass k)" "creates_nothing (GetSnap k)" "creates_nothing (DeleteSnap x)"
  by (simp_all add: creates_nothing_def)

lemma paired_quiet: "emits r creates_nothing m \<Longrightarrow> shaped r (paired P) m"
  by (erule emits_paired) (simp add: creates_nothing_def)

lemma is_read_creates_nothing: "is_read e \<Longrightarrow> creates_nothing e"
  by (cases e) (simp_all add: creates_nothing_def)

lemma paired_finishCreate:
  assumes "sc_Driver sc = d"
  shows "shaped r (paired (\<lambda>c. vc_Driver c = d)) (finishCreate r req v sc vm res)"
proof -
  have members: "shaped r (paired (\<lambda>c. vc_Driver c = d)) (processResponse r res vm v' sc g)" for v' g
    by (rule paired_processResponse) (simp add: content_for_def assms)
  have quiet: "shaped r (paired P) (eventf obj ty msg)" "shaped r (paired P) (statusUpdateVG r v')"
    "shaped r (paired P) (ensureFinalizer r v')" "shaped r (paired P) (recordGroupID r v' res)"
    for P obj ty msg v'
    by (rule paired_quiet, simp add: emits_intros)+
  show ?thesis
    unfolding finishCreate_def Let_def
    by (auto intro!: pairing.composition members quiet split: option.split)
qed

lemma paired_createChecked:
  "shaped r (paired (\<lambda>c. vc_Driver c = r_DriverName r)) (createChecked r req v)"
proof -
  have quiet: "shaped r (paired P) (eventf obj ty msg)" "shaped r (paired P) (getClass r k)"
    "shaped r (paired P) (failCreate r v msg err)" "shaped r (paired P) (createVGS r n ids ps)"
    for P obj ty msg k err n ids ps
    by (rule paired_quiet, simp add: emits_intros)+
  have sources: "shaped r (paired P) (findSources r v)" for P
    by (rule paired_quiet) (rule emits_mono [OF emits_findSources is_read_creates_nothing])
  show ?thesis
    unfolding createChecked_def createFromClass_def createGroup_def Let_def
    by (auto intro!: pairing.composition quiet sources paired_finishCreate
        split: option.split sum.split bool.split)
qed

text \<open>Creations and deletions.\<close>

fun is_creation :: "effect \<Rightarrow> bool" where
  "is_creation (CreateContent _) = True"
| "is_creation (CreateSnap _) = True"
| "is_creation (CreateVGS _ _ _) = True"
| "is_creation _ = False"

fun is_deletion :: "effect \<Rightarrow> bool" where
  "is_deletion (DeleteSnap _) = True"
| "is_deletion (DeleteVG _) = True"
| "is_deletion _ = False"

lemma after_driver_no_deletion: "after_driver e \<Longrightarrow> \<not> is_deletion e"
  by (cases e) auto

lemma is_read_no_deletion: "is_read e \<Longrightarrow> \<not> is_deletion e"
  by (cases e) auto

lemma emits_reconcileCreate_no_deletion: "emits r (\<lambda>e. \<not> is_deletion e) (reconcileCreate r req v)"
  unfolding reconcileCreate_def createChecked_def createFromClass_def createGroup_def Let_def
  by (auto intro!: emits_intros emits_mono [OF emits_findSources is_read_no_deletion]
      emits_mono [OF emits_finishCreate after_driver_no_deletion]
      split: option.split sum.split bool.split)

section \<open>Source volumes of a group\<close>

text \<open>The claims a specification asks for, over tables of what the cluster answers: the named ones,
  each once and in order; else the labelled ones; else all of the namespace.\<close>

definition no_label_claims :: "string \<Rightarrow> error" where
  "no_label_claims label =
     errorf (''VG Snapshotter vg create failed, pvc with label missing '' @ label)"

definition no_namespace_claims :: "string \<Rightarrow> error" where
  "no_namespace_claims ns = errorf (''VG Snapshotter vg create failed, no pvc found under ns '' @ ns)"

definition listed :: "error \<Rightarrow> error + 'a list \<Rightarrow> error + 'a list" where
  "listed e res = (case res of Inl _ \<Rightarrow> Inl e | Inr xs \<Rightarrow> if xs = [] then Inl e else Inr xs)"

definition wanted_claims ::
  "(nname \<Rightarrow> error + pvc) \<Rightarrow> (listopts \<Rightarrow> error + pvc list) \<Rightarrow> vg \<Rightarrow> error + pvc list" where
  "wanted_claims ctab ltab v =
     (let ns = vg_Namespace v; label = spec_PvcLabel (vg_Spec v)
      in case spec_PvcList (vg_Spec v) of
           Some names \<Rightarrow> lookup_claims ctab ns (fresh [] names)
         | None \<Rightarrow>
             if label \<noteq> []
             then listed (no_label_claims label)
                    (ltab \<lparr>lo_Namespace = ns, lo_Labels = Some [(''volume-group'', label)]\<rparr>)
             else listed (no_namespace_claims ns) (ltab \<lparr>lo_Namespace = ns, lo_Labels = None\<rparr>))"

text \<open>A listing followed by the mapping of what it returned.\<close>

lemma run_listed:
  assumes tab: "reads_volumes r (cluster w) tab"
    and lo: "cl_ListPVC (r_Client r) lo (cluster w) = (ans, cluster w)"
  shows "\<exists>w'. cluster w' = cluster w \<and>
     run_state (do { res \<leftarrow> listPVC r lo;
          (case res of
             Inl err \<Rightarrow> ret (Inl e)
           | Inr items \<Rightarrow> if length items < 1 then ret (Inl e) else mapVolIDToPvcName r items) }) w
     = (case listed e ans of Inl e \<Rightarrow> Ret (Inl e) | Inr cs \<Rightarrow> select_sources tab cs, w')"
proof -
  let ?w = "w\<lparr>trace := trace w @ [ListPVC lo]\<rparr>"
  have g: "run_state (listPVC r lo) w = (ans, ?w)"
    using lo by (simp add: listPVC_def run_call)
  show ?thesis
  proof (cases ans)
    case (Inl err)
    with g show ?thesis by (auto simp: listed_def)
  next
    case (Inr cs)
    show ?thesis
    proof (cases "cs = []")
      case True
      with g Inr show ?thesis by (auto simp: listed_def)
    next
      case False
      with run_mapVolIDToPvcName [of r ?w tab cs] tab g Inr show ?thesis
        by (auto simp: listed_def Suc_le_eq)
    qed
  qed
qed

text \<open>Without a name list the code lists claims, with one of two options and errors.\<close>

definition listing :: "vg \<Rightarrow> listopts" where
  "listing v = \<lparr>lo_Namespace = vg_Namespace v, lo_Labels =
     (if spec_PvcLabel (vg_Spec v) \<noteq> [] then Some [(''volume-group'', spec_PvcLabel (vg_Spec v))] else None)\<rparr>"

definition listing_error :: "vg \<Rightarrow> error" where
  "listing_error v = (if spec_PvcLabel (vg_Spec v) \<noteq> [] then no_label_claims (spec_PvcLabel (vg_Spec v))
     else no_namespace_claims (vg_Namespace v))"

lemma wanted_listing:
  "spec_PvcList (vg_Spec v) = None \<Longrightarrow>
     wanted_claims ctab ltab v = listed (listing_error v) (ltab (listing v))"
  by (simp add: wanted_claims_def Let_def listing_def listing_error_def)

lemma findSources_listing:
  assumes "spec_PvcList (vg_Spec v) = None"
  shows "findSources r v = do { res \<leftarrow> listPVC r (listing v);
     (case res of
        Inl err \<Rightarrow> ret (Inl (listing_error v))
      | Inr items \<Rightarrow> if length items < 1 then ret (Inl (listing_error v)) else mapVolIDToPvcName r items) }"
  using assms
  by (cases "spec_PvcLabel (vg_Spec v) = []")
    (simp_all only: findSources_def getSourceVolIDsFromNs_def getSourceVolIDsFromLabel_def listing_def
      listing_error_def no_label_claims_def no_namespace_claims_def option.case if_True if_False
      not_False_eq_True not_True_eq_False simp_thms)

text \<open>A name list: each name looked up once, then the mapping.\<close>

lemma run_named_sources:
  assumes tab: "reads_volumes r (cluster w) tab"
    and ctab: "\<forall>k. cl_GetPVC (r_Client r) k (cluster w) = (ctab k, cluster w)"
  shows "\<exists>w'. cluster w' = cluster w \<and> run_state (getSourceVolIDsFromPvcName r names ns) w =
     (case lookup_claims ctab ns (fresh [] names) of
        Inl e \<Rightarrow> Ret (Inl e) | Inr cs \<Rightarrow> select_sources tab cs, w')"
proof -
  let ?claims = "lookup_claims ctab ns (fresh [] names)"
  obtain w1 where w1: "cluster w1 = cluster w" "run_state (pvcNameLoop r ns [] [] names) w = (?claims, w1)"
    using run_pvcNameLoop [of r w ctab ns "[]" "[]" names] ctab by (auto split: sum.splits)
  show ?thesis
  proof (cases ?claims)
    case (Inl e)
    with w1 show ?thesis by (auto simp: getSourceVolIDsFromPvcName_def)
  next
    case (Inr cs)
    with run_mapVolIDToPvcName [of r w1 tab cs] tab w1 Inr show ?thesis
      by (auto simp: getSourceVolIDsFromPvcName_def)
  qed
qed

text \<open>On a cluster that answers reads from tables.\<close>

lemma find_sources_runs:
  assumes tab: "reads_volumes r (cluster w) tab"
    and ctab: "\<forall>k. cl_GetPVC (r_Client r) k (cluster w) = (ctab k, cluster w)"
    and ltab: "\<forall>lo. cl_ListPVC (r_Client r) lo (cluster w) = (ltab lo, cluster w)"
  shows "\<exists>w'. cluster w' = cluster w \<and> run_state (findSources r v) w =
     (case wanted_claims ctab ltab v of Inl e \<Rightarrow> Ret (Inl e) | Inr cs \<Rightarrow> select_sources tab cs, w')"
proof (cases "spec_PvcList (vg_Spec v)")
  case (Some names)
  then have w: "wanted_claims ctab ltab v = lookup_claims ctab (vg_Namespace v) (fresh [] names)"
    by (simp add: wanted_claims_def Let_def)
  show ?thesis
    unfolding w findSources_def Some option.case
    by (rule run_named_sources [OF tab ctab])
next
  case None
  have l: "cl_ListPVC (r_Client r) (listing v) (cluster w) = (ltab (listing v), cluster w)"
    using ltab by simp
  show ?thesis
    unfolding wanted_listing [OF None] findSources_listing [OF None]
    by (rule run_listed [OF tab l])
qed

section \<open>Properties\<close>

text \<open>C2: The order of a reconciliation, for any cluster: the driver is called only after the group
  has been read and the status \<open>Pending\<close> has been sent for it, with nothing but reads in between;
  it is called under the request's name with sorted volume ids; and after it there is no deletion
  and no second call of the driver.\<close>

lemma reconcile_order:
  "\<exists>ts. trace (snd (run_state (reconcile r req) w)) = trace w @ ts \<and> creation_order req ts"
  using shapedD [OF shaped_reconcile] by (metis prod.collapse)

text \<open>C1: A reconciliation calls the driver at most once, whatever the cluster and the driver answer
  and wherever it fails or panics.\<close>

lemma at_most_one_driver_call: "at_most r 1 is_driver_call (reconcile r req)"
proof -
  have none: "filter is_driver_call ts = []" if "no_driver ts" for ts
    using that by (simp add: no_driver_def list_all_iff filter_empty_conv)
  have one: "length (filter is_driver_call ts) \<le> 1" if "creation_order req ts" for ts
    using that none none [OF reads_no_driver] none [OF after_driver_no_driver]
    by (auto simp: creation_order_def drives_def)
  show ?thesis
    unfolding at_most_def by (rule shaped_mono [OF shaped_reconcile one])
qed

text \<open>Creations along a whole reconciliation.\<close>

lemma paired_reconcile:
  "shaped r (paired (\<lambda>c. vc_Driver c = r_DriverName r)) (reconcile r req)"
proof -
  have quiet: "shaped r (paired P) (getVG r k)" "shaped r (paired P) (eventf obj ty msg)"
    "shaped r (paired P) (deleteVg r v)" "shaped r (paired P) (statusUpdateVG r v)"
    for P k obj ty msg v
    by (rule paired_quiet, simp add: emits_intros)+
  show ?thesis
    unfolding reconcile_def reconcileCreate_def
    by (auto simp: Let_def intro!: pairing.composition quiet paired_createChecked split: sum.split)
qed

text \<open>C15: Members are created in pairs, for any cluster: every \<open>VolumeSnapshot\<close> a reconciliation
  creates comes right after the creation of a \<open>VolumeSnapshotContent\<close> it is bound to in both
  directions, and every content created carries the name of the controller's own driver.\<close>

lemma members_created_in_pairs:
  "shaped r (paired (\<lambda>c. vc_Driver c = r_DriverName r)) (reconcile r req)"
  by (rule paired_reconcile)

text \<open>C16: A reconciliation either deletes or creates, never both, and never deletes the group object
  itself: deletion of the group is left to the server, once the finalizer is gone.\<close>

lemma creates_or_deletes:
  "shaped r (\<lambda>ts. list_all (\<lambda>e. \<not> is_deletion e) ts
       \<or> list_all (\<lambda>e. \<not> is_creation e \<and> (\<forall>v. e \<noteq> DeleteVG v)) ts) (reconcile r req)"
    (is "shaped r ?P _")
proof -
  have keep: "shaped r ?P m" if "emits r (\<lambda>e. \<not> is_deletion e) m" for m :: "('a world, 'b) state"
    using that unfolding emits_def by (rule shaped_mono) simp
  have gone: "shaped r ?P m" if "emits r (\<lambda>e. \<not> is_creation e \<and> (\<forall>v. e \<noteq> DeleteVG v)) m"
    for m :: "('a world, 'b) state"
    using that unfolding emits_def by (rule shaped_mono) simp
  have del: "shaped r ?P (do { err \<leftarrow> deleteVg r v; ret err })" for v
    by (rule gone) (auto intro!: emits_intros)
  have create: "shaped r ?P (reconcileCreate r req v)" for v
    by (rule keep) (rule emits_reconcileCreate_no_deletion)
  have other: "shaped r ?P (ret x)" "shaped r ?P (do { eventf obj ty msg; ret x })"
    for x :: "error option" and obj ty msg
    by (rule keep, simp add: emits_intros)+
  show ?thesis
    unfolding reconcile_def
  proof (rule shaped_bind)
    show "shaped r (\<lambda>ts. ts = [GetVG req]) (getVG r req)"
      unfolding getVG_def by (rule shaped_call) simp_all
    show "shaped r ?P
     (case res of
        Inl err \<Rightarrow> ret (r_IgnoreNotFound r err)
      | Inr v \<Rightarrow>
          let st = vg_Status v
          in if \<not> deletion_is_zero v
             then (if status_Status st = EventStatusComplete
                      \<and> containString (vg_Finalizers v) FinalizerName
                   then do { err \<leftarrow> deleteVg r v; ret err }
                   else ret (Some incompleteError))
             else if status_SnapshotGroupID st \<noteq> [] \<and> status_Status st = EventStatusComplete
             then do {
               eventf (OnVG (vg_key v)) EventTypeWarning ''VG exists'';
               ret None
             }
             else if status_Status st = EventStatusPending
             then ret (Some pendingError)
             else reconcileCreate r req v)" for res
      by (auto simp: Let_def intro: del create other split: sum.split)
  qed auto
qed

text \<open>A group that is settled and not being deleted is left alone, for any cluster: when it is
  \<open>Complete\<close> with a group id the reconciliation succeeds after reading it and recording one event,
  and when it is \<open>Pending\<close> it fails right after reading it.\<close>

lemma settled_group_untouched:
  assumes "cl_GetVG (r_Client r) req (cluster w) = (Inr v, st)" and "deletion_is_zero v"
  shows "(status_Status (vg_Status v) = EventStatusComplete \<and> status_SnapshotGroupID (vg_Status v) \<noteq> []
        \<longrightarrow> run_state (reconcile r req) w = (Ret None, w\<lparr>cluster := st, trace := trace w @
              [GetVG req, Event (OnVG (vg_key v)) EventTypeWarning EventReasonUpdated ''VG exists'']\<rparr>))
     \<and> (status_Status (vg_Status v) = EventStatusPending
        \<longrightarrow> run_state (reconcile r req) w =
              (Ret (Some pendingError), w\<lparr>cluster := st, trace := trace w @ [GetVG req]\<rparr>))"
  using assms by (simp add: reconcile_def getVG_def run_call Let_def)

definition example_group :: vg where
  "example_group = empty_vg\<lparr>vg_Name := ''vg'', vg_Namespace := ''ns'',
     vg_Spec := empty_spec\<lparr>spec_Volumesnapshotclass := ''class''\<rparr>,
     vg_Status := empty_status\<lparr>status_SnapshotGroupID := ''array-7'', status_Snapshots := ''vg-a,vg-b'',
       status_Status := EventStatusComplete\<rparr>\<rparr>"

definition group_reconciler :: "vg \<Rightarrow> unit reconciler" where
  "group_reconciler v = example_reconciler ((failing_client (errorf ''down''))
     \<lparr>cl_GetVG := (\<lambda>k s. (Inr v, s)), cl_StatusUpdateVG := (\<lambda>u s. (Inr u, s))\<rparr>)"

lemma group_reconciler_get: "cl_GetVG (r_Client (group_reconciler v)) k s = (Inr v, s)"
  by (simp add: group_reconciler_def example_reconciler_def)

lemma settled_group_untouched_witness:
  "fst (run_state (reconcile (group_reconciler example_group) (NN ''ns'' ''vg'')) (start () [])) = Ret None"
  using settled_group_untouched [OF group_reconciler_get, of example_group "NN ''ns'' ''vg''" "start () []"]
  by (simp add: example_group_def empty_status_def empty_vg_def deletion_is_zero_def)

text \<open>A group being deleted that is not \<open>Complete\<close>, or lacks the controller's finalizer, is only
  read: the reconciliation reports that nothing is deleted.\<close>

lemma incomplete_group_not_deleted:
  assumes "cl_GetVG (r_Client r) req (cluster w) = (Inr v, st)" and "\<not> deletion_is_zero v"
    and "status_Status (vg_Status v) \<noteq> EventStatusComplete \<or> FinalizerName \<notin> set (vg_Finalizers v)"
  shows "run_state (reconcile r req) w =
     (Ret (Some incompleteError), w\<lparr>cluster := st, trace := trace w @ [GetVG req]\<rparr>)"
  using assms by (auto simp: reconcile_def getVG_def run_call Let_def)

lemma incomplete_group_not_deleted_witness:
  "fst (run_state (reconcile (group_reconciler
      (example_group\<lparr>vg_DeletionTimestamp := Some (UnixNano 9)\<rparr>)) (NN ''ns'' ''vg'')) (start () []))
     = Ret (Some incompleteError)"
  by (subst incomplete_group_not_deleted [OF group_reconciler_get])
    (simp_all add: example_group_def empty_vg_def deletion_is_zero_def)

text \<open>C23: On a cluster that answers reads from tables, the source volumes of a group are those of the
  bound claims among the claims its specification asks for: by the name list (each name looked up
  once), by label, or by namespace. Otherwise the result is the error of the first lookup that
  fails or of an empty list; then what the first claim in the way ends the search with (its volume
  is missing, has no CSI source, which panics, or is not on the system of the first claim); then
  the error of no bound claim. Nothing is written.\<close>

lemma find_sources_selects:
  assumes tab: "reads_volumes r (cluster w) tab"
    and ctab: "\<forall>k. cl_GetPVC (r_Client r) k (cluster w) = (ctab k, cluster w)"
    and ltab: "\<forall>lo. cl_ListPVC (r_Client r) lo (cluster w) = (ltab lo, cluster w)"
  shows "\<exists>w'. cluster w' = cluster w \<and> run_state (findSources r v) w =
     (case wanted_claims ctab ltab v of Inl e \<Rightarrow> Ret (Inl e) | Inr cs \<Rightarrow> select_sources tab cs, w')"
  by (rule find_sources_runs [OF assms])

definition claims_reconciler ::
  "(nname \<Rightarrow> error + pv) \<Rightarrow> (nname \<Rightarrow> error + pvc) \<Rightarrow> (listopts \<Rightarrow> error + pvc list) \<Rightarrow> unit reconciler" where
  "claims_reconciler tab ctab ltab = example_reconciler ((failing_client (errorf ''down''))
     \<lparr>cl_GetPV := (\<lambda>k s. (tab k, s)), cl_GetPVC := (\<lambda>k s. (ctab k, s)),
      cl_ListPVC := (\<lambda>lo s. (ltab lo, s))\<rparr>)"

lemma find_sources_selects_witness:
  "\<exists>w'. cluster w' = () \<and> run_state (findSources
      (claims_reconciler (\<lambda>k. Inr (example_volume (nnName k @ ''/array/scsi'')))
         (\<lambda>k. Inr (example_claim (nnName k) (nnName k) ClaimBound)) (\<lambda>lo. Inr []))
      (example_group\<lparr>vg_Spec := empty_spec\<lparr>spec_PvcList := Some [''a'', ''b'', ''a'']\<rparr>\<rparr>)) (start () [])
    = (Ret (Inr ([''a/array/scsi'', ''b/array/scsi''], [(''a/array/scsi'', ''a''), (''b/array/scsi'', ''b'')])), w')"
proof -
  let ?tab = "\<lambda>k. Inr (example_volume (nnName k @ ''/array/scsi''))"
  let ?ctab = "\<lambda>k. Inr (example_claim (nnName k) (nnName k) ClaimBound)"
  let ?ltab = "\<lambda>lo. Inr []"
  let ?v = "example_group\<lparr>vg_Spec := empty_spec\<lparr>spec_PvcList := Some [''a'', ''b'', ''a'']\<rparr>\<rparr>"
  have val: "(case wanted_claims ?ctab ?ltab ?v of Inl e \<Rightarrow> Ret (Inl e) | Inr cs \<Rightarrow> select_sources ?tab cs) =
      Ret (Inr ([''a/array/scsi'', ''b/array/scsi''], [(''a/array/scsi'', ''a''), (''b/array/scsi'', ''b'')]))"
    by (simp add: wanted_claims_def Let_def select_sources_def claim_problem_def collect_def reference_system_def
        bound_claim_def example_volume_def example_claim_def claim_array_def parseVolumeHandle_def)
  show ?thesis
    using find_sources_selects [where tab = ?tab and ctab = ?ctab and ltab = ?ltab and v = ?v, of "claims_reconciler ?tab ?ctab ?ltab" "start () []"]
    unfolding val
    by (simp add: reads_volumes_def claims_reconciler_def example_reconciler_def)
qed

text \<open>The driver is told the existing group by the last dash-separated token of the recorded group
  id, so that "system-id" gives back "id"; the parameter is always there, and empty for a group
  that has no id yet.\<close>

lemma existing_group_token:
  assumes "CHR ''-'' \<notin> set gid"
  shows "groupParams (set_group_id (sys @ CHR ''-'' # gid) v) = [(ExistingGroupID, gid)]
     \<and> groupParams (set_group_id gid v) = [(ExistingGroupID, gid)]"
proof -
  have "split_on (CHR ''-'') (sys @ CHR ''-'' # gid) = split_on (CHR ''-'') sys @ [gid]"
    using assms by (induction sys) (auto simp: split_on_none split: list.splits)
  then show ?thesis
    using assms by (simp add: groupParams_def Let_def split_on_none nth_append)
qed

lemma existing_group_token_witness:
  "groupParams (set_group_id (''array'' @ CHR ''-'' # ''7'') empty_vg) = [(ExistingGroupID, ''7'')]"
  using existing_group_token [of "''7''" "''array''" empty_vg] by simp

text \<open>C40: A specification with both a label and a name list is refused, but only after the status
  \<open>Pending\<close> has been written: when the write goes through and the group is read back as written,
  every later reconciliation fails with "status is pending", without writing anything.\<close>

lemma both_selectors_leave_pending:
  assumes "cl_GetVG (r_Client r) req (cluster w) = (Inr v, st)" and "deletion_is_zero v"
    and "status_Status (vg_Status v) \<notin> {EventStatusComplete, EventStatusPending}"
    and "spec_PvcLabel (vg_Spec v) \<noteq> []" and "spec_PvcList (vg_Spec v) = Some names"
    and "cl_StatusUpdateVG (r_Client r) (set_status EventStatusPending v) st =
      (Inr (set_status EventStatusPending v), st')"
    and "cl_GetVG (r_Client r) req st' = (Inr (set_status EventStatusPending v), st')"
  shows "(case run_state (reconcile r req) w of (x, w') \<Rightarrow>
       x = Ret (Some (bothGivenError (set_status EventStatusPending v) names)) \<and> cluster w' = st'
       \<and> fst (run_state (reconcile r req) w') = Ret (Some pendingError)
       \<and> cluster (snd (run_state (reconcile r req) w')) = st')"
  using assms
  by (simp add: reconcile_def reconcileCreate_def createChecked_def getVG_def statusUpdateVG_def
      run_call Let_def deletion_is_zero_def)

definition both_group :: vg where
  "both_group = example_group\<lparr>vg_Spec := empty_spec\<lparr>spec_PvcLabel := ''app'',
     spec_PvcList := Some [''a'']\<rparr>, vg_Status := empty_status\<rparr>"

definition one_group_reconciler :: "vg reconciler" where
  "one_group_reconciler = example_reconciler ((failing_client (errorf ''down''))
     \<lparr>cl_GetVG := (\<lambda>k s. (Inr s, s)), cl_StatusUpdateVG := (\<lambda>u s. (Inr u, u))\<rparr>)"

lemma both_selectors_leave_pending_witness:
  "case run_state (reconcile one_group_reconciler (NN ''ns'' ''vg'')) (start both_group []) of (x, w') \<Rightarrow>
     x = Ret (Some (bothGivenError (set_status EventStatusPending both_group) [''a'']))
     \<and> cluster w' = set_status EventStatusPending both_group
     \<and> fst (run_state (reconcile one_group_reconciler (NN ''ns'' ''vg'')) w') = Ret (Some pendingError)
     \<and> cluster (snd (run_state (reconcile one_group_reconciler (NN ''ns'' ''vg'')) w'))
         = set_status EventStatusPending both_group"
  by (rule both_selectors_leave_pending [where st = both_group])
    (simp_all add: one_group_reconciler_def example_reconciler_def both_group_def example_group_def
      empty_vg_def empty_status_def empty_spec_def deletion_is_zero_def event_status_defs)

end
