(* ===== verification/Watch.thy ===== *)
theory Watch
  imports Reconcile "HOL-Library.Multiset"
begin

text \<open>
  The informer callbacks and the event filter. Source:
  \<^verbatim>\<open>controllers/dellcsivolumegroupsnapshot_controller.go\<close>. The informers themselves
  (\<open>snapWatch\<close>, \<open>snapContentWatch\<close>) are library code; an object they deliver is a snapshot, a
  content, or something else (a deletion whose final state was missed, for one).
\<close>

datatype watchobj = WSnap volsnap | WContent content | WOther

definition fmt_bool :: "bool \<Rightarrow> string" where
  "fmt_bool b = (if b then ''true'' else ''false'')"

definition bindContentToSnapshot ::
  "'s reconciler \<Rightarrow> string \<Rightarrow> string \<Rightarrow> string \<Rightarrow> ('s world, unit) state" where
  "bindContentToSnapshot r volumeSnapshotName vgNamespace vgName = do {
     res \<leftarrow> getSnap r (NN vgNamespace volumeSnapshotName);
     let vs = (case res of Inl _ \<Rightarrow> empty_snap | Inr x \<Rightarrow> x);
     (case res of
        Inl err \<Rightarrow> eventf (OnSnap (snap_key vs)) EventTypeWarning
          (''Failed to get newly created VolumeSnapshot '' @ volumeSnapshotName @ '' in vg ''
           @ vgName @ ''. error : '' @ errText err)
      | Inr _ \<Rightarrow> State_Monad.return ());
     eventf (OnSnap (snap_key vs)) EventTypeNormal
       (''Created VG Volumesnapshots in vg '' @ vgName @ '' with name: '' @ volumeSnapshotName)
   }"

definition handleSnapUpdate :: "'s reconciler \<Rightarrow> watchobj \<Rightarrow> ('s world, unit outcome) state" where
  "handleSnapUpdate r obj =
     (case obj of
        WSnap snap \<Rightarrow> do {
          let ns = vs_Namespace snap;
          let vgsName = snapshot_group snap;
          res \<leftarrow> getVG r (NN ns vgsName);
          (case res of
             Inl err \<Rightarrow> ret ()
           | Inr v \<Rightarrow>
               (case vs_Status snap of
                  Some st \<Rightarrow>
                    (case ss_ReadyToUse st of
                       None \<Rightarrow> panic
                     | Some status \<Rightarrow> do {
                         eventf (OnVG (vg_key v)) EventTypeNormal
                           (''snap '' @ vs_Name snap @ '' ReadyToUse='' @ fmt_bool status);
                         ret ()
                       })
                | None \<Rightarrow>
                    (case vs_SourceContentName snap of
                       None \<Rightarrow> panic
                     | Some contentName \<Rightarrow> do {
                         bindContentToSnapshot r (vs_Name snap) ns vgsName;
                         eventf (OnVG (vg_key v)) EventTypeNormal
                           (''upadate snapshot bind content '' @ contentName);
                         ret ()
                       })))
        }
      | _ \<Rightarrow> panic)"

definition handleSnapCreate :: "'s reconciler \<Rightarrow> watchobj \<Rightarrow> ('s world, unit outcome) state" where
  "handleSnapCreate r obj =
     (case obj of
        WSnap snap \<Rightarrow>
          if snapshot_group snap \<noteq> []
          then do {
            res \<leftarrow> getVG r (NN (vs_Namespace snap) (snapshot_group snap));
            let v = (case res of Inl _ \<Rightarrow> empty_vg | Inr x \<Rightarrow> x);
            (case (res, vs_Status snap) of
               (Inr _, Some st) \<Rightarrow>
                 (case ss_BoundContentName st of
                    None \<Rightarrow> panic
                  | Some _ \<Rightarrow> do {
                      eventf (OnVG (vg_key v)) EventTypeNormal (''create snap '' @ vs_Name snap);
                      ret ()
                    })
             | _ \<Rightarrow> do {
                 eventf (OnVG (vg_key v)) EventTypeNormal (''create snap '' @ vs_Name snap);
                 ret ()
               })
          }
          else ret ()
      | _ \<Rightarrow> ret ())"

text \<open>The group's member list without the first occurrence of a snapshot.\<close>

definition withoutSnapshot :: "string \<Rightarrow> string \<Rightarrow> string" where
  "withoutSnapshot snapName snapshots =
     join_with (CHR '','') (remove1 snapName (split_on (CHR '','') snapshots))"

definition set_snapshots :: "string \<Rightarrow> vg \<Rightarrow> vg" where
  "set_snapshots s v = v\<lparr>vg_Status := (vg_Status v)\<lparr>status_Snapshots := s\<rparr>\<rparr>"

lemma set_snapshots_simps [simp]:
  "vg_key (set_snapshots s v) = vg_key v"
  "deletion_is_zero (set_snapshots s v) = deletion_is_zero v"
  "status_Snapshots (vg_Status (set_snapshots s v)) = s"
  by (simp_all add: set_snapshots_def vg_key_def deletion_is_zero_def)

definition HandleSnapContentDelete ::
  "'s reconciler \<Rightarrow> watchobj \<Rightarrow> ('s world, unit) state" where
  "HandleSnapContentDelete r obj =
     (case obj of
        WContent content \<Rightarrow> do {
          let snapName = or_Name (vc_SnapshotRef content);
          let ns = or_Namespace (vc_SnapshotRef content);
          sres \<leftarrow> getSnap r (NN ns snapName);
          (case sres of
             Inl err \<Rightarrow> State_Monad.return ()
           | Inr snap \<Rightarrow>
               let vgsName = snapshot_group snap
               in if vgsName \<noteq> []
                  then do {
                    vres \<leftarrow> getVG r (NN ns vgsName);
                    (case vres of
                       Inl err \<Rightarrow> State_Monad.return ()
                     | Inr v \<Rightarrow> do {
                         let snapshotsString =
                           withoutSnapshot snapName (status_Snapshots (vg_Status v));
                         (v', _) \<leftarrow> statusUpdateVG r (set_snapshots snapshotsString v);
                         (if snapshotsString = []
                          then do { _ \<leftarrow> deleteVG r v'; State_Monad.return () }
                          else State_Monad.return ())
                       })
                  }
                  else State_Monad.return ())
        }
      | _ \<Rightarrow> State_Monad.return ())"

text \<open>\<open>ignoreUpdatePredicate\<close>: which update and delete events reach the work queue.\<close>

definition updateFunc :: "vg \<Rightarrow> vg \<Rightarrow> bool" where
  "updateFunc objectOld objectNew \<longleftrightarrow> vg_Generation objectOld \<noteq> vg_Generation objectNew"

definition deleteFunc :: "bool \<Rightarrow> bool" where
  "deleteFunc deleteStateUnknown \<longleftrightarrow> \<not> deleteStateUnknown"

section \<open>The member list as a code for a list of names\<close>

text \<open>
  The interface between the three parties that share the string \<open>status.Snapshots\<close>: the writer
  \<open>processResponse\<close>, the reader \<open>deleteVg\<close>, and \<open>HandleSnapContentDelete\<close>, which takes names
  out of it. What they need of the code is that it reads back, and that taking a name out keeps
  it readable until the last name has gone.
\<close>

locale member_codec =
  fixes enc :: "string list \<Rightarrow> string" and dec :: "string \<Rightarrow> string list"
    and ok :: "string list \<Rightarrow> bool"
  assumes dec_enc: "ok xs \<Longrightarrow> dec (enc xs) = xs"
    and enc_Nil: "enc [] = []"
    and enc_nonempty: "ok xs \<Longrightarrow> enc xs \<noteq> []"
    and ok_nonempty: "ok xs \<Longrightarrow> xs \<noteq> []"
    and ok_remove: "ok xs \<Longrightarrow> remove1 x xs \<noteq> [] \<Longrightarrow> ok (remove1 x xs)"
begin

definition remove_name :: "string \<Rightarrow> string \<Rightarrow> string" where
  "remove_name n s = enc (remove1 n (dec s))"

lemma remove_name_enc: "ok xs \<Longrightarrow> remove_name n (enc xs) = enc (remove1 n xs)"
  by (simp add: remove_name_def dec_enc)

lemma remove_name_empty_iff: "ok xs \<Longrightarrow> remove_name n (enc xs) = [] \<longleftrightarrow> xs = [n]"
proof -
  assume ok: "ok xs"
  have "enc (remove1 n xs) = [] \<longleftrightarrow> remove1 n xs = []"
    using ok_remove [OF ok] enc_nonempty enc_Nil by metis
  also have "remove1 n xs = [] \<longleftrightarrow> xs = [n]"
    using ok_nonempty [OF ok] by (cases xs) auto
  finally show ?thesis using remove_name_enc [OF ok] by simp
qed

lemma remove1_fold_Nil: "fold remove1 ns [] = []"
  by (induction ns) simp_all

lemma fold_remove_name:
  "ok xs \<Longrightarrow> fold remove1 ns xs \<noteq> [] \<Longrightarrow>
     ok (fold remove1 ns xs) \<and> fold remove_name ns (enc xs) = enc (fold remove1 ns xs)"
proof (induction ns arbitrary: xs)
  case (Cons n ns)
  then have "remove1 n xs \<noteq> []" using remove1_fold_Nil by (metis fold_simps(2))
  with Cons show ?case by (simp add: ok_remove remove_name_enc)
qed simp

lemma mset_fold_remove1: "mset (fold remove1 ns xs) = mset xs - mset ns"
  by (induction ns arbitrary: xs) simp_all

lemma fold_remove_all:
  assumes "ok xs" and "mset ns = mset xs"
  shows "fold remove_name ns (enc xs) = []"
proof -
  obtain ms n where ns: "ns = ms @ [n]"
    using assms ok_nonempty by (cases ns rule: rev_cases) auto
  have "mset (fold remove1 ms xs) = {#n#}"
    using assms(2) ns by (simp add: mset_fold_remove1 flip: assms(2))
  then have one: "fold remove1 ms xs = [n]" by simp
  with fold_remove_name [OF assms(1), of ms]
  have "ok [n]" "fold remove_name ms (enc xs) = enc [n]" by simp_all
  then show ?thesis by (simp add: ns remove_name_enc enc_Nil)
qed

end

definition member_list :: "string list \<Rightarrow> bool" where
  "member_list xs \<longleftrightarrow> xs \<noteq> [] \<and> list_all (\<lambda>x. x \<noteq> [] \<and> CHR '','' \<notin> set x) xs"

interpretation members: member_codec "join_with (CHR '','')" "split_on (CHR '','')" member_list
proof unfold_locales
  fix xs :: "string list" and x
  show "member_list xs \<Longrightarrow> split_on (CHR '','') (join_with (CHR '','') xs) = xs"
    by (auto simp: member_list_def list_all_iff intro!: split_join)
  show "member_list xs \<Longrightarrow> join_with (CHR '','') xs \<noteq> []"
    by (auto simp: member_list_def join_with_eq_Nil)
  show "member_list xs \<Longrightarrow> remove1 x xs \<noteq> [] \<Longrightarrow> member_list (remove1 x xs)"
    by (auto simp: member_list_def list_all_iff dest: notin_set_remove1)
qed (simp_all add: member_list_def)

lemma withoutSnapshot_remove: "withoutSnapshot = members.remove_name"
  by (auto simp: withoutSnapshot_def members.remove_name_def fun_eq_iff)

section \<open>Properties\<close>

text \<open>C26: The member list as the callbacks see it is the list of names: taking out the members one
  by one, in any order, leaves the written form of the names that remain as long as some do, and
  the empty string once all have gone.\<close>

lemma member_list_empties:
  assumes "member_list xs" and "mset ns \<subseteq># mset xs"
  shows "fold withoutSnapshot ns (join_with (CHR '','') xs) =
     (if mset ns = mset xs then [] else join_with (CHR '','') (fold remove1 ns xs))"
proof (cases "mset ns = mset xs")
  case True
  then show ?thesis
    using members.fold_remove_all [OF assms(1)] by (simp add: withoutSnapshot_remove)
next
  case False
  then have "mset (fold remove1 ns xs) \<noteq> {#}"
    using assms(2) by (auto simp: members.mset_fold_remove1 Diff_eq_empty_iff_mset
        dest: subset_mset.antisym)
  then have "fold remove1 ns xs \<noteq> []" by auto
  with False show ?thesis
    using members.fold_remove_name [OF assms(1)] by (simp add: withoutSnapshot_remove)
qed

lemma member_list_empties_witness:
  "fold withoutSnapshot [''b'', ''a''] ''a,b,c'' = ''c''
     \<and> fold withoutSnapshot [''c'', ''a'', ''b''] ''a,b,c'' = []"
  using member_list_empties [of "[''a'', ''b'', ''c'']" "[''b'', ''a'']"]
    member_list_empties [of "[''a'', ''b'', ''c'']" "[''c'', ''a'', ''b'']"]
  by (simp add: member_list_def)

text \<open>C24: What the callback for a deleted content does when its snapshot is still there, is labelled
  with a group, and the group exists: it sends the group's status with that snapshot taken out of
  the member list, and deletes the group exactly when the list is then empty, whether or not the
  status write succeeded.\<close>

lemma content_deleted_updates_group:
  assumes "cl_GetSnap (r_Client r) (NN (or_Namespace (vc_SnapshotRef c)) (or_Name (vc_SnapshotRef c)))
      (cluster w) = (Inr snap, st)"
    and "snapshot_group snap = g" and "g \<noteq> []"
    and "cl_GetVG (r_Client r) (NN (or_Namespace (vc_SnapshotRef c)) g) st = (Inr v, st')"
    and "rest = withoutSnapshot (or_Name (vc_SnapshotRef c)) (status_Snapshots (vg_Status v))"
    and "cl_StatusUpdateVG (r_Client r) (set_snapshots rest v) st' = (res, st'')"
    and "u = (case res of Inl _ \<Rightarrow> set_snapshots rest v | Inr v' \<Rightarrow> v')"
  shows "run_state (HandleSnapContentDelete r (WContent c)) w =
     ((), w\<lparr>cluster := (if rest = [] then snd (cl_DeleteVG (r_Client r) u st'') else st''),
       trace := trace w @
         [GetSnap (NN (or_Namespace (vc_SnapshotRef c)) (or_Name (vc_SnapshotRef c))),
          GetVG (NN (or_Namespace (vc_SnapshotRef c)) g), StatusUpdateVG (set_snapshots rest v)]
         @ (if rest = [] then [DeleteVG u] else [])\<rparr>)"
  using assms
  by (cases res)
    (simp_all add: HandleSnapContentDelete_def getSnap_def getVG_def statusUpdateVG_def deleteVG_def
      run_call Let_def)

definition watch_reconciler :: "volsnap \<Rightarrow> vg \<Rightarrow> unit reconciler" where
  "watch_reconciler x v = example_reconciler ((failing_client (errorf ''down''))
     \<lparr>cl_GetSnap := (\<lambda>k s. (Inr x, s)), cl_GetVG := (\<lambda>k s. (Inr v, s))\<rparr>)"

lemma content_deleted_updates_group_witness:
  "trace (snd (run_state (HandleSnapContentDelete (watch_reconciler example_snap
       (set_snapshots ''vg-a'' example_group)) (WContent example_content)) (start () [])))
   = [GetSnap (NN ''ns'' ''vg-a''), GetVG (NN ''ns'' ''vg''),
      StatusUpdateVG (set_snapshots [] example_group), DeleteVG (set_snapshots [] example_group)]"
  by (subst content_deleted_updates_group [where g = "''vg''" and snap = example_snap and st = "()"
        and st' = "()" and st'' = "()" and rest = "[]" and v = "set_snapshots ''vg-a'' example_group"
        and res = "Inl (errorf ''down'')" and u = "set_snapshots [] example_group"])
    (simp_all add: watch_reconciler_def example_reconciler_def failing_client_def example_content_def
      example_snap_def makeVolSnap_def snapshot_group_def map_get_def set_snapshots_def
      withoutSnapshot_def empty_ref_def)

text \<open>The callbacks for created and updated snapshots never change the cluster's objects: they read
  the group (and the snapshot) and record events, whatever object they are handed.\<close>

lemma snapshot_callbacks_only_observe:
  "emits r (\<lambda>e. is_read e \<or> is_event e) (handleSnapCreate r obj)
     \<and> emits r (\<lambda>e. is_read e \<or> is_event e) (handleSnapUpdate r obj)"
  unfolding handleSnapCreate_def handleSnapUpdate_def bindContentToSnapshot_def Let_def
  by (auto intro!: emits_intros split: watchobj.split sum.split option.split)

end
