(* ===== verification/ClusterContract.thy ===== *)
theory ClusterContract
  imports Watch
begin

text \<open>
  What the controller relies on from the API server, as an interface, and what it promises in
  return. The interface sees the server's state through two views: the custom resources by
  name and the snapshots by name. Its laws are those of a server that answers reads from its
  store and applies writes; every call may fail. The promises: a group's status is always one
  of the documented ones, and a group that is \<open>Complete\<close> and not being deleted carries the
  controller's finalizer; a deletion that reports success has removed every member.
\<close>

section \<open>Well-formed groups\<close>

definition good_group :: "vg \<Rightarrow> bool" where
  "good_group v \<longleftrightarrow>
     status_Status (vg_Status v) \<in> {[], EventStatusPending, EventStatusError, EventStatusComplete}
     \<and> (status_Status (vg_Status v) = EventStatusComplete \<and> deletion_is_zero v
          \<longrightarrow> FinalizerName \<in> set (vg_Finalizers v))"

text \<open>The server's copy of a group after a write: at most the generation differs.\<close>

definition same_group :: "vg \<Rightarrow> vg \<Rightarrow> bool" where
  "same_group v v' \<longleftrightarrow> (\<exists>g. v' = v\<lparr>vg_Generation := g\<rparr>)"

text \<open>Calls that may change what is stored of a group.\<close>

fun group_effect :: "effect \<Rightarrow> bool" where
  "group_effect (UpdateVG _) = True"
| "group_effect (StatusUpdateVG _) = True"
| "group_effect (DeleteVG _) = True"
| "group_effect _ = False"

lemma same_group_simps:
  assumes "same_group v v'"
  shows "vg_Status v' = vg_Status v" "vg_Finalizers v' = vg_Finalizers v"
    "vg_DeletionTimestamp v' = vg_DeletionTimestamp v" "deletion_is_zero v' = deletion_is_zero v"
    "vg_key v' = vg_key v" "good_group v' = good_group v"
  using assms by (auto simp: same_group_def deletion_is_zero_def vg_key_def good_group_def)

lemma same_group_refl [simp]: "same_group v v"
  by (auto simp: same_group_def intro!: exI [of _ "vg_Generation v"])

lemma good_set_status:
  "st \<in> {EventStatusPending, EventStatusError} \<Longrightarrow> good_group (set_status st v)"
  by (auto simp: good_group_def)

lemma good_with_finalizer:
  "FinalizerName \<in> set (vg_Finalizers v) \<Longrightarrow>
   status_Status (vg_Status v) \<in> {[], EventStatusPending, EventStatusError, EventStatusComplete} \<Longrightarrow>
     good_group v"
  by (auto simp: good_group_def)

section \<open>Invariants with a result\<close>

text \<open>\<open>m\<close> keeps the invariant, and its result satisfies \<open>Q\<close>.\<close>

definition safe :: "('w \<Rightarrow> bool) \<Rightarrow> ('a \<Rightarrow> bool) \<Rightarrow> ('w, 'a) state \<Rightarrow> bool" where
  "safe I Q m \<longleftrightarrow> triple I m (\<lambda>x w. I w \<and> Q x)"

named_theorems safe_intros \<open>rules that propagate an invariant through a program\<close>

lemma safe_keeps: "safe I Q m \<Longrightarrow> keeps I m"
  unfolding safe_def keeps_def by (erule triple_conseq) auto

lemma keeps_safe: "keeps I m \<Longrightarrow> safe I (\<lambda>_. True) m"
  unfolding safe_def keeps_def by (erule triple_conseq) auto

lemma safe_mono: "safe I P m \<Longrightarrow> (\<And>x. P x \<Longrightarrow> Q x) \<Longrightarrow> safe I Q m"
  unfolding safe_def by (erule triple_conseq) auto

lemma safe_return [safe_intros]: "Q v \<Longrightarrow> safe I Q (State_Monad.return v)"
  by (simp add: safe_def triple_return)

lemma safe_ret [safe_intros]: "Q (Ret v) \<Longrightarrow> safe I Q (ret v)"
  by (simp add: safe_def triple_ret)

lemma safe_bind:
  assumes "safe I P m" and "\<And>x. P x \<Longrightarrow> safe I Q (f x)"
  shows "safe I Q (State_Monad.bind m f)"
proof -
  have "triple (\<lambda>w. I w \<and> P x) (f x) (\<lambda>y w. I w \<and> Q y)" for x
    using assms(2) [of x] by (auto simp: safe_def triple_def)
  with assms(1) show ?thesis
    unfolding safe_def by (rule triple_bind)
qed

lemma safe_andThen:
  assumes "safe I (\<lambda>x. case x of Ret v \<Rightarrow> P v | _ \<Rightarrow> True) m"
    and "\<And>v. P v \<Longrightarrow> safe I Q (f v)" and "Q Panic" and "Q Hang"
  shows "safe I Q (andThen m f)"
  unfolding andThen_def
  by (rule safe_bind [OF assms(1)])
    (auto intro: assms safe_intros split: outcome.split outcome.splits)

text \<open>Sequencing when nothing is needed of the first result.\<close>

lemma safe_seq:
  "keeps I m \<Longrightarrow> (\<And>x. safe I Q (f x)) \<Longrightarrow> safe I Q (State_Monad.bind m f)"
  by (rule safe_bind [OF keeps_safe])

lemma safe_then:
  "keeps I m \<Longrightarrow> (\<And>x. safe I Q (f x)) \<Longrightarrow> Q Panic \<Longrightarrow> Q Hang \<Longrightarrow> safe I Q (andThen m f)"
  by (rule safe_andThen [where P = "\<lambda>_. True"])
    (auto intro: safe_mono [OF keeps_safe] split: outcome.split)

section \<open>Guarded writes\<close>

text \<open>One call as the world sees it.\<close>

definition did :: "'s reconciler \<Rightarrow> effect \<Rightarrow> 's world \<Rightarrow> 's world" where
  "did r e w = w\<lparr>cluster := apply_effect r e (cluster w), trace := trace w @ [e]\<rparr>"

lemma did_simps [simp]:
  "cluster (did r e w) = apply_effect r e (cluster w)" "trace (did r e w) = trace w @ [e]"
  by (simp_all add: did_def)

text \<open>
  What it takes for an invariant of the world (of its cluster, or of the calls made) to survive
  the controller: groups that are read are well formed, calls that leave groups alone and writes
  of well-formed groups keep the invariant, and a write hands back what was sent. Everything the
  controller does to groups is proved against this interface once; it is used below for the
  store of a server, and in \<open>Interleaving\<close> for the calls of one of many handlers.
\<close>

locale guarded =
  fixes r :: "'s reconciler" and I :: "'s world \<Rightarrow> bool"
  assumes quiet_call: "\<not> group_effect e \<Longrightarrow> I w \<Longrightarrow> I (did r e w)"
    and local_step: "I w \<Longrightarrow> cluster w' = cluster w \<Longrightarrow> trace w' = trace w \<Longrightarrow> I w'"
    and get_good: "I w \<Longrightarrow> fst (cl_GetVG (r_Client r) k (cluster w)) = Inr v \<Longrightarrow> good_group v"
    and write_good: "I w \<Longrightarrow> good_group v \<Longrightarrow> I (did r (UpdateVG v) w) \<and> I (did r (StatusUpdateVG v) w)"
    and delete_any: "I w \<Longrightarrow> I (did r (DeleteVG v) w)"
    and update_echo: "I w \<Longrightarrow> cl_UpdateVG (r_Client r) v (cluster w) = (Inr v', s') \<Longrightarrow> same_group v v'"
    and status_echo: "I w \<Longrightarrow> cl_StatusUpdateVG (r_Client r) v (cluster w) = (Inr v', s') \<Longrightarrow> same_group v v'"
    and adds_finalizer: "f \<in> set (r_AddFinalizer r fs f)"
begin

lemma replay_quiet:
  "\<forall>e \<in> set ts. \<not> group_effect e \<Longrightarrow> I w \<Longrightarrow>
     I (w\<lparr>cluster := replay r ts (cluster w), trace := trace w @ ts\<rparr>)"
proof (induction ts arbitrary: w)
  case (Cons e ts)
  then have "I (did r e w)" by (simp add: quiet_call)
  then have "I ((did r e w)\<lparr>cluster := replay r ts (cluster (did r e w)), trace := trace (did r e w) @ ts\<rparr>)"
    using Cons.prems(1) by (intro Cons.IH) simp_all
  moreover have "(did r e w)\<lparr>cluster := replay r ts (cluster (did r e w)), trace := trace (did r e w) @ ts\<rparr>
      = w\<lparr>cluster := replay r (e # ts) (cluster w), trace := trace w @ e # ts\<rparr>"
    by (simp add: did_def)
  ultimately show ?case by (simp only:)
next
  case Nil
  then show ?case by simp
qed

lemma keeps_quiet: "emits r (\<lambda>e. \<not> group_effect e) m \<Longrightarrow> keeps I m"
  unfolding keeps_def
proof (rule tripleI)
  fix w x w'
  assume "emits r (\<lambda>e. \<not> group_effect e) m" "I w" "run_state m w = (x, w')"
  then obtain ts where ts: "trace w' = trace w @ ts" "cluster w' = replay r ts (cluster w)"
    "\<forall>e \<in> set ts. \<not> group_effect e"
    by (blast dest: emitsD)
  show "I w'"
    by (rule local_step [OF replay_quiet [OF ts(3) \<open>I w\<close>]]) (simp_all add: ts(1,2))
qed

lemma safe_getVG [safe_intros]: "safe I (\<lambda>res. \<forall>v. res = Inr v \<longrightarrow> good_group v) (getVG r k)"
proof -
  have "keeps I (getVG r k)" by (rule keeps_quiet) (simp add: emits_intros)
  then show ?thesis
    by (auto simp: safe_def keeps_def triple_def getVG_def run_call dest: get_good)
qed

text \<open>The writes of a group keep the invariant when what they write is well formed; the
  object they hand back is the one sent, up to its generation.\<close>

lemma safe_write [safe_intros]:
  assumes v: "good_group v" and Q: "\<And>v' err. same_group v v' \<Longrightarrow> Q (v', err)"
  shows "safe I Q (updateVG r v)" "safe I Q (statusUpdateVG r v)"
proof -
  have Q': "(\<And>v'. res = Inr v' \<Longrightarrow> same_group v v') \<Longrightarrow>
      Q (case res of Inl e \<Rightarrow> (v, Some e) | Inr v' \<Rightarrow> (v', None))" for res
    by (auto intro: Q split: sum.split)
  show "safe I Q (updateVG r v)"
    unfolding safe_def
  proof (rule tripleI)
    fix w x w'
    assume w: "I w" and run: "run_state (updateVG r v) w = (x, w')"
    obtain res s' where u: "cl_UpdateVG (r_Client r) v (cluster w) = (res, s')" by force
    have "w' = did r (UpdateVG v) w" using run u by (auto simp: updateVG_def run_call did_def)
    moreover have "Q x" using run u update_echo [OF w] Q' [of res] by (auto simp: updateVG_def run_call)
    ultimately show "I w' \<and> Q x" using write_good [OF w v] by simp
  qed
  show "safe I Q (statusUpdateVG r v)"
    unfolding safe_def
  proof (rule tripleI)
    fix w x w'
    assume w: "I w" and run: "run_state (statusUpdateVG r v) w = (x, w')"
    obtain res s' where u: "cl_StatusUpdateVG (r_Client r) v (cluster w) = (res, s')" by force
    have "w' = did r (StatusUpdateVG v) w" using run u by (auto simp: statusUpdateVG_def run_call did_def)
    moreover have "Q x" using run u status_echo [OF w] Q' [of res] by (auto simp: statusUpdateVG_def run_call)
    ultimately show "I w' \<and> Q x" using write_good [OF w v] by simp
  qed
qed

end

section \<open>The interface\<close>

locale cluster_contract =
  fixes r :: "'s reconciler"
    and wf :: "'s \<Rightarrow> bool"
    and groups :: "'s \<Rightarrow> nname \<Rightarrow> vg option"
    and snaps :: "'s \<Rightarrow> nname \<Rightarrow> volsnap option"
  assumes wf_kept: "wf s \<Longrightarrow> wf (apply_effect r e s)"
    and reads: "wf s \<Longrightarrow> is_read e \<Longrightarrow> apply_effect r e s = s"
    and groups_kept: "wf s \<Longrightarrow> \<not> group_effect e \<Longrightarrow> groups (apply_effect r e s) = groups s"
    and snaps_kept: "wf s \<Longrightarrow> group_effect e \<Longrightarrow> snaps (apply_effect r e s) = snaps s"
    and get_group: "wf s \<Longrightarrow> fst (cl_GetVG (r_Client r) k s) = Inr v \<Longrightarrow>
      groups s k = Some v \<and> vg_key v = k"
    and get_snap: "wf s \<Longrightarrow> fst (cl_GetSnap (r_Client r) k s) = Inr x \<Longrightarrow>
      snaps s k = Some x \<and> snap_key x = k"
    and update_group: "wf s \<Longrightarrow> cl_UpdateVG (r_Client r) v s = (Inr v', s') \<Longrightarrow>
      same_group v v' \<and> (groups s' = (groups s)(vg_key v \<mapsto> v')
        \<or> \<not> deletion_is_zero v \<and> vg_Finalizers v = [] \<and> groups s' = (groups s)(vg_key v := None))"
    and update_group_fails: "wf s \<Longrightarrow> cl_UpdateVG (r_Client r) v s = (Inl err, s') \<Longrightarrow>
      groups s' = groups s"
    and status_group: "wf s \<Longrightarrow> cl_StatusUpdateVG (r_Client r) v s = (Inr v', s') \<Longrightarrow>
      same_group v v' \<and> groups s' = (groups s)(vg_key v \<mapsto> v')"
    and status_group_fails: "wf s \<Longrightarrow> cl_StatusUpdateVG (r_Client r) v s = (Inl err, s') \<Longrightarrow>
      groups s' = groups s"
    and delete_group: "wf s \<Longrightarrow> groups (apply_effect r (DeleteVG v) s) k = Some u \<Longrightarrow>
      groups s k = Some u
        \<or> (\<exists>u' t. groups s k = Some u' \<and> t \<noteq> ZeroTime \<and> u = u'\<lparr>vg_DeletionTimestamp := Some t\<rparr>)"
    and delete_snap: "wf s \<Longrightarrow> cl_DeleteSnap (r_Client r) x s = (Inr done, s') \<Longrightarrow>
      snaps s' = (snaps s)(snap_key x := None)"
    and delete_snap_fails: "wf s \<Longrightarrow> cl_DeleteSnap (r_Client r) x s = (Inl err, s') \<Longrightarrow>
      snaps s' = snaps s"
    and add_finalizer: "f \<in> set (r_AddFinalizer r fs f)"
    and remove_finalizer: "f \<notin> set (r_RemoveFinalizer r fs f)"
begin

definition all_good :: "'s \<Rightarrow> bool" where
  "all_good s \<longleftrightarrow> wf s \<and> (\<forall>k v. groups s k = Some v \<longrightarrow> good_group v)"

abbreviation good_world :: "'s world \<Rightarrow> bool" where
  "good_world w \<equiv> all_good (cluster w)"

lemma all_good_quiet: "\<not> group_effect e \<Longrightarrow> all_good s \<Longrightarrow> all_good (apply_effect r e s)"
  by (simp add: all_good_def wf_kept groups_kept)

lemma all_good_update:
  assumes "all_good s" and "good_group v"
  shows "all_good (apply_effect r (UpdateVG v) s)"
proof -
  obtain res s' where u: "cl_UpdateVG (r_Client r) v s = (res, s')" by force
  have "wf s'"
    using assms(1) u wf_kept [of s "UpdateVG v"] by (simp add: all_good_def)
  with assms u show ?thesis
    using update_group [of s v _ s'] update_group_fails [of s v _ s']
    by (cases res) (auto simp: all_good_def same_group_simps split: if_splits)
qed

lemma all_good_status:
  assumes "all_good s" and "good_group v"
  shows "all_good (apply_effect r (StatusUpdateVG v) s)"
proof -
  obtain res s' where u: "cl_StatusUpdateVG (r_Client r) v s = (res, s')" by force
  have "wf s'"
    using assms(1) u wf_kept [of s "StatusUpdateVG v"] by (simp add: all_good_def)
  with assms u show ?thesis
    using status_group [of s v _ s'] status_group_fails [of s v _ s']
    by (cases res) (auto simp: all_good_def same_group_simps split: if_splits)
qed

lemma all_good_delete:
  assumes "all_good s"
  shows "all_good (apply_effect r (DeleteVG v) s)"
proof -
  have wf: "wf s" and good: "\<And>k u. groups s k = Some u \<Longrightarrow> good_group u"
    using assms by (simp_all add: all_good_def)
  have "good_group (u\<lparr>vg_DeletionTimestamp := Some t\<rparr>)" if "good_group u" "t \<noteq> ZeroTime" for u t
    using that by (simp add: good_group_def deletion_is_zero_def)
  with wf good wf_kept [OF wf, of "DeleteVG v"] show ?thesis
    unfolding all_good_def by (blast dest: delete_group [OF wf])
qed

end

section \<open>What the controller promises\<close>

lemma member_effect_quiet: "member_effect e \<Longrightarrow> \<not> group_effect e"
  by (cases e) auto

text \<open>A group that carries the finalizer already.\<close>

definition protected :: "vg \<Rightarrow> bool" where
  "protected v \<longleftrightarrow> good_group v \<and> FinalizerName \<in> set (vg_Finalizers v)"

lemma protected_same: "same_group v v' \<Longrightarrow> protected v \<Longrightarrow> protected v'"
  by (simp add: protected_def same_group_simps)

lemma protected_good: "protected v \<Longrightarrow> good_group v"
  by (simp add: protected_def)

lemma protected_status:
  "protected v \<Longrightarrow> status_Status st \<in> {EventStatusError, EventStatusComplete} \<Longrightarrow>
     protected (v\<lparr>vg_Status := st\<rparr>)"
  by (auto simp: protected_def intro!: good_with_finalizer)

lemma protected_group_id: "protected v \<Longrightarrow> protected (set_group_id g v)"
  by (auto simp: protected_def good_group_def set_group_id_def deletion_is_zero_def)

lemma protected_add:
  "good_group v \<Longrightarrow> FinalizerName \<in> set fs \<Longrightarrow> protected (v\<lparr>vg_Finalizers := fs\<rparr>)"
  by (auto simp: protected_def good_group_def)

context guarded
begin

lemma keeps_events [safe_intros]: "keeps I (eventf obj ty msg)"
  by (rule keeps_quiet) (simp add: emits_intros)

lemma keeps_reads [safe_intros]:
  "keeps I (getClass r k)" "keeps I (getSnap r k)"
  "keeps I (createVGS r n ids ps)" "keeps I (deleteSnap r x)"
  "keeps I (findSources r v)" "keeps I resetFailed"
  "keeps I (emit StartSnapWatch)" "keeps I (checkSnapshotStatus r ns names t)"
  by (rule keeps_quiet, auto simp: findSources_def intro!: emits_intros split: option.split)+

lemma keeps_members [safe_intros]: "keeps I (processSnapshots r vm v sc names errs ss)"
  by (rule keeps_quiet) (rule emits_processSnapshots [THEN emits_mono, OF member_effect_quiet])

lemma keeps_event_if [safe_intros]:
  "keeps I (if b then eventf obj ty msg else State_Monad.return ())"
  by (simp add: keeps_events keeps_return)

lemma keeps_event_option [safe_intros]:
  "keeps I (case x of None \<Rightarrow> State_Monad.return () | Some e \<Rightarrow> eventf obj ty (msg e))"
  by (simp add: keeps_events keeps_return split: option.split)

text \<open>The status write at the end of \<open>processResponse\<close>, and what comes after it.\<close>

lemma safe_final_status:
  assumes "protected v" and "\<And>v' err. keeps I (k v' err)"
    and "\<And>v' err. protected v' \<Longrightarrow> Q (Ret (v', f err))"
  shows "safe I Q
     (do { (v', err) \<leftarrow> statusUpdateVG r (v\<lparr>vg_Status := responseStatus res names ok\<rparr>);
           k v' err; ret (v', f err) })"
proof -
  have p: "protected (v\<lparr>vg_Status := responseStatus res names ok\<rparr>)"
    using assms(1) by (rule protected_status) simp
  show ?thesis
    by (rule safe_bind [where P = "\<lambda>(v', err). protected v'"])
      (auto intro!: safe_write(2) safe_seq safe_intros assms(2,3)
        intro: protected_good [OF p] protected_same [OF _ p])
qed

lemma safe_processResponse:
  assumes "protected v"
  shows "safe I (\<lambda>x. case x of Ret y \<Rightarrow> protected (fst y) | _ \<Rightarrow> True)
     (processResponse r res vm v sc groupName)"
  unfolding processResponse_def Let_def
  apply (rule safe_seq, rule safe_intros)+
  apply (rule safe_then, rule safe_intros)
    apply (simp only: split_def)
    apply (rule safe_then, rule safe_intros)
      apply (rule safe_seq, rule safe_intros)+
      apply (rule safe_final_status [unfolded split_def, OF assms, rule_format])
       apply (rule safe_intros)
      apply simp_all
  done

lemma safe_ensureFinalizer:
  assumes "good_group v"
  shows "safe I (\<lambda>(v', err). protected v') (ensureFinalizer r v)"
proof -
  have p: "protected (v\<lparr>vg_Finalizers := r_AddFinalizer r (vg_Finalizers v) FinalizerName\<rparr>)"
    using assms adds_finalizer by (rule protected_add)
  show ?thesis
    unfolding ensureFinalizer_def
    using assms p
    by (auto intro!: safe_intros protected_good elim: protected_same simp: protected_def [of v])
qed

lemma safe_recordGroupID:
  assumes "protected v"
  shows "safe I (\<lambda>(v', err). protected v') (recordGroupID r v res)"
  unfolding recordGroupID_def
  using assms protected_group_id [OF assms, of "res_SnapshotGroupID res"]
  by (auto intro!: safe_intros protected_good elim: protected_same)

lemma safe_status_then:
  "good_group v \<Longrightarrow> (\<And>v' err. same_group v v' \<Longrightarrow> safe I Q (f (v', err))) \<Longrightarrow>
     safe I Q (State_Monad.bind (statusUpdateVG r v) f)"
  by (rule safe_bind [where P = "\<lambda>x. same_group v (fst x)"])
    (auto intro!: safe_write(2))

lemma safe_failCreate: "good_group v \<Longrightarrow> safe I (\<lambda>_. True) (failCreate r v msg err)"
  unfolding failCreate_def
  by (rule safe_status_then) (auto intro!: safe_seq safe_intros good_set_status)

lemma safe_finishCreate:
  assumes "good_group v"
  shows "safe I (\<lambda>_. True) (finishCreate r req v sc vm res)"
proof -
  have tail: "safe I (\<lambda>_. True)
      (do { (v4, sErr) \<leftarrow> statusUpdateVG r v3;
            (case sErr of
               Some err \<Rightarrow> do { eventf (OnVG (vg_key v4)) EventTypeWarning (m1 err); ret (Some err) }
             | None \<Rightarrow> (case pErr of
                  Some err \<Rightarrow> ret (Some err)
                | None \<Rightarrow> do { eventf (OnVG (vg_key v4)) EventTypeNormal m2; ret None })) })"
    if "protected v3" for v3 pErr m1 m2
    by (rule safe_status_then [OF protected_good [OF that]])
      (auto intro!: safe_seq safe_intros split: option.split)
  have finish: "safe I (\<lambda>_. True)
      (andThen (processResponse r res vm v2 sc g) (\<lambda>(v3, pErr). do {
         (v4, sErr) \<leftarrow> statusUpdateVG r v3;
         (case sErr of
            Some err \<Rightarrow> do { eventf (OnVG (vg_key v4)) EventTypeWarning (m1 err); ret (Some err) }
          | None \<Rightarrow> (case pErr of
               Some err \<Rightarrow> ret (Some err)
             | None \<Rightarrow> do { eventf (OnVG (vg_key v4)) EventTypeNormal m2; ret None })) }))"
    if "protected v2" for v2 g m1 m2
    by (rule safe_andThen [OF safe_processResponse [OF that]]) (auto intro: tail)
  show ?thesis
    unfolding finishCreate_def Let_def
    by (rule safe_seq, rule safe_intros, rule safe_bind [OF safe_ensureFinalizer [OF assms]])
      (auto intro!: safe_intros finish safe_bind [OF safe_recordGroupID] split: option.split)
qed

lemma safe_createGroup:
  "good_group v \<Longrightarrow> safe I (\<lambda>_. True) (createGroup r req v sc ids vm)"
  unfolding createGroup_def Let_def
  by (rule safe_seq, rule safe_intros)
    (auto intro: safe_failCreate safe_finishCreate split: sum.split)

lemma safe_createChecked:
  assumes "good_group v"
  shows "safe I (\<lambda>_. True) (createChecked r req v)"
  unfolding createChecked_def createFromClass_def
  using safe_failCreate [OF assms] safe_createGroup [OF assms]
  by (auto intro!: safe_seq safe_then safe_intros split: option.split sum.split bool.split)

lemma safe_deleteLoop: "safe I (\<lambda>_. True) (deleteLoop r v names)"
  by (induction names) (auto intro!: safe_seq safe_intros split: sum.split)

lemma safe_dropFinalizer:
  assumes "good_group v" and "\<not> deletion_is_zero v"
  shows "safe I (\<lambda>_. True) (dropFinalizer r v)"
proof -
  have "good_group (v\<lparr>vg_Finalizers := fs\<rparr>)" for fs
    using assms by (simp add: good_group_def deletion_is_zero_def)
  then show ?thesis
    unfolding dropFinalizer_def split_def
    by (auto intro!: safe_bind [where P = "\<lambda>_. True"] safe_intros)
qed

lemma safe_deleteVg:
  assumes "good_group v" and "\<not> deletion_is_zero v"
  shows "safe I (\<lambda>_. True) (deleteVg r v)"
  unfolding deleteVg_def Let_def
  by (auto intro!: safe_seq [OF keeps_reads(1)] safe_bind [OF safe_deleteLoop] safe_intros
      safe_dropFinalizer [OF assms] split: sum.split option.split)

text \<open>The reconciliation keeps every group well formed, whatever calls fail.\<close>

lemma reconcile_keeps_good: "keeps I (reconcile r req)"
proof (rule safe_keeps)
  have create: "safe I (\<lambda>_. True) (reconcileCreate r req v)" for v
    unfolding reconcileCreate_def
    by (rule safe_status_then)
      (auto intro!: safe_createChecked good_set_status simp: same_group_simps)
  show "safe I (\<lambda>_. True) (reconcile r req)"
    unfolding reconcile_def
    by (rule safe_bind [OF safe_getVG])
      (auto simp: Let_def intro!: safe_intros create safe_seq [OF keeps_events]
        safe_bind [OF safe_deleteVg] split: sum.split)
qed

text \<open>So does the callback for a deleted content.\<close>

lemma contentDelete_keeps_good: "keeps I (HandleSnapContentDelete r obj)"
proof (rule safe_keeps)
  have good: "good_group v \<Longrightarrow> good_group (set_snapshots names v)" for names v
    by (simp add: good_group_def set_snapshots_def deletion_is_zero_def)
  have del: "keeps I (deleteVG r v)" for v
    unfolding keeps_def using delete_any
    by (auto intro!: tripleI simp: deleteVG_def run_call did_def)
  have tail: "safe I (\<lambda>_. True)
      (do { (v', _) \<leftarrow> statusUpdateVG r (set_snapshots names v);
            (if names = [] then do { _ \<leftarrow> deleteVG r v'; State_Monad.return () }
             else State_Monad.return ()) })" if "good_group v" for names v
    by (rule safe_status_then) (auto intro!: safe_intros good that safe_seq [OF del])
  show "safe I (\<lambda>_. True) (HandleSnapContentDelete r obj)"
    unfolding HandleSnapContentDelete_def
    by (auto simp: Let_def intro!: safe_seq [OF keeps_reads(2)] safe_bind [OF safe_getVG] tail
        safe_intros split: watchobj.split sum.split)
qed

text \<open>The callbacks for snapshots write no group.\<close>

lemma snapshot_callbacks_keep_good:
  "keeps I (handleSnapCreate r obj)" "keeps I (handleSnapUpdate r obj)"
  by (rule keeps_quiet; auto simp: handleSnapCreate_def handleSnapUpdate_def
      bindContentToSnapshot_def Let_def intro!: emits_intros
      split: watchobj.split sum.split option.split)+

end

text \<open>A server's store is such an invariant.\<close>

sublocale cluster_contract \<subseteq> guarded r good_world
proof unfold_locales
  fix e w w' k v v' s' f fs
  show "\<not> group_effect e \<Longrightarrow> good_world w \<Longrightarrow> good_world (did r e w)"
    by (simp add: all_good_quiet)
  show "good_world w \<Longrightarrow> cluster w' = cluster w \<Longrightarrow> trace w' = trace w \<Longrightarrow> good_world w'"
    by simp
  show "good_world w \<Longrightarrow> fst (cl_GetVG (r_Client r) k (cluster w)) = Inr v \<Longrightarrow> good_group v"
    by (auto simp: all_good_def dest: get_group)
  show "good_world w \<Longrightarrow> good_group v \<Longrightarrow>
      good_world (did r (UpdateVG v) w) \<and> good_world (did r (StatusUpdateVG v) w)"
    unfolding did_simps by (blast intro: all_good_update all_good_status)
  show "good_world w \<Longrightarrow> good_world (did r (DeleteVG v) w)"
    unfolding did_simps by (rule all_good_delete)
  show "good_world w \<Longrightarrow> cl_UpdateVG (r_Client r) v (cluster w) = (Inr v', s') \<Longrightarrow> same_group v v'"
    by (auto simp: all_good_def dest: update_group)
  show "good_world w \<Longrightarrow> cl_StatusUpdateVG (r_Client r) v (cluster w) = (Inr v', s') \<Longrightarrow> same_group v v'"
    by (auto simp: all_good_def dest: status_group)
  show "f \<in> set (r_AddFinalizer r fs f)" by (rule add_finalizer)
qed

section \<open>Deletion against the store\<close>

text \<open>What deletion is to do: the listed snapshots of the namespace go, the finalizer goes.\<close>

definition without_members ::
  "string \<Rightarrow> string list \<Rightarrow> (nname \<Rightarrow> volsnap option) \<Rightarrow> nname \<Rightarrow> volsnap option" where
  "without_members ns names m =
     (\<lambda>k. if nnNamespace k = ns \<and> nnName k \<in> set names then None else m k)"

definition member_names :: "vg \<Rightarrow> string list" where
  "member_names v = split_on (CHR '','') (status_Snapshots (vg_Status v))"

definition released :: "vg option \<Rightarrow> bool" where
  "released stored \<longleftrightarrow>
     (case stored of None \<Rightarrow> True | Some u \<Rightarrow> FinalizerName \<notin> set (vg_Finalizers u))"

lemma without_members_simps [simp]:
  "without_members ns [] m = m"
  "without_members ns (n # names) m = without_members ns names (m(NN ns n := None))"
  by (auto simp: without_members_def fun_eq_iff)

lemma without_members_other: "m (NN ns n) = None \<Longrightarrow>
     without_members ns (n # names) m = without_members ns names m"
  by (simp add: fun_upd_idem)

context cluster_contract
begin

text \<open>Dropping the finalizer: on success the stored group is released, on failure unchanged.\<close>

lemma run_dropFinalizer:
  assumes "wf (cluster w)" and "run_state (dropFinalizer r v) w = (err, w')"
  shows "snaps (cluster w') = snaps (cluster w)
     \<and> (case err of Some _ \<Rightarrow> groups (cluster w') = groups (cluster w)
        | None \<Rightarrow> released (groups (cluster w') (vg_key v))
            \<and> (\<forall>k. k \<noteq> vg_key v \<longrightarrow> groups (cluster w') k = groups (cluster w) k))"
proof -
  let ?v = "v\<lparr>vg_Finalizers := r_RemoveFinalizer r (vg_Finalizers v) FinalizerName\<rparr>"
  obtain res s' where u: "cl_UpdateVG (r_Client r) ?v (cluster w) = (res, s')" by force
  have key: "vg_key ?v = vg_key v" by (simp add: vg_key_def)
  have "snaps s' = snaps (cluster w)"
    using snaps_kept [OF assms(1), of "UpdateVG ?v"] u by simp
  with assms u show ?thesis
    using update_group [OF assms(1), of ?v _ s'] update_group_fails [OF assms(1), of ?v _ s']
      remove_finalizer
    by (cases res)
      (auto simp: dropFinalizer_def updateVG_def run_call released_def key same_group_simps
        split: option.split)
qed

text \<open>A loop that stops with an error has left every group as it was.\<close>

lemma deleteLoop_groups:
  assumes "wf (cluster w)" and "run_state (deleteLoop r v names) w = (err, w')"
  shows "wf (cluster w') \<and> groups (cluster w') = groups (cluster w)"
proof -
  obtain ts where "cluster w' = replay r ts (cluster w)" and q: "\<forall>e \<in> set ts. \<not> group_effect e"
    using emitsD [of r "\<lambda>e. \<not> group_effect e" "deleteLoop r v names", OF _ assms(2)]
      emits_deleteLoop [of "\<lambda>e. \<not> group_effect e"] by auto
  moreover have "\<forall>e \<in> set ts. \<not> group_effect e \<Longrightarrow> wf s \<Longrightarrow>
      wf (replay r ts s) \<and> groups (replay r ts s) = groups s" for s
    by (induction ts arbitrary: s) (auto simp: wf_kept groups_kept)
  ultimately show ?thesis using assms(1) by simp
qed

lemma run_getVG:
  "wf (cluster w) \<Longrightarrow> run_state (getVG r k) w =
     (fst (cl_GetVG (r_Client r) k (cluster w)), w\<lparr>trace := trace w @ [GetVG k]\<rparr>)"
  using reads [of "cluster w" "GetVG k"] by (simp add: getVG_def run_call)

lemma run_getClass:
  "wf (cluster w) \<Longrightarrow> run_state (getClass r k) w =
     (fst (cl_GetClass (r_Client r) k (cluster w)), w\<lparr>trace := trace w @ [GetClass k]\<rparr>)"
  using reads [of "cluster w" "GetClass k"] by (simp add: getClass_def run_call)

text \<open>\<open>deleteVg\<close> once the class has been read.\<close>

definition delete_by_policy :: "vg \<Rightarrow> vsclass \<Rightarrow> ('s world, error option) state" where
  "delete_by_policy v vsc =
     (if sc_DeletionPolicy vsc = VolumeSnapshotContentDelete
      then do {
        derr \<leftarrow> deleteLoop r v (member_names v);
        (case derr of Some err \<Rightarrow> State_Monad.return (Some err) | None \<Rightarrow> dropFinalizer r v)
      }
      else if sc_DeletionPolicy vsc = VolumeSnapshotContentRetain then dropFinalizer r v
      else State_Monad.return None)"

lemma deleteVg_class:
  assumes "wf (cluster w)"
    and "fst (cl_GetClass (r_Client r) (NN [] (spec_Volumesnapshotclass (vg_Spec v))) (cluster w))
      = Inr sc"
  shows "\<exists>w1. cluster w1 = cluster w \<and>
     run_state (deleteVg r v) w = run_state (delete_by_policy v sc) w1"
  using assms(2)
  by (intro exI [of _ "w\<lparr>trace := trace w @ [GetClass (NN [] (spec_Volumesnapshotclass (vg_Spec v)))]\<rparr>"])
    (simp add: deleteVg_def delete_by_policy_def run_getClass [OF assms(1)] member_names_def Let_def)

lemma delete_by_policy_fails:
  assumes wf: "wf (cluster w)" and run: "run_state (delete_by_policy v sc) w = (Some err, w')"
  shows "groups (cluster w') = groups (cluster w)"
proof (cases "sc_DeletionPolicy sc = VolumeSnapshotContentDelete")
  case True
  obtain derr w1 where d: "run_state (deleteLoop r v (member_names v)) w = (derr, w1)" by force
  have w1: "wf (cluster w1)" "groups (cluster w1) = groups (cluster w)"
    using deleteLoop_groups [OF wf d] by simp_all
  show ?thesis
  proof (cases derr)
    case None
    with True d run have "run_state (dropFinalizer r v) w1 = (Some err, w')"
      by (simp add: delete_by_policy_def)
    from run_dropFinalizer [OF w1(1) this] w1(2) show ?thesis by simp
  next
    case (Some e)
    with True d run w1(2) show ?thesis by (simp add: delete_by_policy_def)
  qed
next
  case False
  with run have "run_state (dropFinalizer r v) w = (Some err, w')"
    by (simp add: delete_by_policy_def split: if_splits)
  from run_dropFinalizer [OF wf this] show ?thesis by simp
qed

lemma deleteVg_fails:
  assumes wf: "wf (cluster w)" and run: "run_state (deleteVg r v) w = (Some err, w')"
  shows "groups (cluster w') = groups (cluster w)"
proof (cases "fst (cl_GetClass (r_Client r) (NN [] (spec_Volumesnapshotclass (vg_Spec v))) (cluster w))")
  case (Inl e)
  with run show ?thesis by (auto simp: deleteVg_def Let_def run_getClass [OF wf])
next
  case (Inr sc)
  then obtain w1 where "cluster w1 = cluster w"
    and "run_state (deleteVg r v) w = run_state (delete_by_policy v sc) w1"
    using deleteVg_class [OF wf] by blast
  with wf run delete_by_policy_fails [of w1 v sc err w'] show ?thesis by simp
qed

text \<open>A deletion that reports an error leaves the stored group, finalizer included.\<close>

lemma reconcile_deletion_fails:
  assumes wf: "wf (cluster w)" and v: "fst (cl_GetVG (r_Client r) req (cluster w)) = Inr v"
    and del: "\<not> deletion_is_zero v" and run: "run_state (reconcile r req) w = (Ret (Some err), w')"
  shows "groups (cluster w') = groups (cluster w)"
proof (cases "status_Status (vg_Status v) = EventStatusComplete
    \<and> containString (vg_Finalizers v) FinalizerName")
  case True
  with v del run have "run_state (deleteVg r v) (w\<lparr>trace := trace w @ [GetVG req]\<rparr>) = (Some err, w')"
    by (auto simp: reconcile_def Let_def run_getVG [OF wf] split: prod.splits)
  then show ?thesis
    using deleteVg_fails [of "w\<lparr>trace := trace w @ [GetVG req]\<rparr>"] wf by simp
next
  case False
  with v del run show ?thesis
    by (auto simp: reconcile_def Let_def run_getVG [OF wf])
qed

end

locale reliable_cluster = cluster_contract +
  assumes get_snap_fails: "wf s \<Longrightarrow> fst (cl_GetSnap (r_Client r) k s) = Inl err \<Longrightarrow> snaps s k = None"
begin

lemma run_deleteLoop:
  assumes "wf (cluster w)" and "run_state (deleteLoop r v names) w = (None, w')"
  shows "snaps (cluster w') = without_members (vg_Namespace v) names (snaps (cluster w))"
  using assms
proof (induction names arbitrary: w)
  case Nil
  then show ?case by simp
next
  case (Cons n names)
  let ?k = "NN (vg_Namespace v) n"
  let ?w1 = "snd (run_state (getSnap r ?k) w)"
  have wf1: "wf (cluster ?w1)" and s1: "snaps (cluster ?w1) = snaps (cluster w)"
    using Cons.prems(1) reads [OF Cons.prems(1), of "GetSnap ?k"]
    by (simp_all add: getSnap_def run_call)
  show ?case
  proof (cases "fst (cl_GetSnap (r_Client r) ?k (cluster w))")
    case (Inl err)
    then have "snaps (cluster w) ?k = None"
      using get_snap_fails Cons.prems(1) by blast
    moreover have "run_state (deleteLoop r v names) ?w1 = (None, w')"
      using Cons.prems(2) Inl by (simp add: getSnap_def run_call)
    ultimately show ?thesis
      using Cons.IH [OF wf1] s1 by (simp add: without_members_other del: without_members_simps)
  next
    case (Inr x)
    let ?w2 = "snd (run_state (deleteSnap r x) ?w1)"
    have key: "snap_key x = ?k"
      using get_snap Cons.prems(1) Inr by blast
    obtain res s' where d: "cl_DeleteSnap (r_Client r) x (cluster ?w1) = (res, s')" by force
    have wf2: "wf (cluster ?w2)"
      using wf_kept [OF wf1, of "DeleteSnap x"] by (simp add: deleteSnap_def run_call)
    from Cons.prems(2) Inr d have ok: "res = Inr ()"
      and rest: "run_state (deleteLoop r v names) ?w2 = (None, w')"
      by (auto simp: getSnap_def deleteSnap_def run_call split: sum.splits prod.splits)
    have "snaps (cluster ?w2) = (snaps (cluster w))(?k := None)"
      using delete_snap [OF wf1 d [unfolded ok]] d s1 key by (simp add: deleteSnap_def run_call)
    with Cons.IH [OF wf2 rest] show ?thesis by (simp add: fun_upd_def)
  qed
qed

lemma run_delete_by_policy:
  assumes wf: "wf (cluster w)" and run: "run_state (delete_by_policy v sc) w = (None, w')"
    and policy: "sc_DeletionPolicy sc \<in> {VolumeSnapshotContentDelete, VolumeSnapshotContentRetain}"
  shows "snaps (cluster w') =
      (if sc_DeletionPolicy sc = VolumeSnapshotContentDelete
       then without_members (vg_Namespace v) (member_names v) (snaps (cluster w))
       else snaps (cluster w))
    \<and> released (groups (cluster w') (vg_key v))"
proof (cases "sc_DeletionPolicy sc = VolumeSnapshotContentDelete")
  case True
  with run obtain w1 where d: "run_state (deleteLoop r v (member_names v)) w = (None, w1)"
    and f: "run_state (dropFinalizer r v) w1 = (None, w')"
    by (auto simp: delete_by_policy_def split: prod.splits option.splits)
  from deleteLoop_groups [OF wf d] have wf1: "wf (cluster w1)" by simp
  show ?thesis
    using run_deleteLoop [OF wf d] run_dropFinalizer [OF wf1 f] True by simp
next
  case False
  with policy run have f: "run_state (dropFinalizer r v) w = (None, w')"
    by (simp add: delete_by_policy_def)
  show ?thesis
    using run_dropFinalizer [OF wf f] False by simp
qed

text \<open>A deletion that reports success has done what deletion is to do.\<close>

lemma reconcile_deletes:
  assumes wf: "wf (cluster w)" and v: "fst (cl_GetVG (r_Client r) req (cluster w)) = Inr v"
    and del: "\<not> deletion_is_zero v" and run: "run_state (reconcile r req) w = (Ret None, w')"
    and sc: "fst (cl_GetClass (r_Client r) (NN [] (spec_Volumesnapshotclass (vg_Spec v))) (cluster w))
      = Inr sc"
    and policy: "sc_DeletionPolicy sc \<in> {VolumeSnapshotContentDelete, VolumeSnapshotContentRetain}"
  shows "snaps (cluster w') =
      (if sc_DeletionPolicy sc = VolumeSnapshotContentDelete
       then without_members (nnNamespace req) (member_names v) (snaps (cluster w))
       else snaps (cluster w))
    \<and> released (groups (cluster w') req)"
proof -
  have key: "vg_key v = req"
    using get_group [OF wf v] by simp
  then have ns: "vg_Namespace v = nnNamespace req"
    by (auto simp: vg_key_def)
  let ?w = "w\<lparr>trace := trace w @ [GetVG req]\<rparr>"
  have d: "run_state (deleteVg r v) ?w = (None, w')"
    using v del run
    by (auto simp: reconcile_def Let_def run_getVG [OF wf] split: prod.splits if_splits)
  obtain w1 where c1: "cluster w1 = cluster w"
    and r1: "run_state (deleteVg r v) ?w = run_state (delete_by_policy v sc) w1"
    using deleteVg_class [of ?w v sc] wf sc by auto
  show ?thesis
    using run_delete_by_policy [of w1 v sc w'] wf policy key ns c1 r1 d by simp
qed

end

section \<open>Creation against the store\<close>

text \<open>What a creation is to leave behind: a group with the finalizer whose status is the one
  \<open>processResponse\<close> computes from the driver's answer.\<close>

definition records_answer :: "vgsresponse \<Rightarrow> volmap \<Rightarrow> vg \<Rightarrow> vg \<Rightarrow> bool" where
  "records_answer res vm v u \<longleftrightarrow> FinalizerName \<in> set (vg_Finalizers u)
     \<and> vg_Status u = responseStatus res
         (concat (map (\<lambda>s. memberName v vm s @ '','') (res_Snapshots res)))
         (status_ReadyToUse (vg_Status u))"

lemma memberName_key: "vg_key v = vg_key v' \<Longrightarrow> memberName v = memberName v'"
  by (auto simp: memberName_def vg_key_def fun_eq_iff Let_def)

lemma same_group_trans: "same_group a b \<Longrightarrow> same_group b c \<Longrightarrow> same_group a c"
  by (auto simp: same_group_def)

text \<open>The group \<open>processResponse\<close> hands back when it reports no error.\<close>

lemma emits_any: "emits r A m \<Longrightarrow> emits r (\<lambda>_. True) m"
  by (erule emits_mono) simp

context cluster_contract
begin

lemma wf_run:
  assumes "emits r A m" and "run_state m w = (x, w')" and "wf (cluster w)"
  shows "wf (cluster w')"
proof -
  obtain ts where "cluster w' = replay r ts (cluster w)"
    using emitsD [OF assms(1,2)] by blast
  moreover have "wf s \<Longrightarrow> wf (replay r ts s)" for s
    by (induction ts arbitrary: s) (auto intro: wf_kept)
  ultimately show ?thesis using assms(3) by simp
qed

lemma run_updateVG:
  assumes "wf (cluster w)" and "run_state (updateVG r v) w = ((v', None), w')"
  shows "same_group v v' \<and> wf (cluster w')"
  using assms wf_kept [OF assms(1), of "UpdateVG v"]
    update_group [OF assms(1), of v v' "cluster w'"]
  by (auto simp: updateVG_def run_call prod_eq_iff split: sum.splits)

lemma run_statusUpdateVG:
  assumes "wf (cluster w)" and "run_state (statusUpdateVG r v) w = ((v', err), w')"
  shows "same_group v v' \<and> wf (cluster w')
     \<and> (err = None \<longrightarrow> groups (cluster w') (vg_key v) = Some v')"
proof -
  obtain res s' where u: "cl_StatusUpdateVG (r_Client r) v (cluster w) = (res, s')" by force
  with assms wf_kept [OF assms(1), of "StatusUpdateVG v"] status_group [OF assms(1), of v _ s']
  show ?thesis by (cases res) (auto simp: statusUpdateVG_def run_call)
qed

lemma run_ensureFinalizer:
  assumes "wf (cluster w)" and "run_state (ensureFinalizer r v) w = ((v', None), w')"
  shows "FinalizerName \<in> set (vg_Finalizers v') \<and> vg_key v' = vg_key v \<and> wf (cluster w')"
proof (cases "FinalizerName \<in> set (vg_Finalizers v)")
  case True
  with assms show ?thesis by (simp add: ensureFinalizer_def)
next
  case False
  with assms(2) have "run_state (updateVG r (v\<lparr>vg_Finalizers :=
      r_AddFinalizer r (vg_Finalizers v) FinalizerName\<rparr>)) w = ((v', None), w')"
    by (simp add: ensureFinalizer_def)
  from run_updateVG [OF assms(1) this]
  have s: "same_group (v\<lparr>vg_Finalizers := r_AddFinalizer r (vg_Finalizers v) FinalizerName\<rparr>) v'"
    and "wf (cluster w')" by simp_all
  with same_group_simps [OF s] show ?thesis
    by (simp add: add_finalizer vg_key_def)
qed

lemma run_recordGroupID:
  assumes "wf (cluster w)" and "run_state (recordGroupID r v res) w = ((v', None), w')"
  shows "vg_Finalizers v' = vg_Finalizers v \<and> vg_key v' = vg_key v \<and> wf (cluster w')"
proof (cases "status_SnapshotGroupID (vg_Status v) = [] \<and> res_SnapshotGroupID res \<noteq> []")
  case True
  with assms(2) have "run_state (updateVG r (set_group_id (res_SnapshotGroupID res) v)) w = ((v', None), w')"
    by (simp add: recordGroupID_def)
  from run_updateVG [OF assms(1) this]
  have s: "same_group (set_group_id (res_SnapshotGroupID res) v) v'" and "wf (cluster w')" by simp_all
  with same_group_simps [OF s] show ?thesis by simp
next
  case False
  with assms show ?thesis by (auto simp: recordGroupID_def)
qed

lemma run_processResponse:
  assumes wf: "wf (cluster w)"
    and run: "run_state (processResponse r res vm v sc g) w = (Ret (v', None), w')"
  shows "wf (cluster w') \<and> vg_key v' = vg_key v \<and> vg_Finalizers v' = vg_Finalizers v
     \<and> (\<exists>ok. vg_Status v' = responseStatus res
           (concat (map (\<lambda>s. memberName v vm s @ '','') (res_Snapshots res))) ok)"
proof -
  obtain names w1 ok err w2 w3 where
    1: "run_state (processSnapshots r vm v sc [] [] (res_Snapshots res))
        (w\<lparr>failedMap := Map.empty, trace := trace w @ [StartSnapWatch]\<rparr>) = (Ret (names, []), w1)"
    and 2: "run_state (checkSnapshotStatus r (vg_Namespace v) names (spec_Timeout (vg_Spec v))) w1
      = (Ret (ok, err), w2)"
    and c3: "cluster w3 = cluster w2"
    and 3: "run_state (statusUpdateVG r (v\<lparr>vg_Status := responseStatus res names ok\<rparr>)) w3 = ((v', None), w')"
    using run by (rule processResponse_steps)
  have "wf (cluster w1)"
    using wf_run [OF emits_processSnapshots 1] wf by simp
  moreover have "emits r (\<lambda>_. True) (checkSnapshotStatus r ns names t)" for ns t
    by (rule emits_checkSnapshotStatus) simp_all
  ultimately have "wf (cluster w3)"
    using wf_run [where A = "\<lambda>_. True", OF _ 2] c3 by simp
  from run_statusUpdateVG [OF this 3]
  have s: "same_group (v\<lparr>vg_Status := responseStatus res names ok\<rparr>) v'" and "wf (cluster w')" by simp_all
  with same_group_simps [OF s] run_processSnapshots [OF 1] show ?thesis
    by (auto simp: vg_key_def)
qed

lemma run_finishCreate:
  assumes wf: "wf (cluster w)"
    and run: "run_state (finishCreate r req v sc vm res) w = (Ret None, w')"
  shows "\<exists>u. groups (cluster w') (vg_key v) = Some u \<and> records_answer res vm v u"
proof -
  let ?w0 = "w\<lparr>trace := trace w @ [Event (OnVG (vg_key v)) EventTypeNormal EventReasonUpdated
    (''Created snapshot consistency group on array with id: '' @ res_SnapshotGroupID res)]\<rparr>"
  obtain v1 w1 where 1: "run_state (ensureFinalizer r v) ?w0 = ((v1, None), w1)"
    using run by (auto simp: finishCreate_def Let_def split: prod.splits option.splits)
  with run obtain v2 w2 where 2: "run_state (recordGroupID r v1 res) w1 = ((v2, None), w2)"
    by (auto simp: finishCreate_def Let_def split: prod.splits option.splits)
  with run 1 obtain v3 w3 where
    3: "run_state (processResponse r res vm v2 sc (nnName req)) w2 = (Ret (v3, None), w3)"
    by (auto simp: finishCreate_def Let_def run_andThen split: prod.splits option.splits outcome.splits)
  with run 1 2 obtain v4 w4 where 4: "run_state (statusUpdateVG r v3) w3 = ((v4, None), w4)"
    and c: "cluster w' = cluster w4"
    by (auto simp: finishCreate_def Let_def run_andThen split: prod.splits option.splits)
  from run_ensureFinalizer [OF _ 1] wf
  have v1: "FinalizerName \<in> set (vg_Finalizers v1)" "vg_key v1 = vg_key v" "wf (cluster w1)" by simp_all
  from run_recordGroupID [OF v1(3) 2] v1
  have v2: "FinalizerName \<in> set (vg_Finalizers v2)" "vg_key v2 = vg_key v" "wf (cluster w2)" by simp_all
  from run_processResponse [OF v2(3) 3] v2 obtain ok where
    v3: "FinalizerName \<in> set (vg_Finalizers v3)" "vg_key v3 = vg_key v" "wf (cluster w3)"
    and st: "vg_Status v3 = responseStatus res
      (concat (map (\<lambda>s. memberName v2 vm s @ '','') (res_Snapshots res))) ok" by auto
  from run_statusUpdateVG [OF v3(3) 4]
  have s: "same_group v3 v4" and g: "groups (cluster w4) (vg_key v3) = Some v4" by simp_all
  have "records_answer res vm v v4"
    using v3 same_group_simps [OF s] st memberName_key [OF v2(2)] by (simp add: records_answer_def)
  with g c v3(2) show ?thesis by auto
qed

text \<open>The driver answered a creation that succeeds.\<close>

definition driver_answers :: "string \<Rightarrow> string list \<Rightarrow> (string \<times> string) list \<Rightarrow> vgsresponse \<Rightarrow> bool" where
  "driver_answers n ids ps res \<longleftrightarrow> (\<exists>s. fst (r_VGClient r n ids ps s) = Inr res)"

lemma run_createGroup:
  assumes wf: "wf (cluster w)"
    and run: "run_state (createGroup r req v sc ids vm) w = (Ret None, w')"
  shows "\<exists>res u. driver_answers (nnName req) (sort ids) (groupParams v) res
     \<and> groups (cluster w') (vg_key v) = Some u \<and> records_answer res vm v u"
proof -
  obtain x w1 where 1: "run_state (createVGS r (nnName req) (sort ids) (groupParams v)) w = (x, w1)"
    by force
  with run obtain res where x: "x = Inr res"
    by (cases x) (auto simp: createGroup_def failCreate_def Let_def split: prod.splits)
  have "driver_answers (nnName req) (sort ids) (groupParams v) res"
    using 1 x by (auto simp: driver_answers_def createVGS_def run_call)
  moreover have "wf (cluster w1)"
    using wf_run [of "\<lambda>_. True", OF _ 1 wf] by (simp add: emits_intros)
  moreover have "run_state (finishCreate r req v sc vm res) w1 = (Ret None, w')"
    using run 1 x by (simp add: createGroup_def Let_def)
  ultimately show ?thesis using run_finishCreate by blast
qed

lemma run_createChecked:
  assumes wf: "wf (cluster w)"
    and run: "run_state (createChecked r req v) w = (Ret None, w')"
  shows "\<exists>ids vm res u. driver_answers (nnName req) (sort ids) (groupParams v) res
     \<and> groups (cluster w') (vg_key v) = Some u \<and> records_answer res vm v u"
proof -
  have cls: "run_state (createFromClass r req v) w = (Ret None, w')"
    using run by (auto simp: createChecked_def split: option.splits bool.splits)
  obtain scres w1 where 1: "run_state (getClass r (NN [] (spec_Volumesnapshotclass (vg_Spec v)))) w
      = (scres, w1)" by force
  have fail: "run_state (failCreate r v msg err) w0 \<noteq> (Ret None, w')" for msg err w0
    by (auto simp: failCreate_def split: prod.splits)
  from cls 1 obtain sc where sc: "scres = Inr sc" and drv: "driverVerification r sc"
    by (cases scres) (auto simp: createFromClass_def fail split: if_splits)
  obtain src w2 where 2: "run_state (findSources r v) w1 = (src, w2)" by force
  with cls 1 sc drv obtain ids vm where src: "src = Ret (Inr (ids, vm))"
    and 3: "run_state (createGroup r req v sc ids vm) w2 = (Ret None, w')"
    by (auto simp: createFromClass_def run_andThen fail split: outcome.splits sum.splits prod.splits)
  have "wf (cluster w1)"
    using wf_run [of "\<lambda>_. True", OF _ 1 wf] by (simp add: emits_intros)
  then have "wf (cluster w2)"
    using wf_run [OF emits_findSources 2] by simp
  from run_createGroup [OF this 3] show ?thesis by blast
qed

text \<open>A creation that reports success has recorded the driver's answer.\<close>

lemma reconcile_creates:
  assumes wf: "wf (cluster w)" and v: "fst (cl_GetVG (r_Client r) req (cluster w)) = Inr v"
    and fresh: "deletion_is_zero v"
      "\<not> (status_SnapshotGroupID (vg_Status v) \<noteq> [] \<and> status_Status (vg_Status v) = EventStatusComplete)"
      "status_Status (vg_Status v) \<noteq> EventStatusPending"
    and run: "run_state (reconcile r req) w = (Ret None, w')"
  shows "\<exists>ids ps vm res u. driver_answers (nnName req) (sort ids) ps res
     \<and> groups (cluster w') req = Some u \<and> records_answer res vm v u"
proof -
  let ?w = "w\<lparr>trace := trace w @ [GetVG req]\<rparr>"
  have key: "vg_key v = req" using get_group [OF wf v] by simp
  obtain v' err w1 where 1: "run_state (statusUpdateVG r (set_status EventStatusPending v)) ?w
      = ((v', err), w1)" by (metis prod.collapse)
  with run v fresh have 2: "run_state (createChecked r req v') w1 = (Ret None, w')"
    by (auto simp: reconcile_def reconcileCreate_def Let_def run_getVG [OF wf] split: if_splits)
  from run_statusUpdateVG [OF _ 1] wf
  have s: "same_group (set_status EventStatusPending v) v'" and wf1: "wf (cluster w1)" by simp_all
  have key': "vg_key v' = vg_key v" using same_group_simps [OF s] by simp
  from run_createChecked [OF wf1 2] obtain ids vm res u where
    "driver_answers (nnName req) (sort ids) (groupParams v') res"
    "groups (cluster w') (vg_key v') = Some u" "records_answer res vm v' u" by blast
  then show ?thesis
    using key key' memberName_key [OF key'] by (auto simp: records_answer_def)
qed

end

end
