(* ===== verification/Informers.thy ===== *)
theory Informers
  imports ClusterContract
begin

text \<open>
  How the controller is wired to the cluster: the informers started by \<open>snapWatch\<close> and
  \<open>snapContentWatch\<close> with the callbacks they register, the event filter of the work queue, and
  \<open>SetupWithManager\<close>. Source: \<^verbatim>\<open>controllers/dellcsivolumegroupsnapshot_controller.go\<close>. The
  informers of client-go, the loader of the cluster's configuration and the builder of
  controller-runtime are parameters; what is modelled is what the controller hands to them, and
  the informers it leaves running when answers of the driver are processed.
\<close>

section \<open>The event filter\<close>

text \<open>\<open>predicate.Funcs\<close>: a function for each kind of event, or nil.\<close>

record predfuncs =
  pf_Create :: "(vg \<Rightarrow> bool) option"
  pf_Update :: "(vg \<Rightarrow> vg \<Rightarrow> bool) option"
  pf_Delete :: "(bool \<Rightarrow> bool) option"
  pf_Generic :: "(vg \<Rightarrow> bool) option"

definition ignoreUpdatePredicate :: predfuncs where
  "ignoreUpdatePredicate =
     \<lparr>pf_Create = None, pf_Update = Some updateFunc, pf_Delete = Some deleteFunc, pf_Generic = None\<rparr>"

text \<open>The events of the watch on groups, and which of them reach the work queue: a nil function
  lets everything through.\<close>

datatype vgevent = CreateEvent vg | UpdateEvent vg vg | DeleteEvent bool | GenericEvent vg

fun admits :: "predfuncs \<Rightarrow> vgevent \<Rightarrow> bool" where
  "admits p (CreateEvent v) \<longleftrightarrow> (case pf_Create p of None \<Rightarrow> True | Some f \<Rightarrow> f v)"
| "admits p (UpdateEvent v v') \<longleftrightarrow> (case pf_Update p of None \<Rightarrow> True | Some f \<Rightarrow> f v v')"
| "admits p (DeleteEvent unknown) \<longleftrightarrow> (case pf_Delete p of None \<Rightarrow> True | Some f \<Rightarrow> f unknown)"
| "admits p (GenericEvent v) \<longleftrightarrow> (case pf_Generic p of None \<Rightarrow> True | Some f \<Rightarrow> f v)"

lemma admits_ignoreUpdate [simp]:
  "admits ignoreUpdatePredicate (CreateEvent v)"
  "admits ignoreUpdatePredicate (UpdateEvent v v') \<longleftrightarrow> vg_Generation v \<noteq> vg_Generation v'"
  "admits ignoreUpdatePredicate (DeleteEvent unknown) \<longleftrightarrow> \<not> unknown"
  by (simp_all add: ignoreUpdatePredicate_def updateFunc_def deleteFunc_def)

declare admits.simps [simp del]

section \<open>Informers\<close>

text \<open>\<open>cache.ResourceEventHandlerFuncs\<close>.\<close>

type_synonym 's callback = "('s world, unit outcome) state"

record 's callbacks =
  cb_Add :: "(watchobj \<Rightarrow> 's callback) option"
  cb_Update :: "(watchobj \<Rightarrow> watchobj \<Rightarrow> 's callback) option"
  cb_Delete :: "(watchobj \<Rightarrow> 's callback) option"

datatype watched = VolumeSnapshots | VolumeSnapshotContents

text \<open>A running informer: the clientset it lists and watches with (nil is \<open>None\<close>), the resync
  period, the resource, the callbacks. Its stop channel is never closed.\<close>

record ('i, 's) informer =
  if_Client :: "'i option"
  if_Resync :: int64
  if_Watched :: watched
  if_Callbacks :: "'s callbacks"

text \<open>\<open>rest.InClusterConfig\<close>, \<open>sclient.NewForConfig\<close>, and the field \<open>SnapClient\<close> of the
  reconciler, which only tests set.\<close>

record ('k, 'i) restlib =
  rl_InClusterConfig :: "error + 'k"
  rl_NewForConfig :: "'k \<Rightarrow> error + 'i"
  rl_SnapClient :: "'i option"

definition watchClient :: "('k, 'i) restlib \<Rightarrow> error + 'i option" where
  "watchClient lib =
     (case rl_InClusterConfig lib of
        Inl err \<Rightarrow> Inr (rl_SnapClient lib)
      | Inr config \<Rightarrow>
          (case rl_NewForConfig lib config of
             Inl err \<Rightarrow> Inl err
           | Inr clientset \<Rightarrow> Inr (Some clientset)))"

definition snapInformer :: "'s reconciler \<Rightarrow> 'i option \<Rightarrow> ('i, 's) informer" where
  "snapInformer r clientset =
     \<lparr>if_Client = clientset, if_Resync = 0, if_Watched = VolumeSnapshots,
      if_Callbacks = \<lparr>cb_Add = Some (handleSnapCreate r),
        cb_Update = Some (\<lambda>_ obj. handleSnapUpdate r obj), cb_Delete = None\<rparr>\<rparr>"

definition snapWatch ::
  "('k, 'i) restlib \<Rightarrow> 's reconciler \<Rightarrow> ('i, 's) informer list
     \<Rightarrow> error option \<times> ('i, 's) informer list" where
  "snapWatch lib r running =
     (case watchClient lib of
        Inl err \<Rightarrow> (Some err, running)
      | Inr clientset \<Rightarrow> (None, running @ [snapInformer r clientset]))"

definition contentInformer :: "'s reconciler \<Rightarrow> 'i option \<Rightarrow> ('i, 's) informer" where
  "contentInformer r clientset =
     \<lparr>if_Client = clientset, if_Resync = 3600000000000, if_Watched = VolumeSnapshotContents,
      if_Callbacks = \<lparr>cb_Add = None, cb_Update = None,
        cb_Delete = Some (\<lambda>obj. do { HandleSnapContentDelete r obj; ret () })\<rparr>\<rparr>"

definition snapContentWatch ::
  "('k, 'i) restlib \<Rightarrow> 's reconciler \<Rightarrow> ('i, 's) informer list
     \<Rightarrow> error option \<times> ('i, 's) informer list" where
  "snapContentWatch lib r running =
     (case watchClient lib of
        Inl err \<Rightarrow> (Some err, running)
      | Inr clientset \<Rightarrow> (None, running @ [contentInformer r clientset]))"

section \<open>The controller\<close>

text \<open>What the builder is given, with the rate limiter of type \<open>'l\<close>.\<close>

record 'l controlleropts =
  co_Filter :: predfuncs
  co_RateLimiter :: 'l
  co_MaxConcurrentReconciles :: int64

text \<open>The error of \<open>snapContentWatch\<close> is lost, since it runs in a goroutine of its own.\<close>

definition setupWithManager ::
  "('k, 'i) restlib \<Rightarrow> ('l controlleropts \<Rightarrow> 's reconciler \<Rightarrow> error option) \<Rightarrow> 's reconciler
     \<Rightarrow> 'l \<Rightarrow> int64 \<Rightarrow> ('i, 's) informer list \<Rightarrow> error option \<times> ('i, 's) informer list" where
  "setupWithManager lib complete r limiter maxReconcilers running =
     (let (_, running') = snapContentWatch lib r running
      in (complete \<lparr>co_Filter = ignoreUpdatePredicate, co_RateLimiter = limiter,
            co_MaxConcurrentReconciles = maxReconcilers\<rparr> r, running'))"

section \<open>Informers and processed answers\<close>

text \<open>Answers of the driver processed one after another: for each the objects and the timers it finds,
  whatever happened in between, and the arguments of \<open>processResponse\<close>.\<close>

primrec answersProcessed ::
  "'s reconciler \<Rightarrow> ('s \<times> tick list \<times> vgsresponse \<times> volmap \<times> vg \<times> vsclass \<times> string) list
     \<Rightarrow> 's world \<Rightarrow> 's world" where
  "answersProcessed r [] w = w"
| "answersProcessed r (x # xs) w =
     (case x of (s, ts, res, vm, v, sc, groupName) \<Rightarrow>
        answersProcessed r xs
          (snd (run_state (processResponse r res vm v sc groupName) (w\<lparr>cluster := s, sched := ts\<rparr>))))"

lemma count_list_none: "list_all (\<lambda>e. e \<noteq> x) xs \<Longrightarrow> count_list xs x = 0"
  by (auto simp: count_list_0_iff list_all_iff)

text \<open>Processing an answer starts the watch of snapshots once, however it ends.\<close>

lemma processResponse_starts_watch:
  "count_list (trace (snd (run_state (processResponse r res vm v sc g) w))) StartSnapWatch =
     Suc (count_list (trace w) StartSnapWatch)"
proof -
  let ?w = "w\<lparr>failedMap := Map.empty, trace := trace w @ [StartSnapWatch]\<rparr>"
  have members: "emits r (\<lambda>e. e \<noteq> StartSnapWatch) (processSnapshots r vm v sc snaps errs ss)" for snaps errs ss
    by (rule emits_processSnapshots [THEN emits_mono]) auto
  obtain rest where split: "processResponse r res vm v sc g = do { resetFailed; emit StartSnapWatch; rest }"
    and rest: "emits r (\<lambda>e. e \<noteq> StartSnapWatch) rest"
    by (rule that [unfolded processResponse_def Let_def, OF refl]) (auto intro!: emits_intros members split: option.split prod.split)
  obtain x w' where run: "run_state rest ?w = (x, w')" by force
  from shapedD [OF rest [unfolded emits_def] run] obtain ts
    where "trace w' = trace ?w @ ts" "list_all (\<lambda>e. e \<noteq> StartSnapWatch) ts" by auto
  with run show ?thesis
    unfolding split by (simp add: emit_def run_call count_list_none)
qed

lemma answers_start_watches:
  "count_list (trace (answersProcessed r xs w)) StartSnapWatch =
     count_list (trace w) StartSnapWatch + length xs"
  by (induction xs arbitrary: w) (auto simp: processResponse_starts_watch split: prod.split)

lemma snapWatch_again:
  "watchClient lib = Inr c \<Longrightarrow>
     ((\<lambda>running. snd (snapWatch lib r running)) ^^ n) [] = replicate n (snapInformer r c)"
  by (induction n) (simp_all add: snapWatch_def replicate_append_same)

section \<open>Properties\<close>

text \<open>C35: Every answer of the driver starts one more informer on the member snapshots, and nothing stops
  those already running: after \<open>n\<close> processed answers, however each ended, the calls of \<open>snapWatch\<close>
  left \<open>n\<close> informers running on the cluster's snapshots, and the update callback of every one of
  them records the event when a member reports whether it is ready.\<close>

lemma snapshot_events_multiply:
  assumes "watchClient lib = Inr (Some clientset)"
    and "running = ((\<lambda>is. snd (snapWatch lib r is)) ^^
           count_list (trace (answersProcessed r xs (start s ts))) StartSnapWatch) []"
    and "cl_GetVG (r_Client r) (NN (vs_Namespace x) (snapshot_group x)) (cluster w) = (Inr v, cluster w)"
    and "vs_Status x = Some st" and "ss_ReadyToUse st = Some ready"
  shows "length running = length xs
     \<and> list_all (\<lambda>i. if_Client i = Some clientset \<and> if_Watched i = VolumeSnapshots
         \<and> (case cb_Update (if_Callbacks i) of
              None \<Rightarrow> False
            | Some f \<Rightarrow> run_state (f old (WSnap x)) w =
                (Ret (), w\<lparr>trace := trace w @ [GetVG (NN (vs_Namespace x) (snapshot_group x)),
                   Event (OnVG (vg_key v)) EventTypeNormal EventReasonUpdated
                     (''snap '' @ vs_Name x @ '' ReadyToUse='' @ fmt_bool ready)]\<rparr>))) running"
proof -
  have "count_list (trace (answersProcessed r xs (start s ts))) StartSnapWatch = length xs"
    by (simp add: answers_start_watches start_def)
  then have "running = replicate (length xs) (snapInformer r (Some clientset))"
    using assms(2) snapWatch_again [OF assms(1)] by simp
  then show ?thesis
    using assms(3-5)
    by (simp add: list_all_iff snapInformer_def handleSnapUpdate_def getVG_def run_call Let_def)
qed

definition example_lib :: "(unit, string) restlib" where
  "example_lib = \<lparr>rl_InClusterConfig = Inr (), rl_NewForConfig = (\<lambda>_. Inr ''clientset''),
     rl_SnapClient = None\<rparr>"

lemma snapshot_events_multiply_witness:
  "length (((\<lambda>is. snd (snapWatch example_lib (watch_reconciler example_snap example_group) is)) ^^
     count_list (trace (answersProcessed (watch_reconciler example_snap example_group)
       [((), [Timeout], \<lparr>res_SnapshotGroupID = ''array-7'', res_Snapshots = [], res_CreationTime = 5\<rparr>,
          [], example_group, example_class, ''vg''),
        ((), [Tick, Timeout], \<lparr>res_SnapshotGroupID = ''array-7'', res_Snapshots = [], res_CreationTime = 5\<rparr>,
          [], example_group, example_class, ''vg'')] (start () [])))
     StartSnapWatch) [] :: (string, unit) informer list) = 2"
  by (subst snapshot_events_multiply [where w = "start () []" and x = example_snap and v = example_group
        and clientset = "''clientset''" and ready = True and old = WOther
        and st = "\<lparr>ss_BoundContentName = Some ''content'', ss_ReadyToUse = Some True\<rparr>",
        THEN conjunct1, OF _ refl])
    (simp_all add: watchClient_def example_lib_def watch_reconciler_def example_reconciler_def
      example_snap_def)

end
