(* ===== verification/OwnWrites.thy ===== *)
theory OwnWrites
  imports Informers
begin

text \<open>
  What a reconciliation does to anything but the state of its own group: it writes no group
  object with another name, specification or generation than the one it read, and every object
  it reads by namespace, lists, creates or records an event on belongs to the namespace and name
  of that group.
\<close>

section \<open>Calls confined to a group\<close>

text \<open>Calls that concern the group of a name and the objects of its namespace; cluster-scoped
  reads, refreshes of a content, the driver and the deletions of snapshots are not restricted
  here.\<close>

fun confined :: "nname \<Rightarrow> effect \<Rightarrow> bool" where
  "confined k (GetSnap q) \<longleftrightarrow> nnNamespace q = nnNamespace k"
| "confined k (GetPVC q) \<longleftrightarrow> nnNamespace q = nnNamespace k"
| "confined k (ListPVC lo) \<longleftrightarrow> lo_Namespace lo = nnNamespace k"
| "confined k (CreateContent c) \<longleftrightarrow> or_Namespace (vc_SnapshotRef c) = nnNamespace k"
| "confined k (CreateSnap x) \<longleftrightarrow> vs_Namespace x = nnNamespace k \<and> snapshot_group x = nnName k"
| "confined k (UpdateVG u) \<longleftrightarrow> vg_key u = k"
| "confined k (StatusUpdateVG u) \<longleftrightarrow> vg_key u = k"
| "confined k (DeleteVG u) \<longleftrightarrow> False"
| "confined k (Event (OnVG q) ty reason msg) \<longleftrightarrow> q = k"
| "confined k (Event (OnSnap q) ty reason msg) \<longleftrightarrow> nnNamespace q = nnNamespace k"
| "confined k e \<longleftrightarrow> True"

text \<open>The group object a call sends.\<close>

fun group_sent :: "effect \<Rightarrow> vg option" where
  "group_sent (UpdateVG u) = Some u"
| "group_sent (StatusUpdateVG u) = Some u"
| "group_sent _ = None"

text \<open>Confined calls that send no group object.\<close>

definition quiet_within :: "vg \<Rightarrow> effect \<Rightarrow> bool" where
  "quiet_within v e \<longleftrightarrow> group_sent e = None \<and> confined (vg_key v) e"

lemma quiet_within_simps [simp]:
  "quiet_within v (GetVG q)" "quiet_within v (GetClass q)" "quiet_within v (GetContent q)"
  "quiet_within v (GetPV q)" "quiet_within v ListContent" "quiet_within v (StatusUpdateContent c)"
  "quiet_within v (DeleteSnap x)" "quiet_within v (CreateVGS n ids ps)" "quiet_within v (StartTimer d)"
  "quiet_within v StartSnapWatch" "quiet_within v (Event (OnContent n) ty reason msg)"
  "quiet_within v (GetSnap q) \<longleftrightarrow> nnNamespace q = vg_Namespace v"
  "quiet_within v (GetPVC q) \<longleftrightarrow> nnNamespace q = vg_Namespace v"
  "quiet_within v (ListPVC lo) \<longleftrightarrow> lo_Namespace lo = vg_Namespace v"
  "quiet_within v (CreateContent c) \<longleftrightarrow> or_Namespace (vc_SnapshotRef c) = vg_Namespace v"
  "quiet_within v (CreateSnap x) \<longleftrightarrow> vs_Namespace x = vg_Namespace v \<and> snapshot_group x = vg_Name v"
  "quiet_within v (Event (OnVG q) ty reason msg) \<longleftrightarrow> q = vg_key v"
  by (simp_all add: quiet_within_def vg_key_def)

lemma makeVolSnap_views [simp]:
  "snapshot_group (makeVolSnap ns vgname n cls cn) = vgname"
  "vs_Namespace (makeVolSnap ns vgname n cls cn) = ns"
  by (simp_all add: snapshot_group_def makeVolSnap_def map_get_def)

text \<open>The work on the members of a group is confined to it.\<close>

lemma confined_checkExistingVolsnapcontent:
  "emits r (quiet_within v) (checkExistingVolsnapcontent r x v i)"
  by (auto simp: checkExistingVolsnapcontent_def validateExistingVolSnapcontent_def Let_def
      intro!: emits_intros split: sum.split option.split prod.split)

lemma confined_checkExistingVolSnapshot: "emits r (quiet_within v) (checkExistingVolSnapshot r x v i)"
  by (auto simp: checkExistingVolSnapshot_def Let_def
      intro!: emits_intros split: sum.split option.split prod.split bool.split)

lemma confined_updateContent:
  "emits r (quiet_within v) (updateVolumeSnapshotContentStatus r cn b s n)"
  by (auto simp: updateVolumeSnapshotContentStatus_def Let_def intro!: emits_intros split: sum.split)

lemma confined_createContentAndSnap:
  assumes "vs_Namespace x = vg_Namespace v" and "snapshot_group x = vg_Name v"
    and "or_Namespace ref = vg_Namespace v"
  shows "emits r (quiet_within v) (createContentAndSnap r n cn v s sc x ref)"
  using assms
  by (auto simp: createContentAndSnap_def makeVolSnapContent_def intro!: emits_intros split: sum.split)

lemma confined_createVolumeSnapshot: "emits r (quiet_within v) (createVolumeSnapshot r n cn v s sc)"
proof -
  let ?new = "makeVolSnap (vg_Namespace v) (vg_Name v) n (spec_Volumesnapshotclass (vg_Spec v)) cn"
  have "emits r (quiet_within v) (createContentAndSnap r n cn v s sc ?new ref)"
    if "GetReference r (snap_obj ?new) = Inr ref" for ref
    using GetReference_snap [OF that]
    by (intro confined_createContentAndSnap) simp_all
  then show ?thesis
    unfolding createVolumeSnapshot_def Let_def
    by (auto intro!: emits_intros confined_checkExistingVolSnapshot confined_checkExistingVolsnapcontent
        split: sum.split option.split)
qed

lemma confined_processSnapshots:
  "emits r (quiet_within v) (processSnapshots r vm v sc names errs ss)"
  by (induction ss arbitrary: names errs)
    (auto simp: Let_def intro!: emits_intros confined_createVolumeSnapshot confined_updateContent
      split: option.split prod.split)

lemma confined_findSources: "emits r (quiet_within v) (findSources r v)"
  by (auto simp: findSources_def intro!: emits_intros split: option.split)

section \<open>The group the controller holds\<close>

text \<open>What a write must not change of the group that was read: its name, its specification and with
  it the generation.\<close>

definition spec_kept :: "vg \<Rightarrow> vg \<Rightarrow> bool" where
  "spec_kept v u \<longleftrightarrow> vg_Spec u = vg_Spec v \<and> vg_Generation u = vg_Generation v \<and> vg_key u = vg_key v"

definition spec_world :: "vg \<Rightarrow> 's world \<Rightarrow> bool" where
  "spec_world v w \<longleftrightarrow>
     (\<forall>e \<in> set (trace w). confined (vg_key v) e \<and> (\<forall>u. group_sent e = Some u \<longrightarrow> spec_kept v u))"

lemma spec_kept_simps [simp]:
  "spec_kept v v"
  "spec_kept v (u\<lparr>vg_Finalizers := fs\<rparr>) = spec_kept v u"
  "spec_kept v (u\<lparr>vg_Status := st\<rparr>) = spec_kept v u"
  "spec_kept v (set_status st' u) = spec_kept v u"
  "spec_kept v (set_group_id g u) = spec_kept v u"
  "spec_kept v (set_snapshots names u) = spec_kept v u"
  by (simp_all add: spec_kept_def set_status_def set_group_id_def set_snapshots_def vg_key_def)

lemma spec_kept_trans: "spec_kept v u \<Longrightarrow> spec_kept u u' \<Longrightarrow> spec_kept v u'"
  by (simp add: spec_kept_def)

lemma spec_kept_names:
  assumes "spec_kept v u"
  shows "vg_key u = vg_key v" "vg_Namespace u = vg_Namespace v" "vg_Name u = vg_Name v"
    "quiet_within u = quiet_within v"
  using assms by (auto simp: spec_kept_def vg_key_def quiet_within_def fun_eq_iff)

text \<open>The interface: the object the server hands back after a write that changed no specification
  has the name, the specification and the generation that were sent.\<close>

locale spec_server =
  fixes r :: "'s reconciler"
  assumes update_keeps: "cl_UpdateVG (r_Client r) u s = (Inr u', s') \<Longrightarrow> spec_kept u u'"
    and status_keeps: "cl_StatusUpdateVG (r_Client r) u s = (Inr u', s') \<Longrightarrow> spec_kept u u'"
begin

abbreviation kept :: "vg \<Rightarrow> 's world \<Rightarrow> bool" where
  "kept \<equiv> spec_world"

lemma keeps_silent [safe_intros]:
  "emits r (quiet_within v) m \<Longrightarrow> keeps (kept v) m"
  unfolding keeps_def
proof (rule tripleI)
  fix w x w'
  assume "emits r (quiet_within v) m" "spec_world v w" "run_state m w = (x, w')"
  then show "spec_world v w'" by (fastforce simp: spec_world_def quiet_within_def dest!: emitsD)
qed

lemma held_silent: "spec_kept v u \<Longrightarrow> emits r (quiet_within u) m \<Longrightarrow> keeps (kept v) m"
  by (simp add: spec_kept_names keeps_silent)

lemma safe_update [safe_intros]:
  assumes "spec_kept v u" and Q: "\<And>u' err. spec_kept v u' \<Longrightarrow> Q (u', err)"
  shows "safe (kept v) Q (updateVG r u)" "safe (kept v) Q (statusUpdateVG r u)"
proof -
  have sent: "spec_world v (w\<lparr>cluster := s, trace := trace w @ [e]\<rparr>)"
    if "e \<in> {UpdateVG u, StatusUpdateVG u}" "spec_world v w" for e w s
    using that assms(1) spec_kept_names(1) [OF assms(1)] by (auto simp: spec_world_def)
  have answer: "Q (case res of Inl e \<Rightarrow> (u, Some e) | Inr u' \<Rightarrow> (u', None))"
    if "\<And>u'. res = Inr u' \<Longrightarrow> spec_kept u u'" for res
    using that assms by (auto split: sum.split dest: spec_kept_trans)
  have "Q (case fst (cl_UpdateVG (r_Client r) u s) of Inl e \<Rightarrow> (u, Some e) | Inr u' \<Rightarrow> (u', None))" for s
    by (rule answer) (metis prod.collapse update_keeps)
  then show "safe (kept v) Q (updateVG r u)"
    unfolding safe_def by (intro tripleI) (clarsimp simp: updateVG_def run_call sent, metis)
  have "Q (case fst (cl_StatusUpdateVG (r_Client r) u s) of Inl e \<Rightarrow> (u, Some e) | Inr u' \<Rightarrow> (u', None))" for s
    by (rule answer) (metis prod.collapse status_keeps)
  then show "safe (kept v) Q (statusUpdateVG r u)"
    unfolding safe_def by (intro tripleI) (clarsimp simp: statusUpdateVG_def run_call sent, metis)
qed

lemma safe_update_then:
  assumes "spec_kept v u" and "\<And>u' err. spec_kept v u' \<Longrightarrow> safe (kept v) Q (f (u', err))"
  shows "safe (kept v) Q (State_Monad.bind (updateVG r u) f)"
    "safe (kept v) Q (State_Monad.bind (statusUpdateVG r u) f)"
  using assms by (auto intro!: safe_bind [where P = "\<lambda>x. spec_kept v (fst x)"] safe_update)

lemma silent_calls [safe_intros]:
  "keeps (kept v) (getClass r k)" "keeps (kept v) (createVGS r n ids ps)"
  "keeps (kept v) resetFailed" "keeps (kept v) (emit StartSnapWatch)"
  by (rule keeps_silent, simp add: emits_intros)+

lemma held_calls [safe_intros]:
  assumes "spec_kept v u"
  shows "keeps (kept v) (eventf (OnVG (vg_key u)) ty msg)" "keeps (kept v) (findSources r u)"
    "keeps (kept v) (checkSnapshotStatus r (vg_Namespace u) names t)"
    "keeps (kept v) (deleteLoop r u members)"
    "keeps (kept v) (processSnapshots r vm u sc names errs ss)"
  by (rule held_silent [OF assms],
      simp add: emits_intros confined_findSources confined_processSnapshots)+

lemma silent_event_cases [safe_intros]:
  "spec_kept v u \<Longrightarrow>
     keeps (kept v) (if b then eventf (OnVG (vg_key u)) ty msg else State_Monad.return ())"
  "spec_kept v u \<Longrightarrow>
     keeps (kept v) (case x of None \<Rightarrow> State_Monad.return () | Some e \<Rightarrow> eventf (OnVG (vg_key u)) ty (m e))"
  by (simp_all add: held_calls keeps_return split: option.split)

lemmas sequel =
  safe_seq [OF silent_calls(1)] safe_seq [OF silent_calls(2)] safe_seq [OF silent_calls(3)]
  safe_seq [OF silent_calls(4)] safe_seq [OF held_calls(1)] safe_then [OF held_calls(2)]
  safe_then [OF held_calls(3)] safe_seq [OF held_calls(4)] safe_then [OF held_calls(5)]

lemma spec_processResponse:
  assumes "spec_kept v u"
  shows "safe (kept v) (\<lambda>x. case x of Ret y \<Rightarrow> spec_kept v (fst y) | _ \<Rightarrow> True)
     (processResponse r res vm u sc g)"
  unfolding processResponse_def Let_def split_def
  using assms
  by (auto intro!: sequel safe_seq [OF silent_event_cases(1)] safe_seq [OF silent_event_cases(2)]
      safe_update_then(2) safe_intros)

lemma spec_ensureFinalizer:
  "spec_kept v u \<Longrightarrow> safe (kept v) (\<lambda>x. spec_kept v (fst x)) (ensureFinalizer r u)"
  "spec_kept v u \<Longrightarrow> safe (kept v) (\<lambda>x. spec_kept v (fst x)) (recordGroupID r u res)"
  unfolding ensureFinalizer_def recordGroupID_def by (auto intro!: safe_intros)

lemma spec_failCreate: "spec_kept v u \<Longrightarrow> safe (kept v) (\<lambda>_. True) (failCreate r u msg err)"
  unfolding failCreate_def by (auto intro!: safe_update_then sequel safe_intros)

lemma spec_finishCreate:
  assumes "spec_kept v u"
  shows "safe (kept v) (\<lambda>_. True) (finishCreate r req u sc vm res)"
proof -
  have tail: "safe (kept v) (\<lambda>_. True)
      (andThen (processResponse r res vm u2 sc g) (\<lambda>x. do {
         y \<leftarrow> statusUpdateVG r (fst x);
         (case snd y of
            None \<Rightarrow> (case snd x of
               None \<Rightarrow> do { eventf (OnVG (vg_key (fst y))) EventTypeNormal m2; ret None }
             | Some err \<Rightarrow> ret (Some err))
          | Some err \<Rightarrow> do { eventf (OnVG (vg_key (fst y))) EventTypeWarning (m1 err); ret (Some err) }) }))"
    if "spec_kept v u2" for u2 g m1 m2
    by (rule safe_andThen [OF spec_processResponse [OF that]])
      (auto intro!: safe_update_then(2) sequel safe_intros split: option.split)
  show ?thesis
    unfolding finishCreate_def Let_def split_def
    using assms
    by (auto intro!: sequel safe_bind [OF spec_ensureFinalizer(1)]
        safe_bind [OF spec_ensureFinalizer(2)] tail safe_intros split: option.split)
qed

lemma spec_createChecked:
  assumes "spec_kept v u"
  shows "safe (kept v) (\<lambda>_. True) (createChecked r req u)"
  unfolding createChecked_def createFromClass_def createGroup_def Let_def
  using assms spec_failCreate [OF assms] spec_finishCreate [OF assms]
  by (auto intro!: sequel safe_intros
      split: option.split sum.split bool.split)

lemma spec_deleteVg:
  assumes "spec_kept v u"
  shows "safe (kept v) (\<lambda>_. True) (deleteVg r u)"
  unfolding deleteVg_def dropFinalizer_def Let_def
  using assms
  by (auto intro!: sequel safe_update_then(1) safe_intros split: sum.split option.split)

text \<open>Whatever a reconciliation sends of the group it read has the specification it read.\<close>

lemma reconcile_keeps_spec:
  assumes "fst (cl_GetVG (r_Client r) req s) = Inr v"
  shows "kept v (snd (run_state (reconcile r req) (start s ticks)))"
proof -
  obtain w1 where get: "run_state (getVG r req) (start s ticks) = (Inr v, w1)"
    using assms by (simp add: getVG_def run_call)
  then have start: "kept v w1"
    by (auto simp: getVG_def run_call spec_world_def)
  have rest: "safe (kept v) (\<lambda>_. True) (reconcileCreate r req v)"
    "safe (kept v) (\<lambda>_. True) (do { err \<leftarrow> deleteVg r v; ret err })"
    "safe (kept v) (\<lambda>_. True) (do { eventf (OnVG (vg_key v)) ty m; ret x })"
    "safe (kept v) (\<lambda>_. True) (ret x)" for ty m and x :: "error option"
    unfolding reconcileCreate_def
    by (auto intro!: safe_update_then spec_createChecked safe_bind [OF spec_deleteVg]
        sequel safe_intros)
  note shape = reconcile_def get Let_def
  obtain m where m: "run_state (reconcile r req) (start s ticks) = run_state m w1"
    "safe (kept v) (\<lambda>_. True) m"
  proof (cases "deletion_is_zero v")
    case True
    consider "status_SnapshotGroupID (vg_Status v) \<noteq> []" "status_Status (vg_Status v) = EventStatusComplete"
      | "status_Status (vg_Status v) = EventStatusPending"
      | "\<not> (status_SnapshotGroupID (vg_Status v) \<noteq> [] \<and> status_Status (vg_Status v) = EventStatusComplete)"
        "status_Status (vg_Status v) \<noteq> EventStatusPending"
      by blast
    then show thesis
    proof cases
      case 1
      show thesis
        by (rule that [OF _ rest(3) [of EventTypeWarning "''VG exists''" None]])
          (simp add: shape True 1)
    next
      case 2
      show thesis by (rule that [OF _ rest(4) [of "Some pendingError"]]) (simp add: shape True 2)
    next
      case 3
      show thesis by (rule that [OF _ rest(1)]) (use True 3 in \<open>auto simp: shape\<close>)
    qed
  next
    case False
    show thesis
    proof (cases "status_Status (vg_Status v) = EventStatusComplete \<and> FinalizerName \<in> set (vg_Finalizers v)")
      case True
      with False show thesis by (intro that [OF _ rest(2)]) (simp add: shape)
    next
      case 4: False
      show thesis
        by (rule that [OF _ rest(4) [of "Some incompleteError"]]) (use False 4 in \<open>auto simp: shape\<close>)
    qed
  qed
  from keepsD [OF safe_keeps [OF m(2)] start] show ?thesis by (simp add: m(1))
qed

end

section \<open>Calls by name\<close>

text \<open>The calls whose arguments come from the request or from an answer: the group is read under
  the name requested, the driver is given that name, and a snapshot that is deleted was read in the
  namespace of the group.\<close>

fun named :: "nname \<Rightarrow> effect \<Rightarrow> bool" where
  "named k (GetVG q) \<longleftrightarrow> q = k"
| "named k (CreateVGS n ids ps) \<longleftrightarrow> n = nnName k"
| "named k (DeleteSnap x) \<longleftrightarrow> vs_Namespace x = nnNamespace k"
| "named k e \<longleftrightarrow> True"

lemma after_driver_named: "after_driver e \<Longrightarrow> named k e"
  by (cases e) auto

lemma named_deleteLoop:
  assumes "\<And>q s x s'. cl_GetSnap (r_Client r) q s = (Inr x, s') \<Longrightarrow> snap_key x = q"
    and "vg_Namespace v = nnNamespace k"
  shows "emits r (named k) (deleteLoop r v names)"
proof (induction names)
  case (Cons n names)
  have ns: "vs_Namespace x = nnNamespace k"
    if "run_state (getSnap r (NN (vg_Namespace v) n)) w = (Inr x, w')" for x w w'
  proof -
    have "snap_key x = NN (vg_Namespace v) n"
      using that
      by (intro assms(1) [where s = "cluster w" and s' = "cluster w'"])
        (auto simp: getSnap_def run_call prod_eq_iff)
    then show ?thesis using assms(2) by (simp add: snap_key_def)
  qed
  show ?case
    unfolding deleteLoop.simps
    by (rule emits_bind_result) (auto intro!: emits_intros Cons.IH dest: ns split: sum.split)
qed (simp add: emits_intros)

lemma named_findSources: "emits r (named k) (findSources r v)"
  by (auto simp: findSources_def intro!: emits_intros split: option.split)

lemma named_reconcileCreate: "emits r (named req) (reconcileCreate r req v)"
  unfolding reconcileCreate_def createChecked_def createFromClass_def createGroup_def Let_def
  by (auto intro!: emits_intros named_findSources emits_mono [OF emits_finishCreate after_driver_named]
      split: option.split sum.split bool.split)

lemma named_reconcile:
  assumes "\<And>q s x s'. cl_GetSnap (r_Client r) q s = (Inr x, s') \<Longrightarrow> snap_key x = q"
    and "\<And>q s v s'. cl_GetVG (r_Client r) q s = (Inr v, s') \<Longrightarrow> vg_key v = q"
  shows "emits r (named req) (reconcile r req)"
proof -
  have ns: "vg_Namespace v = nnNamespace req"
    if "run_state (getVG r req) w = (Inr v, w')" for v w w'
  proof -
    have "vg_key v = req"
      using that
      by (intro assms(2) [where s = "cluster w" and s' = "cluster w'"])
        (auto simp: getVG_def run_call prod_eq_iff)
    then show ?thesis by (auto simp: vg_key_def)
  qed
  show ?thesis
    unfolding reconcile_def deleteVg_def dropFinalizer_def Let_def
    by (rule emits_bind_result)
      (auto intro!: emits_intros named_reconcileCreate named_deleteLoop [OF assms(1)] dest!: ns
        split: sum.split option.split)
qed

text \<open>All that a reconciliation of \<open>k\<close> may touch.\<close>

definition within :: "nname \<Rightarrow> effect \<Rightarrow> bool" where
  "within k e \<longleftrightarrow> confined k e \<and> named k e"

section \<open>Properties\<close>

text \<open>C22: The controller does not wake itself: every group object a reconciliation sends to an API
  server that answers writes with the specification and generation it was sent has the
  specification and the generation of the object that was read. So no update event between the
  objects the reconciliation reads and writes passes the filter of the work queue, and the
  specification stays the user's.\<close>

lemma own_writes_filtered:
  assumes "\<And>u s u' s'. cl_UpdateVG (r_Client r) u s = (Inr u', s') \<Longrightarrow> spec_kept u u'"
    and "\<And>u s u' s'. cl_StatusUpdateVG (r_Client r) u s = (Inr u', s') \<Longrightarrow> spec_kept u u'"
    and "fst (cl_GetVG (r_Client r) req s) = Inr v"
    and "e \<in> set (trace (snd (run_state (reconcile r req) (start s ticks))))"
    and "e = UpdateVG u \<or> e = StatusUpdateVG u"
  shows "vg_Spec u = vg_Spec v \<and> \<not> admits ignoreUpdatePredicate (UpdateEvent v u)"
proof -
  have server: "spec_server r" by unfold_locales (fact assms(1), fact assms(2))
  have "group_sent e = Some u" using assms(5) by auto
  then have "spec_kept v u"
    using spec_server.reconcile_keeps_spec [OF server assms(3), of ticks] assms(4)
    by (auto simp: spec_world_def)
  then show ?thesis by (simp add: spec_kept_def)
qed

lemma own_writes_filtered_witness:
  "\<not> admits ignoreUpdatePredicate (UpdateEvent (example_group\<lparr>vg_Status := empty_status\<rparr>)
      (set_status EventStatusPending (example_group\<lparr>vg_Status := empty_status\<rparr>)))"
proof -
  let ?v = "example_group\<lparr>vg_Status := empty_status\<rparr>"
  let ?r = "group_reconciler ?v"
  let ?w = "snd (run_state (reconcile ?r (NN ''ns'' ''vg'')) (start () []))"
  have "StatusUpdateVG (set_status EventStatusPending ?v) \<in> set (trace ?w)"
    by (simp add: reconcile_def reconcileCreate_def createChecked_def createFromClass_def
        failCreate_def getVG_def getClass_def statusUpdateVG_def run_call group_reconciler_def
        example_reconciler_def failing_client_def Let_def deletion_is_zero_def example_group_def
        empty_vg_def empty_status_def empty_spec_def)
  then show ?thesis
    using own_writes_filtered [of ?r "NN ''ns'' ''vg''" "()" ?v
        "StatusUpdateVG (set_status EventStatusPending ?v)" "[]" "set_status EventStatusPending ?v"]
    by (simp add: group_reconciler_def example_reconciler_def failing_client_def)
qed

text \<open>C21: A reconciliation stays within its group: with an API server that answers a \<open>Get\<close> with the
  object asked for and a write with the object it was sent, whatever fails and however stale the
  answers are, every group object it sends is the group of the request, every snapshot and claim it
  reads, creates or deletes is in the namespace of the request, created snapshots are labelled with
  the group, created contents point into that namespace, the driver is given the name of the
  request, and events are recorded on that group.\<close>

lemma stays_in_own_group:
  assumes "\<And>u s u' s'. cl_UpdateVG (r_Client r) u s = (Inr u', s') \<Longrightarrow> spec_kept u u'"
    and "\<And>u s u' s'. cl_StatusUpdateVG (r_Client r) u s = (Inr u', s') \<Longrightarrow> spec_kept u u'"
    and "\<And>q s v s'. cl_GetVG (r_Client r) q s = (Inr v, s') \<Longrightarrow> vg_key v = q"
    and "\<And>q s x s'. cl_GetSnap (r_Client r) q s = (Inr x, s') \<Longrightarrow> snap_key x = q"
    and "e \<in> set (trace (snd (run_state (reconcile r req) (start s ticks))))"
  shows "within req e"
proof -
  obtain x w where run: "run_state (reconcile r req) (start s ticks) = (x, w)" by force
  have server: "spec_server r" by unfold_locales (fact assms(1), fact assms(2))
  have "named req e"
    using emitsD [OF named_reconcile [OF assms(4,3)] run] assms(5) run by auto
  moreover have "confined req e"
  proof (cases "fst (cl_GetVG (r_Client r) req s)")
    case (Inl err)
    then have "trace w = [GetVG req]"
      using run by (auto simp: reconcile_def getVG_def run_call)
    then show ?thesis using assms(5) run by simp
  next
    case (Inr v)
    then have "vg_key v = req"
      by (intro assms(3) [where s = s and s' = "snd (cl_GetVG (r_Client r) req s)"]) (simp add: prod_eq_iff)
    with spec_server.reconcile_keeps_spec [OF server Inr, of ticks] assms(5) show ?thesis
      by (auto simp: spec_world_def)
  qed
  ultimately show ?thesis by (simp add: within_def)
qed

lemma stays_in_own_group_witness:
  "within (NN ''ns'' ''vg'') (StatusUpdateVG (set_status EventStatusPending (example_group\<lparr>vg_Status := empty_status\<rparr>)))"
proof -
  let ?v = "example_group\<lparr>vg_Status := empty_status\<rparr>"
  let ?r = "(group_reconciler ?v)\<lparr>r_Client := (r_Client (group_reconciler ?v))\<lparr>cl_GetVG :=
    (\<lambda>k s. (if k = vg_key ?v then Inr ?v else Inl (errorf ''down''), s))\<rparr>\<rparr>"
  let ?w = "snd (run_state (reconcile ?r (NN ''ns'' ''vg'')) (start () []))"
  have "StatusUpdateVG (set_status EventStatusPending ?v) \<in> set (trace ?w)"
    by (simp add: reconcile_def reconcileCreate_def createChecked_def createFromClass_def
        failCreate_def getVG_def getClass_def statusUpdateVG_def run_call group_reconciler_def
        example_reconciler_def failing_client_def Let_def deletion_is_zero_def example_group_def
        empty_vg_def empty_status_def empty_spec_def vg_key_def)
  then show ?thesis
    by (intro stays_in_own_group [of ?r])
      (auto simp: group_reconciler_def example_reconciler_def failing_client_def split: if_splits)
qed

end
