(* ===== verification/FakeClient.thy ===== *)
theory FakeClient
  imports OwnWrites
begin

text \<open>
  The API client of \<^verbatim>\<open>test/shared/fake-client/fake-client.go\<close>, the implementation of
  \<open>client.Client\<close> in the repository: a map from storage keys to objects with an error injector
  in front of every call. It satisfies the interface of ClusterContract, so that what the controller promises there holds
  on this store.
  The map is an association list with one entry for each key, in the order the map is iterated.
  Objects are values: the aliasing between a stored object and its caller's copy is not modelled.
  \<open>Get\<close> encodes the stored object as JSON and decodes it into the caller's, which is the parameter
  \<open>fc_Recode\<close>; the real one drops the fraction of a second of a time.
  All kinds are registered, so the errors of an object without a kind do not occur; of the
  modelled kinds only groups carry a deletion timestamp. Left out: the listings of groups and
  volumes, which the controller never asks for, and the operations that panic with
  "implement me".
\<close>

section \<open>The store\<close>

datatype StorageKey = SK (skNamespace: string) (skName: string) (skKind: string)

datatype kobj =
    KVG vg | KSnap volsnap | KContent content | KClass vsclass | KPVC pvc | KPV pv

type_synonym store = "(StorageKey \<times> kobj) list"

fun kindOf :: "kobj \<Rightarrow> string" where
  "kindOf (KVG _) = ''DellCsiVolumeGroupSnapshot''"
| "kindOf (KSnap _) = ''VolumeSnapshot''"
| "kindOf (KContent _) = ''VolumeSnapshotContent''"
| "kindOf (KClass _) = ''VolumeSnapshotClass''"
| "kindOf (KPVC _) = ''PersistentVolumeClaim''"
| "kindOf (KPV _) = ''PersistentVolume''"

fun nameOf :: "kobj \<Rightarrow> string" where
  "nameOf (KVG v) = vg_Name v"
| "nameOf (KSnap s) = vs_Name s"
| "nameOf (KContent c) = vc_Name c"
| "nameOf (KClass c) = sc_Name c"
| "nameOf (KPVC c) = pvc_Name c"
| "nameOf (KPV v) = pv_Name v"

text \<open>The API group of \<open>GVKForObject\<close>, as the scheme registers it.\<close>

fun groupOf :: "kobj \<Rightarrow> string" where
  "groupOf (KVG _) = ''volumegroup.storage.dell.com''"
| "groupOf (KSnap _) = ''snapshot.storage.k8s.io''"
| "groupOf (KContent _) = ''snapshot.storage.k8s.io''"
| "groupOf (KClass _) = ''snapshot.storage.k8s.io''"
| "groupOf (KPVC _) = []"
| "groupOf (KPV _) = []"

fun namespaceOf :: "kobj \<Rightarrow> string" where
  "namespaceOf (KVG v) = vg_Namespace v"
| "namespaceOf (KSnap s) = vs_Namespace s"
| "namespaceOf (KPVC c) = pvc_Namespace c"
| "namespaceOf _ = []"

definition getKey :: "kobj \<Rightarrow> StorageKey" where
  "getKey obj = SK (namespaceOf obj) (nameOf obj) (kindOf obj)"

text \<open>
  The injector and the library functions the client calls: \<open>ErrorInjector.ShouldFail\<close> on an
  object or on a list of a kind (constantly \<open>None\<close> for a nil injector),
  \<open>errors.NewNotFound\<close> and \<open>NewAlreadyExists\<close> (group, kind, name), the JSON round trip of a \<open>Get\<close>, the
  error of a mistyped decode, and the string of a label selector. \<open>fc_NilContent\<close> stands for the
  panic of \<open>Delete\<close> on a snapshot with no content name.
\<close>

record fakecfg =
  fc_ShouldFail :: "string \<Rightarrow> kobj \<Rightarrow> error option"
  fc_ShouldFailList :: "string \<Rightarrow> error option"
  fc_NewNotFound :: "string \<Rightarrow> string \<Rightarrow> string \<Rightarrow> error"
  fc_NewAlreadyExists :: "string \<Rightarrow> string \<Rightarrow> string \<Rightarrow> error"
  fc_Recode :: "kobj \<Rightarrow> error + kobj"
  fc_WrongKind :: error
  fc_SelectorString :: "(string \<times> string) list \<Rightarrow> string"
  fc_NilContent :: error

definition newFakeClient :: "kobj list \<Rightarrow> store" where
  "newFakeClient initialObjects = fold (\<lambda>obj. AList.update (getKey obj) obj) initialObjects []"

text \<open>\<open>Get\<close> for one kind of object: the empty object it decodes into, and the projection to it.\<close>

definition fakeGet ::
  "fakecfg \<Rightarrow> kobj \<Rightarrow> (kobj \<Rightarrow> 'a option) \<Rightarrow> nname \<Rightarrow> store \<Rightarrow> error + 'a" where
  "fakeGet cfg obj proj key st =
     (case fc_ShouldFail cfg ''Get'' obj of
        Some err \<Rightarrow> Inl err
      | None \<Rightarrow>
          (case map_of st (SK (nnNamespace key) (nnName key) (kindOf obj)) of
             None \<Rightarrow> Inl (fc_NewNotFound cfg (groupOf obj) (kindOf obj) (nnName key))
           | Some ob \<Rightarrow>
               (case fc_Recode cfg ob of
                  Inl err \<Rightarrow> Inl err
                | Inr ob' \<Rightarrow>
                    (case proj ob' of None \<Rightarrow> Inl (fc_WrongKind cfg) | Some x \<Rightarrow> Inr x))))"

fun asVG :: "kobj \<Rightarrow> vg option" where "asVG (KVG v) = Some v" | "asVG _ = None"
fun asSnap :: "kobj \<Rightarrow> volsnap option" where "asSnap (KSnap s) = Some s" | "asSnap _ = None"
fun asContent :: "kobj \<Rightarrow> content option" where
  "asContent (KContent c) = Some c" | "asContent _ = None"
fun asClass :: "kobj \<Rightarrow> vsclass option" where
  "asClass (KClass c) = Some c" | "asClass _ = None"
fun asPVC :: "kobj \<Rightarrow> pvc option" where "asPVC (KPVC c) = Some c" | "asPVC _ = None"
fun asPV :: "kobj \<Rightarrow> pv option" where "asPV (KPV v) = Some v" | "asPV _ = None"

definition listVolumeSnapshotContent :: "store \<Rightarrow> content list" where
  "listVolumeSnapshotContent st = List.map_filter (\<lambda>(k, ob). asContent ob) st"

text \<open>A claim is listed once for every label value the selector's string ends in.\<close>

definition listPersistentVolumeClaim :: "fakecfg \<Rightarrow> listopts \<Rightarrow> store \<Rightarrow> pvc list" where
  "listPersistentVolumeClaim cfg lo st =
     concat (map (\<lambda>(k, ob).
       case asPVC ob of
         None \<Rightarrow> []
       | Some vol \<Rightarrow>
           if pvc_Namespace vol \<noteq> lo_Namespace lo then []
           else (case lo_Labels lo of
                   None \<Rightarrow> [vol]
                 | Some ls \<Rightarrow>
                     map (\<lambda>_. vol) (filter (\<lambda>(_, l).
                       fc_SelectorString cfg ls = ''volume-group='' @ l) (pvc_Labels vol)))) st)"

definition fakeList :: "fakecfg \<Rightarrow> string \<Rightarrow> 'a list \<Rightarrow> error + 'a list" where
  "fakeList cfg kind items =
     (case fc_ShouldFailList cfg kind of Some err \<Rightarrow> Inl err | None \<Rightarrow> Inr items)"

definition fakeCreate :: "fakecfg \<Rightarrow> kobj \<Rightarrow> store \<Rightarrow> error option \<times> store" where
  "fakeCreate cfg obj st =
     (case fc_ShouldFail cfg ''Create'' obj of
        Some err \<Rightarrow> (Some err, st)
      | None \<Rightarrow>
          (case map_of st (getKey obj) of
             Some _ \<Rightarrow> (Some (fc_NewAlreadyExists cfg (groupOf obj) (kindOf obj) (nameOf obj)), st)
           | None \<Rightarrow> (None, AList.update (getKey obj) obj st)))"

definition fakeUpdate :: "fakecfg \<Rightarrow> kobj \<Rightarrow> store \<Rightarrow> error option \<times> store" where
  "fakeUpdate cfg obj st =
     (case fc_ShouldFail cfg ''Update'' obj of
        Some err \<Rightarrow> (Some err, st)
      | None \<Rightarrow>
          (case map_of st (getKey obj) of
             None \<Rightarrow> (Some (fc_NewNotFound cfg (groupOf obj) (kindOf obj) (nameOf obj)), st)
           | Some _ \<Rightarrow> (None, AList.update (getKey obj) obj st)))"

text \<open>\<open>Delete\<close>: nothing happens to an object that is being deleted; deleting a snapshot takes
  its content along if the content's policy says so.\<close>

definition fakeDelete :: "fakecfg \<Rightarrow> kobj \<Rightarrow> store \<Rightarrow> error option \<times> store" where
  "fakeDelete cfg obj st =
     (case fc_ShouldFail cfg ''Delete'' obj of
        Some err \<Rightarrow> (Some err, st)
      | None \<Rightarrow>
          (case map_of st (getKey obj) of
             None \<Rightarrow> (Some (fc_NewNotFound cfg (groupOf obj) (kindOf obj) (nameOf obj)), st)
           | Some _ \<Rightarrow>
               (case obj of
                  KVG v \<Rightarrow>
                    if \<not> deletion_is_zero v then (None, st)
                    else (None, AList.delete (getKey obj) st)
                | KSnap s \<Rightarrow>
                    (case vs_SourceContentName s of
                       None \<Rightarrow> (Some (fc_NilContent cfg), st)
                     | Some contentname \<Rightarrow>
                         (case fakeGet cfg (KContent empty_content) asContent (NN [] contentname) st of
                            Inl err \<Rightarrow> (Some err, st)
                          | Inr vc \<Rightarrow>
                              (None, AList.delete (getKey obj)
                                 (if vc_DeletionPolicy vc = VolumeSnapshotContentDelete
                                  then AList.delete (getKey (KContent vc)) st else st))))
                | _ \<Rightarrow> (None, AList.delete (getKey obj) st))))"

text \<open>\<open>SetDeletionTimeStamp\<close>: how a test marks a group with finalizers for deletion.\<close>

definition setDeletionTimeStamp :: "int64 \<Rightarrow> vg \<Rightarrow> store \<Rightarrow> error option \<times> store" where
  "setDeletionTimeStamp now v st =
     (if length (vg_Finalizers v) > 0
      then (None, AList.update (getKey (KVG v))
              (KVG (v\<lparr>vg_DeletionTimestamp := Some (UnixNano now)\<rparr>)) st)
      else (Some (errorf ''failed to set timestamp''), st))"

section \<open>The client\<close>

definition written :: "'a \<Rightarrow> error option \<times> store \<Rightarrow> (error + 'a) \<times> store" where
  "written x res = (case fst res of Some err \<Rightarrow> Inl err | None \<Rightarrow> Inr x, snd res)"

definition empty_class :: vsclass where
  "empty_class = \<lparr>sc_Name = [], sc_Driver = [], sc_DeletionPolicy = []\<rparr>"

definition empty_pvc :: pvc where
  "empty_pvc = \<lparr>pvc_Name = [], pvc_Namespace = [], pvc_Labels = [], pvc_VolumeName = [],
     pvc_Phase = []\<rparr>"

definition empty_pv :: pv where
  "empty_pv = \<lparr>pv_Name = [], pv_CSI = None, pv_Phase = []\<rparr>"

definition fake_client :: "fakecfg \<Rightarrow> store client" where
  "fake_client cfg = \<lparr>
     cl_GetVG = (\<lambda>k s. (fakeGet cfg (KVG empty_vg) asVG k s, s)),
     cl_GetClass = (\<lambda>k s. (fakeGet cfg (KClass empty_class) asClass k s, s)),
     cl_GetSnap = (\<lambda>k s. (fakeGet cfg (KSnap empty_snap) asSnap k s, s)),
     cl_GetContent = (\<lambda>k s. (fakeGet cfg (KContent empty_content) asContent k s, s)),
     cl_GetPVC = (\<lambda>k s. (fakeGet cfg (KPVC empty_pvc) asPVC k s, s)),
     cl_GetPV = (\<lambda>k s. (fakeGet cfg (KPV empty_pv) asPV k s, s)),
     cl_ListPVC = (\<lambda>lo s.
       (fakeList cfg (kindOf (KPVC empty_pvc)) (listPersistentVolumeClaim cfg lo s), s)),
     cl_ListContent = (\<lambda>s.
       (fakeList cfg (kindOf (KContent empty_content)) (listVolumeSnapshotContent s), s)),
     cl_CreateContent = (\<lambda>c s. written c (fakeCreate cfg (KContent c) s)),
     cl_CreateSnap = (\<lambda>x s. written x (fakeCreate cfg (KSnap x) s)),
     cl_UpdateVG = (\<lambda>v s. written v (fakeUpdate cfg (KVG v) s)),
     cl_StatusUpdateVG = (\<lambda>v s. written v (fakeUpdate cfg (KVG v) s)),
     cl_StatusUpdateContent = (\<lambda>c s. written c (fakeUpdate cfg (KContent c) s)),
     cl_DeleteSnap = (\<lambda>x s. written () (fakeDelete cfg (KSnap x) s)),
     cl_DeleteVG = (\<lambda>v s. written () (fakeDelete cfg (KVG v) s))\<rparr>"

section \<open>The store as an implementation of the interface\<close>

text \<open>
  Every object is stored under its own key; the views read the map. \<open>fake_reconciler\<close> is a
  reconciler on this client: any error injector, any driver that answers without touching the
  store, and finalizer functions that behave as controller-runtime documents them.
\<close>

definition wf_store :: "store \<Rightarrow> bool" where
  "wf_store st = list_all (\<lambda>(k, ob). k = getKey ob) st"

definition stored_groups :: "store \<Rightarrow> nname \<Rightarrow> vg option" where
  "stored_groups st k = Option.bind
     (map_of st (SK (nnNamespace k) (nnName k) ''DellCsiVolumeGroupSnapshot'')) asVG"

definition stored_snaps :: "store \<Rightarrow> nname \<Rightarrow> volsnap option" where
  "stored_snaps st k = Option.bind
     (map_of st (SK (nnNamespace k) (nnName k) ''VolumeSnapshot'')) asSnap"

definition fake_reconciler ::
  "fakecfg \<Rightarrow> (string \<Rightarrow> string list \<Rightarrow> (string \<times> string) list \<Rightarrow> error + vgsresponse)
     \<Rightarrow> store reconciler \<Rightarrow> store reconciler" where
  "fake_reconciler cfg driver r = r\<lparr>
     r_Client := fake_client (cfg\<lparr>fc_Recode := Inr\<rparr>),
     r_VGClient := (\<lambda>name ids ps s. (driver name ids ps, s)),
     r_AddFinalizer := (\<lambda>fs f. if f \<in> set fs then fs else fs @ [f]),
     r_RemoveFinalizer := (\<lambda>fs f. removeAll f fs)\<rparr>"

text \<open>An injector that lets every \<open>Get\<close> through.\<close>

definition reads_succeed :: "fakecfg \<Rightarrow> fakecfg" where
  "reads_succeed cfg = cfg\<lparr>fc_ShouldFail :=
     (\<lambda>op obj. if op = ''Get'' then None else fc_ShouldFail cfg op obj)\<rparr>"

lemma as_kind:
  "kindOf ob = ''DellCsiVolumeGroupSnapshot'' \<longleftrightarrow> (\<exists>v. ob = KVG v)"
  "kindOf ob = ''VolumeSnapshot'' \<longleftrightarrow> (\<exists>x. ob = KSnap x)"
  by (cases ob; simp)+

lemma as_option_iff [simp]:
  "asVG ob = Some v \<longleftrightarrow> ob = KVG v" "asSnap ob = Some x \<longleftrightarrow> ob = KSnap x"
  "asContent ob = Some c \<longleftrightarrow> ob = KContent c"
  by (cases ob; simp)+

lemma wf_store_Nil [simp]: "wf_store []"
  by (simp add: wf_store_def)

lemma wf_store_update: "wf_store st \<Longrightarrow> wf_store (AList.update (getKey ob) ob st)"
  by (induction st) (auto simp: wf_store_def)

lemma wf_store_delete: "wf_store st \<Longrightarrow> wf_store (AList.delete k st)"
  by (auto simp: wf_store_def list_all_iff AList.delete_eq)

lemma wf_store_get: "wf_store st \<Longrightarrow> map_of st k = Some ob \<Longrightarrow> getKey ob = k"
  by (auto simp: wf_store_def list_all_iff dest!: map_of_SomeD)

lemma wf_newFakeClient: "wf_store (newFakeClient objs)"
proof -
  have "wf_store st \<Longrightarrow> wf_store (fold (\<lambda>ob. AList.update (getKey ob) ob) objs st)" for st
    by (induction objs arbitrary: st) (simp_all add: wf_store_update)
  then show ?thesis by (simp add: newFakeClient_def)
qed

lemma eq_NN_iff: "k = NN ns n \<longleftrightarrow> nnNamespace k = ns \<and> nnName k = n"
  by (cases k) simp

text \<open>How the two views see an insertion and a removal.\<close>

lemma stored_update [simp]:
  "stored_groups (AList.update (getKey (KVG v)) (KVG v) st) = (stored_groups st)(vg_key v \<mapsto> v)"
  "stored_snaps (AList.update (getKey (KVG v)) (KVG v) st) = stored_snaps st"
  "stored_groups (AList.update (getKey (KSnap x)) (KSnap x) st) = stored_groups st"
  "stored_groups (AList.update (getKey (KContent c)) (KContent c) st) = stored_groups st"
  "stored_snaps (AList.update (getKey (KContent c)) (KContent c) st) = stored_snaps st"
  by (auto simp: stored_groups_def stored_snaps_def getKey_def fun_eq_iff AList.update_conv'
      vg_key_def eq_NN_iff)

lemma stored_delete [simp]:
  "stored_groups (AList.delete (getKey (KVG v)) st) = (stored_groups st)(vg_key v := None)"
  "stored_snaps (AList.delete (getKey (KVG v)) st) = stored_snaps st"
  "stored_groups (AList.delete (getKey (KSnap x)) st) = stored_groups st"
  "stored_snaps (AList.delete (getKey (KSnap x)) st) = (stored_snaps st)(snap_key x := None)"
  "stored_groups (AList.delete (getKey (KContent c)) st) = stored_groups st"
  "stored_snaps (AList.delete (getKey (KContent c)) st) = stored_snaps st"
  by (auto simp: stored_groups_def stored_snaps_def getKey_def fun_eq_iff AList.delete_conv'
      vg_key_def snap_key_def eq_NN_iff)

text \<open>What each call of the client does to the store.\<close>

lemma fakeGet_SomeD:
  "fakeGet (cfg\<lparr>fc_Recode := Inr\<rparr>) obj proj k st = Inr x \<Longrightarrow>
     \<exists>ob. map_of st (SK (nnNamespace k) (nnName k) (kindOf obj)) = Some ob \<and> proj ob = Some x"
  by (auto simp: fakeGet_def split: option.splits)

lemma written_cases:
  "written x res = (Inr y, s') \<longleftrightarrow> y = x \<and> res = (None, s')"
  "written x res = (Inl e, s') \<longleftrightarrow> res = (Some e, s')"
  by (cases res; cases "fst res"; auto simp: written_def)+

lemma snd_written [simp]: "snd (written x res) = snd res"
  by (simp add: written_def)

lemma fakeCreate_store:
  "snd (fakeCreate cfg ob st) \<in> {st, AList.update (getKey ob) ob st}"
  by (simp add: fakeCreate_def split: option.split)

lemma fakeUpdate_cases:
  "fakeUpdate cfg ob st = (None, s') \<Longrightarrow> s' = AList.update (getKey ob) ob st"
  "fakeUpdate cfg ob st = (Some e, s') \<Longrightarrow> s' = st"
  by (auto simp: fakeUpdate_def split: option.splits)

lemma fakeUpdate_store:
  "snd (fakeUpdate cfg ob st) \<in> {st, AList.update (getKey ob) ob st}"
  by (simp add: fakeUpdate_def split: option.split)

lemma fakeDelete_vg:
  "snd (fakeDelete cfg (KVG v) st) \<in> {st, AList.delete (getKey (KVG v)) st}"
  by (simp add: fakeDelete_def split: option.split)

lemma fakeDelete_snap:
  "fakeDelete cfg (KSnap x) st = (None, s') \<Longrightarrow>
     s' = AList.delete (getKey (KSnap x)) st
     \<or> (\<exists>c. s' = AList.delete (getKey (KSnap x)) (AList.delete (getKey (KContent c)) st))"
  "fakeDelete cfg (KSnap x) st = (Some e, s') \<Longrightarrow> s' = st"
  by (auto simp: fakeDelete_def split: option.splits sum.splits if_splits)

lemma fakeDelete_snap_store:
  "snd (fakeDelete cfg (KSnap x) st) \<in> {st, AList.delete (getKey (KSnap x)) st}
     \<union> range (\<lambda>c. AList.delete (getKey (KSnap x)) (AList.delete (getKey (KContent c)) st))"
  by (cases "fakeDelete cfg (KSnap x) st"; cases "fst (fakeDelete cfg (KSnap x) st)")
    (auto dest: fakeDelete_snap)

lemma fake_simps [simp]:
  "r_Client (fake_reconciler cfg driver r) = fake_client (cfg\<lparr>fc_Recode := Inr\<rparr>)"
  "r_VGClient (fake_reconciler cfg driver r) = (\<lambda>name ids ps s. (driver name ids ps, s))"
  "r_AddFinalizer (fake_reconciler cfg driver r) = (\<lambda>fs f. if f \<in> set fs then fs else fs @ [f])"
  "r_RemoveFinalizer (fake_reconciler cfg driver r) = (\<lambda>fs f. removeAll f fs)"
  "r_DriverName (fake_reconciler cfg driver r) = r_DriverName r"
  by (simp_all add: fake_reconciler_def)

lemma fake_apply_cases:
  fixes cfg driver r e st
  defines "st' \<equiv> apply_effect (fake_reconciler cfg driver r) e st"
  obtains (same) "st' = st"
  | (vg) v where "group_effect e" "st' = AList.update (getKey (KVG v)) (KVG v) st"
  | (no_vg) v where "group_effect e" "st' = AList.delete (getKey (KVG v)) st"
  | (snap) x where "\<not> group_effect e" "\<not> is_read e" "st' = AList.update (getKey (KSnap x)) (KSnap x) st"
  | (content) c where "\<not> group_effect e" "\<not> is_read e"
      "st' = AList.update (getKey (KContent c)) (KContent c) st"
  | (no_snap) x where "\<not> group_effect e" "\<not> is_read e" "st' = AList.delete (getKey (KSnap x)) st"
  | (no_both) x c where "\<not> group_effect e" "\<not> is_read e"
      "st' = AList.delete (getKey (KSnap x)) (AList.delete (getKey (KContent c)) st)"
proof -
  let ?cfg = "cfg\<lparr>fc_Recode := Inr\<rparr>"
  show thesis
  proof (cases e)
    case (CreateContent c)
    with fakeCreate_store [of ?cfg "KContent c" st] show thesis
      by (auto simp: st'_def fake_client_def intro: same content)
  next
    case (CreateSnap x)
    with fakeCreate_store [of ?cfg "KSnap x" st] show thesis
      by (auto simp: st'_def fake_client_def intro: same snap)
  next
    case (UpdateVG v)
    with fakeUpdate_store [of ?cfg "KVG v" st] show thesis
      by (auto simp: st'_def fake_client_def intro: same vg)
  next
    case (StatusUpdateVG v)
    with fakeUpdate_store [of ?cfg "KVG v" st] show thesis
      by (auto simp: st'_def fake_client_def intro: same vg)
  next
    case (StatusUpdateContent c)
    with fakeUpdate_store [of ?cfg "KContent c" st] show thesis
      by (auto simp: st'_def fake_client_def intro: same content)
  next
    case (DeleteVG v)
    with fakeDelete_vg [of ?cfg v st] show thesis
      by (auto simp: st'_def fake_client_def intro: same no_vg)
  next
    case (DeleteSnap x)
    with fakeDelete_snap_store [of ?cfg x st] show thesis
      by (auto simp: st'_def fake_client_def intro: same no_snap no_both)
  qed (auto simp: st'_def fake_client_def intro: same)
qed

interpretation fake: cluster_contract "fake_reconciler cfg driver r" wf_store stored_groups stored_snaps
  for cfg driver r
proof unfold_locales
  let ?r = "fake_reconciler cfg driver r"
  let ?cfg = "cfg\<lparr>fc_Recode := Inr\<rparr>"
  fix st st' :: store and e k v v' u x x' err
  show "wf_store st \<Longrightarrow> wf_store (apply_effect ?r e st)"
    by (cases rule: fake_apply_cases [of cfg driver r e st])
      (simp_all add: wf_store_update wf_store_delete)
  show "wf_store st \<Longrightarrow> is_read e \<Longrightarrow> apply_effect ?r e st = st"
    by (cases e) (simp_all add: fake_client_def)
  show "\<not> group_effect e \<Longrightarrow> stored_groups (apply_effect ?r e st) = stored_groups st"
    by (cases rule: fake_apply_cases [of cfg driver r e st]) simp_all
  show "group_effect e \<Longrightarrow> stored_snaps (apply_effect ?r e st) = stored_snaps st"
    by (cases rule: fake_apply_cases [of cfg driver r e st]) simp_all
  show "fst (cl_GetVG (r_Client ?r) k st) = Inr v \<Longrightarrow> wf_store st \<Longrightarrow>
      stored_groups st k = Some v \<and> vg_key v = k"
    by (auto simp: fake_client_def stored_groups_def vg_key_def getKey_def eq_NN_iff
        dest!: fakeGet_SomeD wf_store_get split: nname.splits)
  show "fst (cl_GetSnap (r_Client ?r) k st) = Inr x \<Longrightarrow> wf_store st \<Longrightarrow>
      stored_snaps st k = Some x \<and> snap_key x = k"
    by (auto simp: fake_client_def stored_snaps_def snap_key_def getKey_def eq_NN_iff
        dest!: fakeGet_SomeD wf_store_get split: nname.splits)
  show "cl_UpdateVG (r_Client ?r) v st = (Inr v', st') \<Longrightarrow> wf_store st \<Longrightarrow>
      same_group v v' \<and> (stored_groups st' = (stored_groups st)(vg_key v \<mapsto> v')
        \<or> \<not> deletion_is_zero v \<and> vg_Finalizers v = []
          \<and> stored_groups st' = (stored_groups st)(vg_key v := None))"
    by (auto simp: fake_client_def written_cases dest!: fakeUpdate_cases)
  show "cl_UpdateVG (r_Client ?r) v st = (Inl err, st') \<Longrightarrow> stored_groups st' = stored_groups st"
    by (auto simp: fake_client_def written_cases dest!: fakeUpdate_cases)
  show "cl_StatusUpdateVG (r_Client ?r) v st = (Inr v', st') \<Longrightarrow> wf_store st \<Longrightarrow>
      same_group v v' \<and> stored_groups st' = (stored_groups st)(vg_key v \<mapsto> v')"
    by (auto simp: fake_client_def written_cases dest!: fakeUpdate_cases)
  show "cl_StatusUpdateVG (r_Client ?r) v st = (Inl err, st') \<Longrightarrow>
      stored_groups st' = stored_groups st"
    by (auto simp: fake_client_def written_cases dest!: fakeUpdate_cases)
  show "stored_groups (apply_effect ?r (DeleteVG v) st) k = Some u \<Longrightarrow> wf_store st \<Longrightarrow>
      stored_groups st k = Some u \<or> (\<exists>u' t. stored_groups st k = Some u' \<and> t \<noteq> ZeroTime
        \<and> u = u'\<lparr>vg_DeletionTimestamp := Some t\<rparr>)"
    using fakeDelete_vg [of ?cfg v st] by (auto simp: fake_client_def split: if_splits)
  show "cl_DeleteSnap (r_Client ?r) x st = (Inr x', st') \<Longrightarrow>
      stored_snaps st' = (stored_snaps st)(snap_key x := None)"
    by (auto simp: fake_client_def written_cases dest!: fakeDelete_snap(1))
  show "cl_DeleteSnap (r_Client ?r) x st = (Inl err, st') \<Longrightarrow> stored_snaps st' = stored_snaps st"
    by (auto simp: fake_client_def written_cases dest!: fakeDelete_snap(2))
qed auto

interpretation faithful: reliable_cluster "fake_reconciler (reads_succeed cfg) driver r"
  wf_store stored_groups stored_snaps for cfg driver r
proof unfold_locales
  fix st :: store and k err
  assume "wf_store st"
    and "fst (cl_GetSnap (r_Client (fake_reconciler (reads_succeed cfg) driver r)) k st) = Inl err"
  then show "stored_snaps st k = None"
    by (auto simp: fake_client_def fakeGet_def reads_succeed_def stored_snaps_def
        split: option.splits dest!: wf_store_get)
qed

text \<open>The store hands back what it was sent, so it is a server of the event filter's interface.\<close>

interpretation echoing: spec_server "fake_reconciler cfg driver r" for cfg driver r
  by unfold_locales (simp_all add: fake_client_def written_cases)

end
