(* ===== verification/System.thy ===== *)
theory System
  imports FakeClient
begin

text \<open>
  The controller on the repository's store: what a reconciliation has done when it reports
  success, what a failing one has left, and the invariant of every state that reconciliations,
  informer callbacks, users and the snapshot controller can reach together. The facts come from
  the interface of ClusterContract, interpreted on the store in FakeClient.
\<close>

section \<open>A healthy cluster\<close>

text \<open>What \<open>errors.NewNotFound\<close> and \<open>NewAlreadyExists\<close> are documented to return for a name without
  characters that \<open>%q\<close> escapes.\<close>

definition qualifiedName :: "string \<Rightarrow> string \<Rightarrow> string" where
  "qualifiedName grp resource = (if grp = [] then resource else resource @ ''.'' @ grp)"

definition quotedName :: "string \<Rightarrow> string" where
  "quotedName name = CHR 0x22 # name @ [CHR 0x22]"

definition newNotFound :: "string \<Rightarrow> string \<Rightarrow> string \<Rightarrow> error" where
  "newNotFound grp resource name =
     Error ''NotFound'' (qualifiedName grp resource @ '' '' @ quotedName name @ '' not found'')"

definition newAlreadyExists :: "string \<Rightarrow> string \<Rightarrow> string \<Rightarrow> error" where
  "newAlreadyExists grp resource name =
     Error ''AlreadyExists'' (qualifiedName grp resource @ '' '' @ quotedName name @ '' already exists'')"

text \<open>An injector that never fails, a driver that snapshots each volume it is given, a class, a
  group with a list of claim names, and one bound claim: the cluster the examples run on.\<close>

definition healthy :: fakecfg where
  "healthy = \<lparr>fc_ShouldFail = (\<lambda>op ob. None), fc_ShouldFailList = (\<lambda>k. None),
     fc_NewNotFound = newNotFound, fc_NewAlreadyExists = newAlreadyExists, fc_Recode = Inr,
     fc_WrongKind = errorf ''wrong kind'',
     fc_SelectorString = concat \<circ> map (\<lambda>(k, v). k @ CHR ''='' # v),
     fc_NilContent = errorf ''nil dereference''\<rparr>"

definition example_driver ::
  "string \<Rightarrow> string list \<Rightarrow> (string \<times> string) list \<Rightarrow> error + vgsresponse" where
  "example_driver name ids ps = Inr \<lparr>res_SnapshotGroupID = ''array-7'',
     res_Snapshots = map (\<lambda>i. \<lparr>snap_Name = name, snap_CapacityBytes = 8, snap_SnapId = ''s-'' @ i,
       snap_SourceId = i, snap_ReadyToUse = True, snap_CreationTime = 5\<rparr>) ids,
     res_CreationTime = 5\<rparr>"

abbreviation controller :: "fakecfg \<Rightarrow> store reconciler" where
  "controller cfg \<equiv>
     fake_reconciler cfg example_driver (example_reconciler (failing_client (errorf ''down'')))"

definition new_group :: vg where
  "new_group = example_group\<lparr>vg_Spec := empty_spec\<lparr>spec_Volumesnapshotclass := ''class'',
     spec_PvcList := Some [''a'']\<rparr>, vg_Status := empty_status\<rparr>"

definition example_objects :: "kobj list" where
  "example_objects = [KClass example_class, KPVC (example_claim ''a'' ''v1'' ClaimBound),
     KPV ((example_volume ''v1/array/scsi'')\<lparr>pv_Name := ''v1''\<rparr>)]"

definition example_store :: "vg \<Rightarrow> store" where
  "example_store v = newFakeClient (KVG v # example_objects)"

lemma wf_example_store: "wf_store (example_store v)"
  by (simp add: example_store_def wf_newFakeClient)

section \<open>Steps of the whole system\<close>

text \<open>
  What others do: a user creates a group (its status is a subresource and starts empty) or marks
  one for deletion, or anything at all happens to an object that is not a group. One step of the
  system is such a move, a reconciliation of any request, with any interleaving of timer and
  ticks, or an informer callback.
\<close>

inductive outside :: "fakecfg \<Rightarrow> store \<Rightarrow> store \<Rightarrow> bool" for cfg where
  user_creates:
    "vg_Status v = empty_status \<Longrightarrow> fakeCreate cfg (KVG v) st = (e, st') \<Longrightarrow> outside cfg st st'"
| user_deletes:
    "stored_groups st k = Some v \<Longrightarrow> setDeletionTimeStamp now v st = (e, st') \<Longrightarrow>
     outside cfg st st'"
| other_stored:
    "kindOf ob \<noteq> ''DellCsiVolumeGroupSnapshot'' \<Longrightarrow>
     outside cfg st (AList.update (getKey ob) ob st)"
| other_removed:
    "kindOf ob \<noteq> ''DellCsiVolumeGroupSnapshot'' \<Longrightarrow>
     outside cfg st (AList.delete (getKey ob) st)"

inductive step ::
  "fakecfg \<Rightarrow> (string \<Rightarrow> string list \<Rightarrow> (string \<times> string) list \<Rightarrow> error + vgsresponse)
     \<Rightarrow> store reconciler \<Rightarrow> store \<Rightarrow> store \<Rightarrow> bool" for cfg driver r where
  reconciles:
    "run_state (reconcile (fake_reconciler cfg driver r) req) (start st ticks) = (x, w) \<Longrightarrow>
     step cfg driver r st (cluster w)"
| content_deleted:
    "run_state (HandleSnapContentDelete (fake_reconciler cfg driver r) obj) (start st []) = (u, w) \<Longrightarrow>
     step cfg driver r st (cluster w)"
| snapshot_created:
    "run_state (handleSnapCreate (fake_reconciler cfg driver r) obj) (start st []) = (y, w) \<Longrightarrow>
     step cfg driver r st (cluster w)"
| snapshot_updated:
    "run_state (handleSnapUpdate (fake_reconciler cfg driver r) obj) (start st []) = (y, w) \<Longrightarrow>
     step cfg driver r st (cluster w)"
| others_act:
    "outside cfg st st' \<Longrightarrow> step cfg driver r st st'"

text \<open>An object of another kind does not touch the groups.\<close>

lemma other_kind_groups:
  assumes "kindOf ob \<noteq> ''DellCsiVolumeGroupSnapshot''"
  shows "stored_groups (AList.update (getKey ob) ob st) = stored_groups st"
    "stored_groups (AList.delete (getKey ob) st) = stored_groups st"
  using assms
  by (auto simp: stored_groups_def getKey_def fun_eq_iff AList.update_conv' AList.delete_conv')

lemma good_empty_status: "vg_Status v = empty_status \<Longrightarrow> good_group v"
  by (simp add: good_group_def empty_status_def)

lemma outside_keeps_good:
  assumes "outside cfg st st'" and "fake.all_good st"
  shows "fake.all_good st'"
  using assms(1)
proof cases
  case (user_creates v e)
  then have "st' = st \<or> st' = AList.update (getKey (KVG v)) (KVG v) st"
    using fakeCreate_store [of cfg "KVG v" st] by auto
  with assms(2) good_empty_status [OF user_creates(1)] show ?thesis
    by (auto simp: fake.all_good_def wf_store_update split: if_splits)
next
  case (user_deletes k v now e)
  then have "st' = st \<or> st' = AList.update (getKey (KVG (v\<lparr>vg_DeletionTimestamp := Some (UnixNano now)\<rparr>)))
      (KVG (v\<lparr>vg_DeletionTimestamp := Some (UnixNano now)\<rparr>)) st"
    by (auto simp: setDeletionTimeStamp_def getKey_def split: if_splits)
  moreover have "good_group v"
    using assms(2) user_deletes(1) by (auto simp: fake.all_good_def)
  then have "good_group (v\<lparr>vg_DeletionTimestamp := Some (UnixNano now)\<rparr>)"
    by (simp add: good_group_def deletion_is_zero_def)
  ultimately show ?thesis
    using assms(2) by (auto simp: fake.all_good_def wf_store_update split: if_splits)
next
  case (other_stored ob)
  then show ?thesis
    using assms(2) by (simp add: fake.all_good_def wf_store_update other_kind_groups)
next
  case (other_removed ob)
  then show ?thesis
    using assms(2) by (simp add: fake.all_good_def wf_store_delete other_kind_groups)
qed

lemma step_keeps_good:
  assumes "step cfg driver r st st'" and good: "fake.all_good st"
  shows "fake.all_good st'"
proof -
  have start: "fake.all_good (cluster (start st ticks))" for ticks
    using good by simp
  from assms(1) show ?thesis
    by cases (auto intro: keeps_run [OF fake.reconcile_keeps_good start]
        keeps_run [OF fake.contentDelete_keeps_good start]
        keeps_run [OF fake.snapshot_callbacks_keep_good(1) start]
        keeps_run [OF fake.snapshot_callbacks_keep_good(2) start]
        outside_keeps_good [OF _ good])
qed

lemma reachable_good:
  assumes "(step cfg driver r)\<^sup>*\<^sup>* st st'" and "fake.all_good st"
  shows "fake.all_good st'"
  using assms by (induction rule: rtranclp_induct) (auto intro: step_keeps_good)

text \<open>A store made of objects that are not groups has no group.\<close>

lemma no_groups_new:
  assumes "\<forall>ob \<in> set objs. kindOf ob \<noteq> ''DellCsiVolumeGroupSnapshot''"
  shows "stored_groups (newFakeClient objs) = (\<lambda>_. None)"
proof -
  have "stored_groups (fold (\<lambda>ob. AList.update (getKey ob) ob) objs st) = stored_groups st" for st
    using assms by (induction objs arbitrary: st) (simp_all add: other_kind_groups)
  then show ?thesis by (simp add: newFakeClient_def stored_groups_def fun_eq_iff)
qed

section \<open>Deleted contents\<close>

text \<open>Without failures, a \<open>Get\<close> answers from the views.\<close>

definition no_failures :: "fakecfg \<Rightarrow> fakecfg" where
  "no_failures cfg = cfg\<lparr>fc_ShouldFail := (\<lambda>op ob. None)\<rparr>"

abbreviation calm ::
  "fakecfg \<Rightarrow> (string \<Rightarrow> string list \<Rightarrow> (string \<times> string) list \<Rightarrow> error + vgsresponse)
     \<Rightarrow> store reconciler \<Rightarrow> store reconciler" where
  "calm cfg driver r \<equiv> fake_reconciler (no_failures cfg) driver r"

lemma calm_gets:
  "stored_groups st k = Some v \<Longrightarrow> cl_GetVG (r_Client (calm cfg driver r)) k st = (Inr v, st)"
  "stored_snaps st k = Some x \<Longrightarrow> cl_GetSnap (r_Client (calm cfg driver r)) k st = (Inr x, st)"
  by (auto simp: fake_client_def fakeGet_def no_failures_def stored_groups_def stored_snaps_def
      bind_eq_Some_conv)

lemma calm_writes:
  "stored_groups st (vg_key v) = Some u \<Longrightarrow>
     cl_StatusUpdateVG (r_Client (calm cfg driver r)) v st =
       (Inr v, AList.update (getKey (KVG v)) (KVG v) st)"
  "stored_groups st (vg_key v) = Some u \<Longrightarrow> deletion_is_zero v \<Longrightarrow>
     cl_DeleteVG (r_Client (calm cfg driver r)) v st = (Inr (), AList.delete (getKey (KVG v)) st)"
  by (auto simp: fake_client_def fakeUpdate_def fakeDelete_def no_failures_def stored_groups_def
      getKey_def vg_key_def written_def bind_eq_Some_conv)

text \<open>One callback on the store.\<close>

definition after_content_deleted ::
  "store reconciler \<Rightarrow> store \<Rightarrow> content \<Rightarrow> store" where
  "after_content_deleted r st c =
     cluster (snd (run_state (HandleSnapContentDelete r (WContent c)) (start st [])))"

lemma content_deleted_store:
  assumes "or_Namespace (vc_SnapshotRef c) = ns" and "or_Name (vc_SnapshotRef c) = n"
    and "stored_snaps st (NN ns n) = Some x" and "snapshot_group x = g" and "g \<noteq> []"
    and "stored_groups st (NN ns g) = Some v" and "vg_key v = NN ns g" and "deletion_is_zero v"
    and "rest = withoutSnapshot n (status_Snapshots (vg_Status v))"
  shows "stored_snaps (after_content_deleted (calm cfg driver r) st c) = stored_snaps st
     \<and> stored_groups (after_content_deleted (calm cfg driver r) st c) =
         (stored_groups st)(NN ns g := if rest = [] then None else Some (set_snapshots rest v))"
proof -
  let ?v = "set_snapshots rest v"
  have key: "vg_key ?v = NN ns g" and zero: "deletion_is_zero ?v"
    using assms(7,8) by simp_all
  let ?st = "AList.update (getKey (KVG ?v)) (KVG ?v) st"
  have "stored_groups ?st (vg_key ?v) = Some ?v" by simp
  note del = calm_writes(2) [OF this zero, of cfg driver r]
  have upd: "cl_StatusUpdateVG (r_Client (calm cfg driver r)) ?v st = (Inr ?v, ?st)"
    using calm_writes(1) [of st ?v v] assms(6) key by simp
  have "after_content_deleted (calm cfg driver r) st c =
      (if rest = [] then AList.delete (getKey (KVG ?v)) ?st else ?st)"
    using assms(1,2,4,5) calm_gets(1) [OF assms(6), of cfg driver r]
      calm_gets(2) [OF assms(3), of cfg driver r] upd del
    by (cases "rest = []")
      (simp_all add: after_content_deleted_def HandleSnapContentDelete_def getSnap_def getVG_def
        statusUpdateVG_def deleteVG_def run_call Let_def assms(9) [symmetric] del: fake_simps)
  then show ?thesis using assms(7) by simp
qed

section \<open>Properties\<close>

text \<open>In every store the system can reach from one without groups, whatever calls fail and in
  whatever order reconciliations, callbacks and users act, a group's status is empty, \<open>Pending\<close>,
  \<open>Error\<close> or \<open>Complete\<close>, and a \<open>Complete\<close> group that is not being deleted carries the
  controller's finalizer, so that its members cannot be orphaned by a deletion.\<close>

lemma reachable_groups_good:
  assumes "(step cfg driver r)\<^sup>*\<^sup>* (newFakeClient objs) st"
    and "\<forall>ob \<in> set objs. kindOf ob \<noteq> ''DellCsiVolumeGroupSnapshot''"
    and "stored_groups st k = Some v"
  shows "good_group v"
proof -
  have "fake.all_good (newFakeClient objs)"
    using no_groups_new [OF assms(2)] by (simp add: fake.all_good_def wf_newFakeClient)
  from reachable_good [OF assms(1) this] assms(3) show ?thesis
    by (auto simp: fake.all_good_def)
qed

lemma reachable_groups_good_witness: "good_group new_group"
proof -
  let ?st = "snd (fakeCreate healthy (KVG new_group) (newFakeClient example_objects))"
  have "vg_Status new_group = empty_status" by (simp add: new_group_def)
  then have "step healthy example_driver (controller healthy) (newFakeClient example_objects) ?st"
    by (rule others_act [OF user_creates [where e = "fst (fakeCreate healthy (KVG new_group) (newFakeClient example_objects))"]]) simp
  then have 1: "(step healthy example_driver (controller healthy))\<^sup>*\<^sup>* (newFakeClient example_objects) ?st"
    by (rule r_into_rtranclp)
  have 2: "\<forall>ob \<in> set example_objects. kindOf ob \<noteq> ''DellCsiVolumeGroupSnapshot''"
    by (simp add: example_objects_def)
  have 3: "stored_groups ?st (NN ''ns'' ''vg'') = Some new_group"
    by code_simp
  from reachable_groups_good [OF 1 2 3] show ?thesis .
qed

text \<open>C4: A creation that reports success has recorded the driver's answer: the stored group carries
  the finalizer, and its status is the one computed from the answer the driver gave for sorted
  volume ids (group id, member names, creation time, and \<open>Complete\<close> exactly when ready).\<close>

lemma successful_creation_recorded:
  assumes "wf_store (cluster w)"
    and "fst (cl_GetVG (r_Client (fake_reconciler cfg driver r)) req (cluster w)) = Inr v"
    and "deletion_is_zero v"
    and "\<not> (status_SnapshotGroupID (vg_Status v) \<noteq> [] \<and> status_Status (vg_Status v) = EventStatusComplete)"
    and "status_Status (vg_Status v) \<noteq> EventStatusPending"
    and "fst (run_state (reconcile (fake_reconciler cfg driver r) req) w) = Ret None"
  shows "\<exists>ids ps vm res u. driver (nnName req) (sort ids) ps = Inr res
     \<and> stored_groups (cluster (snd (run_state (reconcile (fake_reconciler cfg driver r) req) w))) req = Some u
     \<and> records_answer res vm v u"
  using fake.reconcile_creates [OF assms(1-5), of "snd (run_state (reconcile (fake_reconciler cfg driver r) req) w)"]
    assms(6)
  by (simp add: prod_eq_iff fake.driver_answers_def)

lemma successful_creation_recorded_witness:
  "\<exists>res vm u. stored_groups (cluster (snd (run_state (reconcile (controller healthy) (NN ''ns'' ''vg''))
       (start (example_store new_group) [Tick, Timeout])))) (NN ''ns'' ''vg'') = Some u
     \<and> records_answer res vm new_group u"
proof -
  let ?w = "start (example_store new_group) [Tick, Timeout]"
  have 1: "fst (run_state (reconcile (controller healthy) (NN ''ns'' ''vg'')) ?w) = Ret None"
    by code_simp
  have 2: "fst (cl_GetVG (r_Client (controller healthy)) (NN ''ns'' ''vg'') (cluster ?w)) = Inr new_group"
    by code_simp
  have 3: "deletion_is_zero new_group" "status_Status (vg_Status new_group) = []"
    by (simp_all add: new_group_def example_group_def empty_vg_def deletion_is_zero_def empty_status_def)
  then have 4: "\<not> (status_SnapshotGroupID (vg_Status new_group) \<noteq> []
      \<and> status_Status (vg_Status new_group) = EventStatusComplete)"
    and 5: "status_Status (vg_Status new_group) \<noteq> EventStatusPending" by simp_all
  have wf: "wf_store (cluster ?w)" by (simp add: wf_example_store)
  from successful_creation_recorded [OF wf 2 3(1) 4 5 1] show ?thesis by blast
qed

text \<open>C5: When every \<open>Get\<close> goes through, a deletion that reports success has done what the deletion
  policy of the class says: under \<open>Delete\<close> every listed member of the group's namespace is gone and
  no other snapshot is; under \<open>Retain\<close> all snapshots are as before; and in both cases the stored
  group no longer carries the controller's finalizer.\<close>

lemma successful_deletion_complete:
  assumes "wf_store (cluster w)"
    and "fst (cl_GetVG (r_Client (fake_reconciler (reads_succeed cfg) driver r)) req (cluster w)) = Inr v"
    and "\<not> deletion_is_zero v"
    and "fst (cl_GetClass (r_Client (fake_reconciler (reads_succeed cfg) driver r))
        (NN [] (spec_Volumesnapshotclass (vg_Spec v))) (cluster w)) = Inr sc"
    and "sc_DeletionPolicy sc \<in> {VolumeSnapshotContentDelete, VolumeSnapshotContentRetain}"
    and "fst (run_state (reconcile (fake_reconciler (reads_succeed cfg) driver r) req) w) = Ret None"
  shows "(let st' = cluster (snd (run_state (reconcile (fake_reconciler (reads_succeed cfg) driver r) req) w))
      in stored_snaps st' =
           (if sc_DeletionPolicy sc = VolumeSnapshotContentDelete
            then without_members (nnNamespace req) (member_names v) (stored_snaps (cluster w))
            else stored_snaps (cluster w))
         \<and> released (stored_groups st' req))"
  using faithful.reconcile_deletes [OF assms(1-3) _ assms(4,5),
      of "snd (run_state (reconcile (fake_reconciler (reads_succeed cfg) driver r) req) w)"] assms(6)
  by (simp add: prod_eq_iff Let_def)

definition doomed_group :: vg where
  "doomed_group = example_group\<lparr>vg_DeletionTimestamp := Some (UnixNano 9), vg_Finalizers := [FinalizerName]\<rparr>"

definition doomed_store :: store where
  "doomed_store = newFakeClient [KVG doomed_group, KClass example_class, KContent example_content,
     KSnap example_snap]"

lemma successful_deletion_complete_witness:
  "stored_snaps (cluster (snd (run_state (reconcile (controller (reads_succeed healthy)) (NN ''ns'' ''vg''))
      (start doomed_store [])))) (NN ''ns'' ''vg-a'') = None"
proof -
  have 1: "fst (run_state (reconcile (controller (reads_succeed healthy)) (NN ''ns'' ''vg''))
      (start doomed_store [])) = Ret None"
    by code_simp
  have 2: "fst (cl_GetVG (r_Client (controller (reads_succeed healthy))) (NN ''ns'' ''vg'')
      (cluster (start doomed_store []))) = Inr doomed_group"
    by code_simp
  have 3: "fst (cl_GetClass (r_Client (controller (reads_succeed healthy)))
      (NN [] (spec_Volumesnapshotclass (vg_Spec doomed_group))) (cluster (start doomed_store []))) = Inr example_class"
    by code_simp
  have "wf_store (cluster (start doomed_store []))"
    by (simp add: doomed_store_def wf_newFakeClient)
  moreover have "\<not> deletion_is_zero doomed_group" "member_names doomed_group = [''vg-a'', ''vg-b'']"
    "sc_DeletionPolicy example_class = VolumeSnapshotContentDelete"
    by (simp_all add: doomed_group_def deletion_is_zero_def member_names_def example_group_def
        empty_vg_def empty_status_def example_class_def)
  ultimately show ?thesis
    using successful_deletion_complete [OF _ 2 _ 3 _ 1]
    by (simp add: Let_def without_members_def)
qed

text \<open>C6: A deletion that reports an error, whichever call failed, has left every stored group as it
  was, the finalizer of the group being deleted included, so that it is tried again.\<close>

lemma failed_deletion_keeps_groups:
  assumes "wf_store (cluster w)"
    and "fst (cl_GetVG (r_Client (fake_reconciler cfg driver r)) req (cluster w)) = Inr v"
    and "\<not> deletion_is_zero v"
    and "run_state (reconcile (fake_reconciler cfg driver r) req) w = (Ret (Some err), w')"
  shows "stored_groups (cluster w') = stored_groups (cluster w)"
  by (rule fake.reconcile_deletion_fails [OF assms])

definition delete_fails :: fakecfg where
  "delete_fails = healthy\<lparr>fc_ShouldFail := (\<lambda>op ob. if op = ''Delete'' then Some (errorf ''no'') else None)\<rparr>"

lemma failed_deletion_keeps_groups_witness:
  "stored_groups (cluster (snd (run_state (reconcile (controller delete_fails) (NN ''ns'' ''vg''))
      (start doomed_store [])))) = stored_groups doomed_store"
proof -
  have 1: "run_state (reconcile (controller delete_fails) (NN ''ns'' ''vg'')) (start doomed_store []) =
      (Ret (Some (errorf ''no'')), snd (run_state (reconcile (controller delete_fails) (NN ''ns'' ''vg''))
         (start doomed_store [])))"
    unfolding prod_eq_iff fst_conv snd_conv by (rule conjI [OF _ refl]) code_simp
  have 2: "fst (cl_GetVG (r_Client (controller delete_fails)) (NN ''ns'' ''vg'')
      (cluster (start doomed_store []))) = Inr doomed_group"
    by code_simp
  have "wf_store (cluster (start doomed_store []))" "\<not> deletion_is_zero doomed_group"
    by (simp_all add: doomed_store_def wf_newFakeClient doomed_group_def deletion_is_zero_def)
  from failed_deletion_keeps_groups [OF this(1) 2 this(2) 1] show ?thesis by simp
qed

text \<open>C25: When no call fails and the contents of all members of a group are deleted, in any order,
  while their snapshots still exist, the callbacks take the members out of the group's list one
  by one and the last of them deletes the group; nothing else changes.\<close>

lemma group_deleted_with_last_content:
  assumes "stored_groups st (NN ns g) = Some v" and "vg_key v = NN ns g" and "g \<noteq> []"
    and "deletion_is_zero v"
    and "status_Snapshots (vg_Status v) = join_with (CHR '','') xs" and "member_list xs"
    and "mset (map (or_Name \<circ> vc_SnapshotRef) cs) = mset xs"
    and "\<forall>c \<in> set cs. or_Namespace (vc_SnapshotRef c) = ns \<and>
      (\<exists>x. stored_snaps st (NN ns (or_Name (vc_SnapshotRef c))) = Some x \<and> snapshot_group x = g)"
  shows "stored_groups (foldl (after_content_deleted (calm cfg driver r)) st cs) =
       (stored_groups st)(NN ns g := None)
     \<and> stored_snaps (foldl (after_content_deleted (calm cfg driver r)) st cs) = stored_snaps st"
  using assms
proof (induction cs arbitrary: st v xs)
  case Nil
  then show ?case by (simp add: member_list_def)
next
  case (Cons c cs)
  let ?n = "or_Name (vc_SnapshotRef c)"
  let ?rest = "withoutSnapshot ?n (status_Snapshots (vg_Status v))"
  let ?st = "after_content_deleted (calm cfg driver r) st c"
  from Cons.prems(8) obtain x where x: "stored_snaps st (NN ns ?n) = Some x" "snapshot_group x = g"
    and ns: "or_Namespace (vc_SnapshotRef c) = ns" by auto
  have rest: "?rest = join_with (CHR '','') (remove1 ?n xs)"
    using Cons.prems(5) members.remove_name_enc [OF Cons.prems(6)] by (simp add: withoutSnapshot_remove)
  have mset: "mset (map (or_Name \<circ> vc_SnapshotRef) cs) = mset (remove1 ?n xs)"
    using Cons.prems(7) by (metis add_mset_remove_trivial comp_apply list.simps(9) mset.simps(2) mset_remove1)
  have step: "stored_snaps ?st = stored_snaps st \<and> stored_groups ?st =
      (stored_groups st)(NN ns g := if ?rest = [] then None else Some (set_snapshots ?rest v))"
    by (rule content_deleted_store [OF ns refl x Cons.prems(3,1,2,4) refl])
  show ?case
  proof (cases "remove1 ?n xs = []")
    case True
    with mset have "cs = []" by simp
    moreover have "?rest = []" unfolding rest True by simp
    ultimately show ?thesis using step by simp
  next
    case False
    let ?v = "set_snapshots ?rest v"
    have ok: "member_list (remove1 ?n xs)"
      by (rule members.ok_remove [OF Cons.prems(6) False])
    with rest members.enc_nonempty have "?rest \<noteq> []" by simp
    with step have 1: "stored_groups ?st (NN ns g) = Some ?v" by simp
    have 2: "vg_key ?v = NN ns g" "deletion_is_zero ?v"
      "status_Snapshots (vg_Status ?v) = join_with (CHR '','') (remove1 ?n xs)"
      using Cons.prems(2,4) rest by simp_all
    have 3: "\<forall>c \<in> set cs. or_Namespace (vc_SnapshotRef c) = ns \<and>
        (\<exists>x. stored_snaps ?st (NN ns (or_Name (vc_SnapshotRef c))) = Some x \<and> snapshot_group x = g)"
      using Cons.prems(8) step by simp
    from Cons.IH [OF 1 2(1) Cons.prems(3) 2(2,3) ok mset 3] step show ?thesis
      by (auto simp: fun_eq_iff)
  qed
qed

lemma group_deleted_with_last_content_witness:
  "stored_groups (foldl (after_content_deleted (calm healthy example_driver (controller healthy)))
      (newFakeClient [KVG (set_snapshots ''vg-a'' example_group), KSnap example_snap]) [example_content])
      (NN ''ns'' ''vg'') = None"
proof -
  let ?st = "newFakeClient [KVG (set_snapshots ''vg-a'' example_group), KSnap example_snap]"
  have 1: "stored_groups ?st (NN ''ns'' ''vg'') = Some (set_snapshots ''vg-a'' example_group)"
    and 2: "stored_snaps ?st (NN ''ns'' ''vg-a'') = Some example_snap"
    by code_simp+
  show ?thesis
    using group_deleted_with_last_content [OF 1, of "[''vg-a'']" "[example_content]" healthy
        example_driver "controller healthy"] 2
    by (simp add: example_group_def example_content_def example_snap_def makeVolSnap_def
        snapshot_group_def map_get_def vg_key_def set_snapshots_def deletion_is_zero_def
        empty_vg_def member_list_def empty_ref_def)
qed

text \<open>What the store's \<open>Create\<close> accepted, \<open>Get\<close> returns under the object's name and namespace, and
  a second \<open>Create\<close> of it is refused and changes nothing.\<close>

lemma create_then_get:
  assumes "fakeCreate (no_failures cfg) (KSnap x) st = (None, st')" and "fc_Recode cfg = Inr"
  shows "fakeGet (no_failures cfg) (KSnap empty_snap) asSnap (snap_key x) st' = Inr x
     \<and> fakeCreate (no_failures cfg) (KSnap x) st' =
         (Some (fc_NewAlreadyExists cfg ''snapshot.storage.k8s.io'' ''VolumeSnapshot'' (vs_Name x)), st')"
  using assms
  by (auto simp: fakeCreate_def fakeGet_def no_failures_def getKey_def snap_key_def
      AList.update_conv' split: option.splits)

lemma create_then_get_witness:
  "fakeGet (no_failures healthy) (KSnap empty_snap) asSnap (NN ''ns'' ''vg-a'')
     (snd (fakeCreate (no_failures healthy) (KSnap example_snap) [])) = Inr example_snap"
  using create_then_get [of healthy example_snap "[]"
      "snd (fakeCreate (no_failures healthy) (KSnap example_snap) [])"]
  by (simp add: prod_eq_iff fakeCreate_def no_failures_def healthy_def snap_key_def example_snap_def
      makeVolSnap_def)

end
