(* ===== verification/Interleaving.thy ===== *)
theory Interleaving
  imports System
begin

text \<open>
  Handlers that run at the same time. controller-runtime's workers and the informers' listeners
  call the controller from goroutines of their own, so that between two calls of one handler the
  others make theirs. Here a step of the system is one call of one handler on the shared store.
  A handler that has been started is a job with the stores its calls so far were answered from;
  its next call is the one its code makes after those answers.
\<close>

section \<open>A handler and its answers\<close>

text \<open>
  The controller on a larger state \<open>'t\<close>: each call to the API server or the driver is made on the
  store that \<open>get\<close> reads from the state, and \<open>put\<close> enters the store it leaves.
\<close>

definition through ::
  "('t \<Rightarrow> 's) \<Rightarrow> ('t \<Rightarrow> 's \<Rightarrow> 't) \<Rightarrow> ('s \<Rightarrow> 'a \<times> 's) \<Rightarrow> 't \<Rightarrow> 'a \<times> 't" where
  "through get put f t = (fst (f (get t)), put t (snd (f (get t))))"

definition lifted :: "('t \<Rightarrow> 's) \<Rightarrow> ('t \<Rightarrow> 's \<Rightarrow> 't) \<Rightarrow> 's reconciler \<Rightarrow> 't reconciler" where
  "lifted get put r = \<lparr>
     r_Client = \<lparr>
       cl_GetVG = (\<lambda>k. through get put (cl_GetVG (r_Client r) k)),
       cl_GetClass = (\<lambda>k. through get put (cl_GetClass (r_Client r) k)),
       cl_GetSnap = (\<lambda>k. through get put (cl_GetSnap (r_Client r) k)),
       cl_GetContent = (\<lambda>k. through get put (cl_GetContent (r_Client r) k)),
       cl_GetPVC = (\<lambda>k. through get put (cl_GetPVC (r_Client r) k)),
       cl_GetPV = (\<lambda>k. through get put (cl_GetPV (r_Client r) k)),
       cl_ListPVC = (\<lambda>lo. through get put (cl_ListPVC (r_Client r) lo)),
       cl_ListContent = through get put (cl_ListContent (r_Client r)),
       cl_CreateContent = (\<lambda>c. through get put (cl_CreateContent (r_Client r) c)),
       cl_CreateSnap = (\<lambda>x. through get put (cl_CreateSnap (r_Client r) x)),
       cl_UpdateVG = (\<lambda>v. through get put (cl_UpdateVG (r_Client r) v)),
       cl_StatusUpdateVG = (\<lambda>v. through get put (cl_StatusUpdateVG (r_Client r) v)),
       cl_StatusUpdateContent = (\<lambda>c. through get put (cl_StatusUpdateContent (r_Client r) c)),
       cl_DeleteSnap = (\<lambda>x. through get put (cl_DeleteSnap (r_Client r) x)),
       cl_DeleteVG = (\<lambda>v. through get put (cl_DeleteVG (r_Client r) v))\<rparr>,
     r_VGClient = (\<lambda>name ids ps. through get put (r_VGClient r name ids ps)),
     r_DriverName = r_DriverName r,
     r_IgnoreNotFound = r_IgnoreNotFound r,
     r_AddFinalizer = r_AddFinalizer r,
     r_RemoveFinalizer = r_RemoveFinalizer r,
     r_NewUUID = r_NewUUID r,
     r_ObjectKinds = r_ObjectKinds r,
     r_GvkEmpty = r_GvkEmpty r,
     r_GvString = r_GvString r,
     r_FmtKinds = r_FmtKinds r\<rparr>"

text \<open>The \<open>n\<close>-th call is answered as the store \<open>env n\<close> answers it; the state counts the calls.\<close>

definition scripted :: "'s reconciler \<Rightarrow> (nat \<Rightarrow> 's) \<Rightarrow> nat reconciler" where
  "scripted r env = lifted env (\<lambda>n _. Suc n) r"

text \<open>The handlers, with what they are called with and, for a reconciliation, what its timer and
  ticker deliver.\<close>

datatype job =
    Reconciling nname "tick list"
  | ContentGone watchobj
  | SnapCreated watchobj
  | SnapUpdated watchobj

text \<open>Events, the timer and a started informer are no calls: they concern no store.\<close>

fun is_call :: "effect \<Rightarrow> bool" where
  "is_call (Event _ _ _ _) = False"
| "is_call (StartTimer _) = False"
| "is_call StartSnapWatch = False"
| "is_call _ = True"

fun run_job :: "'s reconciler \<Rightarrow> job \<Rightarrow> 's \<Rightarrow> 's world" where
  "run_job r (Reconciling req ticks) s = snd (run_state (reconcile r req) (start s ticks))"
| "run_job r (ContentGone obj) s = snd (run_state (HandleSnapContentDelete r obj) (start s []))"
| "run_job r (SnapCreated obj) s = snd (run_state (handleSnapCreate r obj) (start s []))"
| "run_job r (SnapUpdated obj) s = snd (run_state (handleSnapUpdate r obj) (start s []))"

definition calls :: "'s reconciler \<Rightarrow> job \<Rightarrow> (nat \<Rightarrow> 's) \<Rightarrow> effect list" where
  "calls r j env = filter is_call (trace (run_job (scripted r env) j 0))"

text \<open>The next call of a job whose calls so far were answered from the stores \<open>seen\<close> and that runs
  on in \<open>st\<close>; none when the handler has returned.\<close>

definition answers :: "'s list \<Rightarrow> 's \<Rightarrow> nat \<Rightarrow> 's" where
  "answers seen st n = (if n < length seen then seen ! n else st)"

definition next_call :: "'s reconciler \<Rightarrow> job \<Rightarrow> 's list \<Rightarrow> 's \<Rightarrow> effect option" where
  "next_call r j seen st =
     (let es = calls r j (answers seen st)
      in if length seen < length es then Some (es ! length seen) else None)"

section \<open>Steps of single calls\<close>

inductive interleaved ::
  "'s reconciler \<Rightarrow> ('s \<Rightarrow> 's \<Rightarrow> bool) \<Rightarrow> 's \<times> (job \<times> 's list) list
     \<Rightarrow> 's \<times> (job \<times> 's list) list \<Rightarrow> bool" for r env where
  begins: "interleaved r env (st, js) (st, js @ [(j, [])])"
| calls_next:
    "i < length js \<Longrightarrow> js ! i = (j, seen) \<Longrightarrow> next_call r j seen st = Some e \<Longrightarrow>
     interleaved r env (st, js) (apply_effect r e st, js[i := (j, seen @ [st])])"
| environment: "env st st' \<Longrightarrow> interleaved r env (st, js) (st', js)"

section \<open>What a job writes\<close>

fun good_write :: "effect \<Rightarrow> bool" where
  "good_write (UpdateVG v) = good_group v"
| "good_write (StatusUpdateVG v) = good_group v"
| "good_write _ = True"

lemma quiet_good_write: "\<not> group_effect e \<Longrightarrow> good_write e"
  by (cases e) auto

context cluster_contract
begin

lemma all_good_write: "good_write e \<Longrightarrow> all_good s \<Longrightarrow> all_good (apply_effect r e s)"
  by (cases e) (auto simp: all_good_quiet all_good_update all_good_status all_good_delete
      simp del: apply_effect.simps)

lemma echoed:
  "wf s \<Longrightarrow> fst (cl_UpdateVG (r_Client r) v s) = Inr v' \<Longrightarrow> same_group v v'"
  "wf s \<Longrightarrow> fst (cl_StatusUpdateVG (r_Client r) v s) = Inr v' \<Longrightarrow> same_group v v'"
  by (metis prod.collapse update_group, metis prod.collapse status_group)

end

text \<open>Answered from stores with well-formed groups, the controller writes only well-formed ones:
  the calls made so far are an invariant of the kind the handlers keep.\<close>

sublocale cluster_contract \<subseteq> script: guarded "scripted r env"
  "\<lambda>w. (\<forall>n. all_good (env n)) \<and> list_all good_write (trace w)" for env
proof unfold_locales
qed (auto simp: scripted_def lifted_def through_def quiet_good_write all_good_def add_finalizer
    dest: get_group echoed)

context cluster_contract
begin

lemma calls_good:
  assumes "\<And>n. all_good (env n)"
  shows "list_all good_write (calls r j env)"
proof -
  let ?I = "\<lambda>w. (\<forall>n. all_good (env n)) \<and> list_all good_write (trace w)"
  have I: "?I (start 0 ticks)" for ticks using assms by simp
  have "list_all good_write (trace (run_job (scripted r env) j 0))"
    by (cases j) (simp_all add: I script.reconcile_keeps_good [THEN keepsD, THEN conjunct2]
        script.contentDelete_keeps_good [THEN keepsD, THEN conjunct2]
        script.snapshot_callbacks_keep_good [THEN keepsD, THEN conjunct2])
  then show ?thesis
    by (auto simp: calls_def list_all_iff)
qed

text \<open>Every store a job was answered from, and the present one, has well-formed groups only.\<close>

definition good_config :: "'s \<times> (job \<times> 's list) list \<Rightarrow> bool" where
  "good_config c \<longleftrightarrow> all_good (fst c) \<and> (\<forall>(j, seen) \<in> set (snd c). \<forall>s \<in> set seen. all_good s)"

lemma next_call_good:
  assumes "next_call r j seen st = Some e" and "all_good st" and "\<forall>s \<in> set seen. all_good s"
  shows "good_write e"
proof -
  have "list_all good_write (calls r j (answers seen st))"
    using assms(2,3) by (intro calls_good) (simp add: answers_def)
  with assms(1) show ?thesis
    by (auto simp: next_call_def Let_def list_all_length split: if_splits)
qed

lemma interleaved_keeps_good:
  assumes "interleaved r env c c'" and "good_config c"
    and "\<And>st st'. env st st' \<Longrightarrow> all_good st \<Longrightarrow> all_good st'"
  shows "good_config c'"
  using assms(1)
proof cases
  case (begins st js j)
  with assms(2) show ?thesis by (auto simp: good_config_def)
next
  case (calls_next i js j seen st e)
  then have seen: "\<forall>s \<in> set (seen @ [st]). all_good s"
    using assms(2) nth_mem [of i js] by (force simp: good_config_def)
  then have "all_good (apply_effect r e st)"
    using next_call_good [OF calls_next(5)] by (simp add: all_good_write)
  moreover have "set (js[i := (j, seen @ [st])]) \<subseteq> insert (j, seen @ [st]) (set js)"
    by (rule set_update_subset_insert)
  ultimately show ?thesis
    using assms(2) seen calls_next(1,2) by (force simp: good_config_def)
next
  case (environment st st' js)
  with assms(2,3) show ?thesis by (simp add: good_config_def)
qed

lemma interleaved_reaches_good:
  assumes "(interleaved r env)\<^sup>*\<^sup>* c c'" and "good_config c"
    and "\<And>st st'. env st st' \<Longrightarrow> all_good st \<Longrightarrow> all_good st'"
  shows "good_config c'"
  using assms(1,2)
  by (induction rule: rtranclp_induct) (blast intro: interleaved_keeps_good assms(3))+

end

section \<open>Schedules\<close>

text \<open>A schedule names the moves one by one; running it gives a path of the step relation.\<close>

datatype move = Begin job | Next nat

fun moved ::
  "'s reconciler \<Rightarrow> move \<Rightarrow> 's \<times> (job \<times> 's list) list \<Rightarrow> ('s \<times> (job \<times> 's list) list) option" where
  "moved r (Begin j) (st, js) = Some (st, js @ [(j, [])])"
| "moved r (Next i) (st, js) =
     (if i < length js
      then (case js ! i of
              (j, seen) \<Rightarrow>
                map_option (\<lambda>e. (apply_effect r e st, js[i := (j, seen @ [st])]))
                  (next_call r j seen st))
      else None)"

primrec schedule ::
  "'s reconciler \<Rightarrow> move list \<Rightarrow> 's \<times> (job \<times> 's list) list \<Rightarrow> ('s \<times> (job \<times> 's list) list) option" where
  "schedule r [] c = Some c"
| "schedule r (m # ms) c = Option.bind (moved r m c) (schedule r ms)"

lemma moved_interleaved: "moved r m c = Some c' \<Longrightarrow> interleaved r env c c'"
  by (induction r m c rule: moved.induct)
    (auto intro: interleaved.intros split: if_splits prod.splits)

lemma schedule_interleaved: "schedule r ms c = Some c' \<Longrightarrow> (interleaved r env)\<^sup>*\<^sup>* c c'"
proof (induction ms arbitrary: c)
  case (Cons m ms)
  then obtain c1 where "moved r m c = Some c1" "schedule r ms c1 = Some c'"
    by (auto simp: bind_eq_Some_conv)
  with Cons.IH moved_interleaved [of r m c c1] show ?case
    by (blast intro: converse_rtranclp_into_rtranclp)
qed simp

text \<open>Every handler has returned.\<close>

definition all_returned :: "'s reconciler \<Rightarrow> 's \<times> (job \<times> 's list) list \<Rightarrow> bool" where
  "all_returned r c \<longleftrightarrow> (\<forall>(j, seen) \<in> set (snd c). next_call r j seen (fst c) = None)"

section \<open>Two deleted contents at once\<close>

text \<open>When no call fails, a \<open>Get\<close> answers from the views, and these are the calls of the callback
  for a deleted content.\<close>

lemma calm_missing:
  "stored_groups st k = None \<Longrightarrow> \<exists>e. cl_GetVG (r_Client (calm cfg driver r)) k st = (Inl e, st)"
  "stored_snaps st k = None \<Longrightarrow> \<exists>e. cl_GetSnap (r_Client (calm cfg driver r)) k st = (Inl e, st)"
  by (auto simp: fake_client_def fakeGet_def no_failures_def stored_groups_def stored_snaps_def
      split: option.split)

lemma content_gone_calls:
  assumes "or_Namespace (vc_SnapshotRef c) = ns" and "or_Name (vc_SnapshotRef c) = n"
    and "stored_snaps (env 0) (NN ns n) = Some x" and "snapshot_group x = g" and "g \<noteq> []"
    and "stored_groups (env 1) (NN ns g) = Some v"
    and "rest = withoutSnapshot n (status_Snapshots (vg_Status v))"
  shows "calls (calm cfg driver r) (ContentGone (WContent c)) env =
     [GetSnap (NN ns n), GetVG (NN ns g), StatusUpdateVG (set_snapshots rest v)]
     @ (if rest = [] then [DeleteVG (set_snapshots rest v)] else [])"
proof -
  let ?r = "calm cfg driver r"
  have 1: "cl_GetSnap (r_Client ?r) (NN ns n) (env 0) = (Inr x, env 0)"
    by (rule calm_gets(2) [OF assms(3)])
  have 2: "cl_GetVG (r_Client ?r) (NN ns g) (env 1) = (Inr v, env 1)"
    by (rule calm_gets(1) [OF assms(6)])
  have 3: "u' = u" if "fst (cl_StatusUpdateVG (r_Client ?r) u s) = Inr u'" for u u' s
    using that by (auto simp: fake_client_def written_def split: option.splits)
  show ?thesis
    using assms(1,2,4,5,7) 1 2
    by (auto simp: calls_def scripted_def lifted_def through_def HandleSnapContentDelete_def getSnap_def getVG_def
      statusUpdateVG_def deleteVG_def run_call Let_def simp del: fake_simps split: sum.split dest!: 3)
qed

definition racing_deletions :: "content \<Rightarrow> content \<Rightarrow> move list" where
  "racing_deletions c1 c2 =
     [Begin (ContentGone (WContent c1)), Begin (ContentGone (WContent c2)),
      Next 0, Next 1, Next 0, Next 1, Next 0, Next 1]"

lemma calm_applies:
  "apply_effect (calm cfg driver r) (GetVG k) s = s"
  "apply_effect (calm cfg driver r) (GetSnap k) s = s"
  "stored_groups s (vg_key v) = Some u \<Longrightarrow>
     apply_effect (calm cfg driver r) (StatusUpdateVG v) s = AList.update (getKey (KVG v)) (KVG v) s"
  using calm_writes(1) [of s v u cfg driver r]
  by (simp_all add: fake_client_def del: fake_simps) (simp_all add: fake_client_def)

lemma member_gone_calls:
  assumes "stored_groups st (NN ns g) = Some v" and "g \<noteq> []"
    and "status_Snapshots (vg_Status v) = join_with (CHR '','') xs" and "member_list xs"
    and "or_Namespace (vc_SnapshotRef c) = ns" and "or_Name (vc_SnapshotRef c) = n"
    and "stored_snaps st (NN ns n) = Some x" and "snapshot_group x = g"
    and "m \<in> set xs" and "m \<noteq> n" and "env 0 = st" and "env 1 = st"
  shows "calls (calm cfg driver r) (ContentGone (WContent c)) env =
     [GetSnap (NN ns n), GetVG (NN ns g),
      StatusUpdateVG (set_snapshots (join_with (CHR '','') (remove1 n xs)) v)]"
proof -
  let ?rest = "join_with (CHR '','') (remove1 n xs)"
  have rest: "?rest = withoutSnapshot n (status_Snapshots (vg_Status v))"
    using assms(3) members.remove_name_enc [OF assms(4)] by (simp add: withoutSnapshot_remove)
  have "m \<in> set (remove1 n xs)" using assms(9,10) by simp
  then have "remove1 n xs \<noteq> []" by (metis list.set(1) empty_iff)
  then have "?rest \<noteq> []" by (rule members.enc_nonempty [OF members.ok_remove [OF assms(4)]])
  moreover have "calls (calm cfg driver r) (ContentGone (WContent c)) env =
      [GetSnap (NN ns n), GetVG (NN ns g), StatusUpdateVG (set_snapshots ?rest v)]
      @ (if ?rest = [] then [DeleteVG (set_snapshots ?rest v)] else [])"
    by (rule content_gone_calls [OF assms(5,6) _ assms(8,2) _ rest])
      (simp_all add: assms(1,7,11,12) del: One_nat_def)
  ultimately show ?thesis by simp
qed

section \<open>Properties\<close>

text \<open>C3: However the calls of any number of reconciliations, informer callbacks and other actors
  interleave on the store, and whatever calls fail, every group in it has an empty, \<open>Pending\<close>,
  \<open>Error\<close> or \<open>Complete\<close> status, and a \<open>Complete\<close> group that is not being deleted carries the
  controller's finalizer, so that its members cannot be orphaned by a deletion.\<close>

lemma concurrent_groups_good:
  assumes "(interleaved (fake_reconciler cfg driver r) (outside cfg))\<^sup>*\<^sup>* (newFakeClient objs, []) (st, js)"
    and "\<forall>ob \<in> set objs. kindOf ob \<noteq> ''DellCsiVolumeGroupSnapshot''"
    and "stored_groups st k = Some v"
  shows "good_group v"
proof -
  have "fake.good_config (newFakeClient objs, [])"
    using no_groups_new [OF assms(2)]
    by (simp add: fake.good_config_def fake.all_good_def wf_newFakeClient)
  from fake.interleaved_reaches_good [OF assms(1) this outside_keeps_good] assms(3) show ?thesis
    by (auto simp: fake.good_config_def fake.all_good_def)
qed

abbreviation calm_controller :: "store reconciler" where
  "calm_controller \<equiv> calm healthy example_driver (controller healthy)"

definition example_contents :: "kobj list" where
  "example_contents = [KSnap example_snap]"

definition example_moves :: "move list" where
  "example_moves = [Begin (ContentGone (WContent example_content)),
     Begin (Reconciling (NN ''ns'' ''vg'') []), Next 0, Next 0, Next 0]"

lemma concurrent_groups_good_witness:
  "\<exists>st js. schedule calm_controller example_moves
       (snd (fakeCreate (no_failures healthy) (KVG new_group) (newFakeClient example_contents)), []) = Some (st, js)
     \<and> good_group (set_snapshots [] new_group)"
proof -
  let ?st = "newFakeClient example_contents"
  let ?mid = "snd (fakeCreate (no_failures healthy) (KVG new_group) ?st)"
  let ?v = "set_snapshots [] new_group"
  have views: "stored_groups ?mid (NN ''ns'' ''vg'') = Some new_group"
      "stored_snaps ?mid (NN ''ns'' ''vg-a'') = Some example_snap"
    by code_simp+
  have content: "or_Namespace (vc_SnapshotRef example_content) = ''ns''"
      "or_Name (vc_SnapshotRef example_content) = ''vg-a''" "snapshot_group example_snap = ''vg''"
      "vg_key new_group = NN ''ns'' ''vg''"
      "[] = withoutSnapshot ''vg-a'' (status_Snapshots (vg_Status new_group))"
    by code_simp+
  have calls: "calls calm_controller (ContentGone (WContent example_content)) env =
      [GetSnap (NN ''ns'' ''vg-a''), GetVG (NN ''ns'' ''vg''), StatusUpdateVG ?v, DeleteVG ?v]"
    if "env 0 = ?mid" "env 1 = ?mid" for env
    using content_gone_calls [OF content(1,2) _ content(3) _ _ content(5)] views that
    by (simp del: One_nat_def)
  have run: "schedule calm_controller example_moves (?mid, []) =
      Some (AList.update (getKey (KVG ?v)) (KVG ?v) ?mid, [(ContentGone (WContent example_content), [?mid, ?mid, ?mid]),
        (Reconciling (NN ''ns'' ''vg'') [], [])])" (is "_ = Some (?st', ?js)")
    using calm_applies(3) [of ?mid ?v new_group healthy example_driver "controller healthy"] views(1) content(4)
    by (simp add: example_moves_def next_call_def Let_def answers_def calls
        calm_applies(1,2) del: apply_effect.simps fake_simps)
  have "vg_Status new_group = empty_status" by (simp add: new_group_def)
  then have "outside (no_failures healthy) ?st ?mid"
    by (rule user_creates [where e = "fst (fakeCreate (no_failures healthy) (KVG new_group) ?st)"]) simp
  then have "interleaved calm_controller (outside (no_failures healthy)) (?st, []) (?mid, [])"
    by (rule environment)
  then have path: "(interleaved calm_controller (outside (no_failures healthy)))\<^sup>*\<^sup>* (?st, []) (?st', ?js)"
    using schedule_interleaved [OF run] by (rule converse_rtranclp_into_rtranclp)
  have "\<forall>ob \<in> set example_contents. kindOf ob \<noteq> ''DellCsiVolumeGroupSnapshot''"
    by (simp add: example_contents_def)
  from concurrent_groups_good [OF path this, of "NN ''ns'' ''vg''" ?v] run content(4) show ?thesis by simp
qed

text \<open>C30: When the contents of two members are deleted and their callbacks run at the same time, one
  deletion can be lost although no call fails: both callbacks read the group, each writes the list
  without its own member, and after both have returned the group still lists the first member.
  The mutex of the callback is a variable of the call and does not prevent it.\<close>

lemma racing_deletions_lose_one:
  assumes "stored_groups st (NN ns g) = Some v" and "vg_key v = NN ns g" and "g \<noteq> []"
    and "status_Snapshots (vg_Status v) = join_with (CHR '','') xs" and "member_list xs"
    and "or_Name (vc_SnapshotRef c1) = n1" and "or_Name (vc_SnapshotRef c2) = n2"
    and "n1 \<in> set xs" and "n2 \<in> set xs" and "n1 \<noteq> n2"
    and "or_Namespace (vc_SnapshotRef c1) = ns" and "or_Namespace (vc_SnapshotRef c2) = ns"
    and "stored_snaps st (NN ns n1) = Some x1" and "snapshot_group x1 = g"
    and "stored_snaps st (NN ns n2) = Some x2" and "snapshot_group x2 = g"
  shows "\<exists>st' js. schedule (calm cfg driver r) (racing_deletions c1 c2) (st, []) = Some (st', js)
     \<and> all_returned (calm cfg driver r) (st', js)
     \<and> stored_groups st' (NN ns g) = Some (set_snapshots (join_with (CHR '','') (remove1 n2 xs)) v)"
proof -
  let ?r = "calm cfg driver r"
  let ?v = "\<lambda>n. set_snapshots (join_with (CHR '','') (remove1 n xs)) v"
  let ?st = "\<lambda>n s. AList.update (getKey (KVG (?v n))) (KVG (?v n)) s"
  note calls = member_gone_calls [OF assms(1,3,4,5) assms(11,6) assms(13,14,9) not_sym [OF assms(10)]]
    member_gone_calls [OF assms(1,3,4,5) assms(12,7) assms(15,16,8,10)]
  have key: "vg_key (?v n) = NN ns g" for n using assms(2) by simp
  have writes: "apply_effect ?r (StatusUpdateVG (?v n1)) st = ?st n1 st"
    "apply_effect ?r (StatusUpdateVG (?v n2)) (?st n1 st) = ?st n2 (?st n1 st)"
    by (simp_all only: key assms(1) stored_update fun_upd_same
        calm_applies(3) [of st "?v n1" v] calm_applies(3) [of "?st n1 st" "?v n2" "?v n1"])
  have "stored_groups (?st n2 (?st n1 st)) (NN ns g) = Some (?v n2)"
    using key [of n2] by simp
  then show ?thesis
    by (simp add: racing_deletions_def next_call_def Let_def answers_def calls
        calm_applies(1,2) writes all_returned_def del: apply_effect.simps fake_simps)
qed

lemma racing_deletions_lose_one_witness:
  "\<exists>st' js. schedule calm_controller (racing_deletions example_content
        (example_content\<lparr>vc_SnapshotRef := (vc_SnapshotRef example_content)\<lparr>or_Name := ''vg-b''\<rparr>\<rparr>))
      (newFakeClient [KVG example_group, KSnap example_snap, KSnap (example_snap\<lparr>vs_Name := ''vg-b''\<rparr>)], [])
        = Some (st', js)
     \<and> stored_groups st' (NN ''ns'' ''vg'') = Some (set_snapshots ''vg-a'' example_group)"
proof -
  let ?st = "newFakeClient [KVG example_group, KSnap example_snap, KSnap (example_snap\<lparr>vs_Name := ''vg-b''\<rparr>)]"
  let ?c = "example_content\<lparr>vc_SnapshotRef := (vc_SnapshotRef example_content)\<lparr>or_Name := ''vg-b''\<rparr>\<rparr>"
  have 1: "stored_groups ?st (NN ''ns'' ''vg'') = Some example_group"
      "stored_snaps ?st (NN ''ns'' ''vg-a'') = Some example_snap"
      "stored_snaps ?st (NN ''ns'' ''vg-b'') = Some (example_snap\<lparr>vs_Name := ''vg-b''\<rparr>)"
    by code_simp+
  show ?thesis
    using racing_deletions_lose_one [OF 1(1), of "[''vg-a'', ''vg-b'']" example_content "''vg-a''" ?c "''vg-b''"
        example_snap "example_snap\<lparr>vs_Name := ''vg-b''\<rparr>" healthy example_driver "controller healthy"] 1(2,3)
    by (auto simp: example_group_def example_content_def example_snap_def makeVolSnap_def snapshot_group_def
        map_get_def vg_key_def empty_vg_def empty_status_def member_list_def empty_ref_def)
qed

end
