(* ===== verification/Causality.thy ===== *)
theory Causality
  imports Interleaving "HOL-Library.Sublist"
begin

text \<open>
  An adequacy check of the model of \<open>Interleaving\<close>, for any handlers: its steps are those of the
  handlers themselves, so that what is shown there is shown of them. Two runs of a handler that get the
  same answers make the same calls: so the next call of a job depends on the answers it has had
  and on nothing else, and a job that nobody disturbs does on the store exactly what the handler
  does.
\<close>

section \<open>Two runs side by side\<close>

named_theorems sim_intros \<open>rules that relate two runs of a program\<close>

text \<open>
  Two lifted controllers, the relation \<open>K\<close> of their states while the two runs agree, with the
  calls made so far, and the condition \<open>D\<close> on the traces of runs that have parted.
\<close>

locale twin =
  fixes r :: "'s reconciler" and get1 :: "'t \<Rightarrow> 's" and put1 :: "'t \<Rightarrow> 's \<Rightarrow> 't"
    and get2 :: "'u \<Rightarrow> 's" and put2 :: "'u \<Rightarrow> 's \<Rightarrow> 'u"
    and K :: "'t \<Rightarrow> 'u \<Rightarrow> effect list \<Rightarrow> bool" and D :: "effect list \<Rightarrow> effect list \<Rightarrow> bool"
  assumes call_law: "K c1 c2 ts \<Longrightarrow> is_call e \<Longrightarrow>
      get1 c1 = get2 c2 \<and> K (put1 c1 (apply_effect r e (get1 c1))) (put2 c2 (apply_effect r e (get2 c2))) (ts @ [e])
        \<or> D (ts @ [e]) (ts @ [e])"
    and quiet_law: "K c1 c2 ts \<Longrightarrow> \<not> is_call e \<Longrightarrow> K c1 c2 (ts @ [e]) \<or> D (ts @ [e]) (ts @ [e])"
    and parted_law: "D ts us \<Longrightarrow> D (ts @ ts') (us @ us')"
begin

abbreviation first :: "'t reconciler" where "first \<equiv> lifted get1 put1 r"
abbreviation second :: "'u reconciler" where "second \<equiv> lifted get2 put2 r"

definition agree :: "'t world \<Rightarrow> 'u world \<Rightarrow> bool" where
  "agree w1 w2 \<longleftrightarrow> trace w2 = trace w1 \<and> failedMap w2 = failedMap w1 \<and> uuidCount w2 = uuidCount w1
     \<and> sched w2 = sched w1 \<and> K (cluster w1) (cluster w2) (trace w1)"

definition parted :: "'t world \<Rightarrow> 'u world \<Rightarrow> bool" where
  "parted w1 w2 \<longleftrightarrow> D (trace w1) (trace w2)"

definition sim :: "('t world, 'a) state \<Rightarrow> ('u world, 'a) state \<Rightarrow> bool" where
  "sim m1 m2 \<longleftrightarrow> (\<forall>w1 w2. agree w1 w2 \<longrightarrow>
       fst (run_state m1 w1) = fst (run_state m2 w2) \<and> agree (snd (run_state m1 w1)) (snd (run_state m2 w2))
       \<or> parted (snd (run_state m1 w1)) (snd (run_state m2 w2)))
     \<and> (\<forall>w. prefix (trace w) (trace (snd (run_state m1 w))))
     \<and> (\<forall>w. prefix (trace w) (trace (snd (run_state m2 w))))"

lemma parted_prefix:
  "parted w1 w2 \<Longrightarrow> prefix (trace w1) (trace w1') \<Longrightarrow> prefix (trace w2) (trace w2') \<Longrightarrow> parted w1' w2'"
  by (auto simp: parted_def prefix_def intro: parted_law)

lemma simD:
  "sim m1 m2 \<Longrightarrow> agree w1 w2 \<Longrightarrow>
     agree (snd (run_state m1 w1)) (snd (run_state m2 w2))
     \<or> D (trace (snd (run_state m1 w1))) (trace (snd (run_state m2 w2)))"
  unfolding sim_def parted_def by blast

lemma sim_return [sim_intros]: "sim (State_Monad.return v) (State_Monad.return v)"
  by (simp add: sim_def)

lemma sim_ret [sim_intros]: "sim (ret v) (ret v)" "sim panic panic"
  by (simp_all add: ret_def panic_return sim_return)

lemma sim_bind [sim_intros]:
  assumes m: "sim m1 m2" and f: "\<And>x. sim (f1 x) (f2 x)"
  shows "sim (State_Monad.bind m1 f1) (State_Monad.bind m2 f2)"
proof -
  have run: "run_state (State_Monad.bind m g) w =
      run_state (g (fst (run_state m w))) (snd (run_state m w))"
    for m :: "('w, 'x) state" and g :: "'x \<Rightarrow> ('w, 'y) state" and w
    by (simp add: split_def)
  have ext: "prefix (trace w) (trace (snd (run_state (State_Monad.bind m1 f1) w)))" for w
    using m f unfolding run sim_def by (blast intro: prefix_order.trans)
  have ext': "prefix (trace w) (trace (snd (run_state (State_Monad.bind m2 f2) w)))" for w
    using m f unfolding run sim_def by (blast intro: prefix_order.trans)
  show ?thesis
    unfolding sim_def
  proof (intro conjI allI impI)
    fix w1 w2 assume a: "agree w1 w2"
    let ?x1 = "fst (run_state m1 w1)" and ?x2 = "fst (run_state m2 w2)"
    let ?v1 = "snd (run_state m1 w1)" and ?v2 = "snd (run_state m2 w2)"
    from m a consider (same) "?x1 = ?x2" "agree ?v1 ?v2" | (apart) "parted ?v1 ?v2"
      unfolding sim_def by blast
    then show "fst (run_state (State_Monad.bind m1 f1) w1) = fst (run_state (State_Monad.bind m2 f2) w2)
        \<and> agree (snd (run_state (State_Monad.bind m1 f1) w1)) (snd (run_state (State_Monad.bind m2 f2) w2))
        \<or> parted (snd (run_state (State_Monad.bind m1 f1) w1)) (snd (run_state (State_Monad.bind m2 f2) w2))"
    proof cases
      case same
      with f [of ?x1] show ?thesis unfolding run sim_def by auto
    next
      case apart
      with f have "parted (snd (run_state (f1 ?x1) ?v1)) (snd (run_state (f2 ?x2) ?v2))"
        unfolding sim_def by (blast intro: parted_prefix)
      then show ?thesis unfolding run by blast
    qed
  qed (simp_all only: ext ext')
qed

lemma sim_andThen [sim_intros]:
  "sim m1 m2 \<Longrightarrow> (\<And>v. sim (f1 v) (f2 v)) \<Longrightarrow> sim (andThen m1 f1) (andThen m2 f2)"
  unfolding andThen_def by (rule sim_bind) (auto intro: sim_return split: outcome.split)

lemma sim_call:
  assumes "is_call e" and "\<And>s. snd (f s) = apply_effect r e s"
  shows "sim (call e (through get1 put1 f)) (call e (through get2 put2 f))"
  using call_law [OF _ assms(1)]
  by (fastforce simp: sim_def run_call through_def agree_def parted_def assms(2))

lemma sim_quiet: "\<not> is_call e \<Longrightarrow> sim (emit e) (emit e)"
  using quiet_law by (fastforce simp: sim_def emit_def run_call agree_def parted_def)

lemma sim_observations [sim_intros]:
  "sim (eventf obj ty msg) (eventf obj ty msg)" "sim (emit (StartTimer d)) (emit (StartTimer d))"
  "sim (emit StartSnapWatch) (emit StartSnapWatch)"
  by (simp_all add: eventf_def sim_quiet)

lemma sim_locals [sim_intros]:
  "sim resetFailed resetFailed" "sim (setFailed k v) (setFailed k v)"
  "sim (appendFailed k v) (appendFailed k v)" "sim (newUUID first) (newUUID second)"
  "sim getSched getSched" "sim (setSched ts) (setSched ts)"
  by (simp_all add: sim_def agree_def lifted_def)

lemma sim_api [sim_intros]:
  "sim (getVG first k) (getVG second k)" "sim (getClass first k) (getClass second k)"
  "sim (getSnap first k) (getSnap second k)" "sim (getContent first k) (getContent second k)"
  "sim (getPVC first k) (getPVC second k)" "sim (getPV first k) (getPV second k)"
  "sim (listPVC first lo) (listPVC second lo)" "sim (listContent first) (listContent second)"
  "sim (createContent first c) (createContent second c)" "sim (createSnap first x) (createSnap second x)"
  "sim (statusUpdateContent first c) (statusUpdateContent second c)"
  "sim (deleteSnap first x) (deleteSnap second x)" "sim (deleteVG first v) (deleteVG second v)"
  "sim (createVGS first n ids ps) (createVGS second n ids ps)"
  by (simp_all add: api_defs lifted_def sim_call)

lemma sim_writes [sim_intros]:
  "sim (updateVG first v) (updateVG second v)" "sim (statusUpdateVG first v) (statusUpdateVG second v)"
  by (simp_all add: updateVG_def statusUpdateVG_def lifted_def sim_call sim_bind sim_return)

end

section \<open>The handlers side by side\<close>

text \<open>The library functions and what is computed from them alone.\<close>

lemma lifted_library [simp]:
  "r_DriverName (lifted get put r) = r_DriverName r"
  "r_IgnoreNotFound (lifted get put r) = r_IgnoreNotFound r"
  "r_AddFinalizer (lifted get put r) = r_AddFinalizer r"
  "r_RemoveFinalizer (lifted get put r) = r_RemoveFinalizer r"
  "r_NewUUID (lifted get put r) = r_NewUUID r"
  "r_ObjectKinds (lifted get put r) = r_ObjectKinds r"
  "r_GvkEmpty (lifted get put r) = r_GvkEmpty r"
  "r_GvString (lifted get put r) = r_GvString r"
  "r_FmtKinds (lifted get put r) = r_FmtKinds r"
  by (simp_all add: lifted_def)

lemma lifted_computes [simp]:
  "driverVerification (lifted get put r) = driverVerification r"
  "referenceKind (lifted get put r) = referenceKind r"
  by (auto simp: fun_eq_iff driverVerification_def referenceKind_def split: sum.split list.split)

lemma lifted_reference [simp]: "GetReference (lifted get put r) = GetReference r"
  by (auto simp: fun_eq_iff GetReference_def split: sum.split robj.split)

context twin
begin

lemma sim_event_if [sim_intros]:
  "sim (if b then eventf obj ty msg else State_Monad.return ())
     (if b then eventf obj ty msg else State_Monad.return ())"
  "sim (case x of None \<Rightarrow> State_Monad.return () | Some e \<Rightarrow> eventf obj ty (text e))
     (case x of None \<Rightarrow> State_Monad.return () | Some e \<Rightarrow> eventf obj ty (text e))"
  by (auto intro: sim_intros split: option.split)

text \<open>Source volumes.\<close>

lemma sim_mapLoop [sim_intros]: "sim (mapLoop first k sys ids m cs) (mapLoop second k sys ids m cs)"
  by (induction cs arbitrary: k sys ids m)
    (auto simp: Let_def intro!: sim_intros split: sum.split option.split prod.split)

lemma sim_mapVolIDToPvcName [sim_intros]:
  "sim (mapVolIDToPvcName first cs) (mapVolIDToPvcName second cs)"
  by (auto simp: mapVolIDToPvcName_def intro!: sim_intros split: sum.split prod.split)

lemma sim_pvcNameLoop [sim_intros]:
  "sim (pvcNameLoop first ns ds ps names) (pvcNameLoop second ns ds ps names)"
  by (induction names arbitrary: ds ps) (auto intro!: sim_intros split: sum.split)

lemma sim_findSources [sim_intros]: "sim (findSources first v) (findSources second v)"
  by (auto simp: findSources_def getSourceVolIDsFromPvcName_def getSourceVolIDsFromLabel_def
      getSourceVolIDsFromNs_def intro!: sim_intros split: sum.split option.split)

text \<open>Members.\<close>

lemma sim_checkExistingVolsnapcontent [sim_intros]:
  "sim (checkExistingVolsnapcontent first x v i) (checkExistingVolsnapcontent second x v i)"
  by (auto simp: checkExistingVolsnapcontent_def validateExistingVolSnapcontent_def Let_def
      intro!: sim_intros split: sum.split option.split prod.split)

lemma sim_checkExistingVolSnapshot [sim_intros]:
  "sim (checkExistingVolSnapshot first x v i) (checkExistingVolSnapshot second x v i)"
  by (auto simp: checkExistingVolSnapshot_def Let_def
      intro!: sim_intros split: sum.split option.split prod.split bool.split)

lemma sim_createContentAndSnap [sim_intros]:
  "sim (createContentAndSnap first n cn v s sc x ref) (createContentAndSnap second n cn v s sc x ref)"
  by (auto simp: createContentAndSnap_def intro!: sim_intros split: sum.split)

lemma sim_createVolumeSnapshot [sim_intros]:
  "sim (createVolumeSnapshot first n cn v s sc) (createVolumeSnapshot second n cn v s sc)"
  by (auto simp: createVolumeSnapshot_def Let_def intro!: sim_intros
      split: sum.split option.split prod.split)

lemma sim_updateContent [sim_intros]:
  "sim (updateVolumeSnapshotContentStatus first cn b s n) (updateVolumeSnapshotContentStatus second cn b s n)"
  by (auto simp: updateVolumeSnapshotContentStatus_def Let_def intro!: sim_intros split: sum.split)

text \<open>The response and the wait.\<close>

lemma sim_readyLoop [sim_intros]: "sim (readyLoop first ns names) (readyLoop second ns names)"
  by (induction names)
    (auto simp: Let_def intro!: sim_intros split: sum.split option.split prod.split bool.split)

lemma sim_pollLoop [sim_intros]: "sim (pollLoop first ns snaps ts) (pollLoop second ns snaps ts)"
  by (induction ts)
    (auto simp: checkReadyToUse_def intro!: sim_intros split: tick.split option.split)

lemma sim_checkSnapshotStatus [sim_intros]:
  "sim (checkSnapshotStatus first ns snaps t) (checkSnapshotStatus second ns snaps t)"
  unfolding checkSnapshotStatus_def by (intro sim_intros)

lemma sim_processSnapshots [sim_intros]:
  "sim (processSnapshots first vm v sc names errs ss) (processSnapshots second vm v sc names errs ss)"
  by (induction ss arbitrary: names errs)
    (auto simp: Let_def intro!: sim_intros split: prod.split)

lemma sim_processResponse [sim_intros]:
  "sim (processResponse first res vm v sc g) (processResponse second res vm v sc g)"
  unfolding processResponse_def Let_def by (auto intro!: sim_intros split: prod.split)

text \<open>Reconciliation and deletion.\<close>

lemma sim_failCreate [sim_intros]: "sim (failCreate first v msg err) (failCreate second v msg err)"
  by (auto simp: failCreate_def intro!: sim_intros split: prod.split)

lemma sim_finishCreate [sim_intros]:
  "sim (finishCreate first req v sc vm res) (finishCreate second req v sc vm res)"
  by (auto simp: finishCreate_def ensureFinalizer_def recordGroupID_def Let_def intro!: sim_intros
      split: prod.split option.split)

lemma sim_reconcileCreate [sim_intros]:
  "sim (reconcileCreate first req v) (reconcileCreate second req v)"
  by (auto simp: reconcileCreate_def createChecked_def createFromClass_def createGroup_def Let_def
      intro!: sim_intros split: sum.split prod.split option.split bool.split)

lemma sim_deleteLoop [sim_intros]: "sim (deleteLoop first v names) (deleteLoop second v names)"
  by (induction names) (auto intro!: sim_intros split: sum.split)

lemma sim_deleteVg [sim_intros]: "sim (deleteVg first v) (deleteVg second v)"
  by (auto simp: deleteVg_def dropFinalizer_def Let_def intro!: sim_intros
      split: sum.split option.split prod.split)

lemma sim_reconcile: "sim (reconcile first req) (reconcile second req)"
  by (auto simp: reconcile_def Let_def intro!: sim_intros split: sum.split)

text \<open>The callbacks.\<close>

lemma sim_contentDelete: "sim (HandleSnapContentDelete first obj) (HandleSnapContentDelete second obj)"
  by (auto simp: HandleSnapContentDelete_def Let_def intro!: sim_intros
      split: watchobj.split sum.split prod.split)

lemma sim_snapCreate: "sim (handleSnapCreate first obj) (handleSnapCreate second obj)"
  by (auto simp: handleSnapCreate_def Let_def intro!: sim_intros
      split: watchobj.split sum.split option.split)

lemma sim_snapUpdate: "sim (handleSnapUpdate first obj) (handleSnapUpdate second obj)"
  by (auto simp: handleSnapUpdate_def bindContentToSnapshot_def Let_def intro!: sim_intros
      split: watchobj.split sum.split option.split)

text \<open>So two runs of a job that start in agreement end in agreement, or have parted.\<close>

lemma job_agrees:
  assumes "K c1 c2 []"
  shows "agree (run_job first j c1) (run_job second j c2)
     \<or> D (trace (run_job first j c1)) (trace (run_job second j c2))"
proof -
  have "agree (start c1 ticks) (start c2 ticks)" for ticks
    using assms by (simp add: agree_def start_def)
  then show ?thesis
    by (cases j; simp only: run_job.simps)
      (rule simD, rule sim_reconcile sim_contentDelete sim_snapCreate sim_snapUpdate, assumption)+
qed

end

section \<open>The next call depends on the answers\<close>

text \<open>Two scripts that answer the first \<open>m\<close> calls alike.\<close>

definition same_answers :: "nat \<Rightarrow> (nat \<Rightarrow> 's) \<Rightarrow> (nat \<Rightarrow> 's) \<Rightarrow> bool" where
  "same_answers m env1 env2 \<longleftrightarrow> (\<forall>n<m. env1 n = env2 n)"

interpretation script: twin r env1 "\<lambda>n _. Suc n" env2 "\<lambda>n _. Suc n"
  "\<lambda>n1 n2 ts. same_answers m env1 env2 \<and> n1 = n2 \<and> n1 = length (filter is_call ts) \<and> n1 \<le> m"
  "\<lambda>ts us. \<exists>es. length es = Suc m \<and> prefix es (filter is_call ts) \<and> prefix es (filter is_call us)"
  for r env1 env2 m
proof unfold_locales
  fix n1 n2 ts e
  assume "same_answers m env1 env2 \<and> n1 = n2 \<and> n1 = length (filter is_call ts) \<and> n1 \<le> m" "is_call e"
  then show "(env1 n1 = env2 n2 \<and> same_answers m env1 env2 \<and> Suc n1 = Suc n2
       \<and> Suc n1 = length (filter is_call (ts @ [e])) \<and> Suc n1 \<le> m)
     \<or> (\<exists>es. length es = Suc m \<and> prefix es (filter is_call (ts @ [e])) \<and> prefix es (filter is_call (ts @ [e])))"
    by (cases "n1 < m") (auto simp: same_answers_def intro: exI [of _ "filter is_call (ts @ [e])"])
qed (auto simp: prefix_def)

lemma calls_determined:
  assumes "same_answers m env1 env2"
  shows "take (Suc m) (calls r j env1) = take (Suc m) (calls r j env2)"
proof -
  have "trace (run_job (scripted r env1) j 0) = trace (run_job (scripted r env2) j 0)
     \<or> (\<exists>es. length es = Suc m \<and> prefix es (calls r j env1) \<and> prefix es (calls r j env2))"
    using script.job_agrees [where m = m and r = r and ?env1.0 = env1 and ?env2.0 = env2
      and ?c1.0 = 0 and ?c2.0 = 0 and j = j, unfolded script.agree_def] assms
    unfolding calls_def scripted_def by auto
  then show ?thesis
    by (auto simp: calls_def prefix_def)
qed

text \<open>A job that has returned has returned in every store.\<close>

definition returned :: "'s reconciler \<Rightarrow> job \<Rightarrow> 's list \<Rightarrow> bool" where
  "returned r j seen \<longleftrightarrow> (\<forall>st. next_call r j seen st = None)"

lemma next_call_None: "next_call r j seen st = None \<longleftrightarrow> length (calls r j (answers seen st)) \<le> length seen"
  by (auto simp: next_call_def Let_def)

lemma returned_iff: "returned r j seen \<longleftrightarrow> next_call r j seen st = None"
proof -
  have "length (calls r j (answers seen st1)) \<le> length seen" if
    short: "length (calls r j (answers seen st2)) \<le> length seen" for st1 st2
  proof -
    have "same_answers (length seen) (answers seen st1) (answers seen st2)"
      by (simp add: same_answers_def answers_def)
    from arg_cong [OF calls_determined [OF this, of r j], of length] short show ?thesis
      by (simp add: min_def split: if_splits)
  qed
  then show ?thesis
    unfolding returned_def next_call_None by blast
qed

section \<open>A job that nobody disturbs\<close>

lemma replay_calls: "replay r (filter is_call ts) s = replay r ts s"
proof (induction ts arbitrary: s)
  case (Cons e ts)
  then show ?case by (cases e) simp_all
qed simp

text \<open>The script of an undisturbed run with trace \<open>T\<close>: what the store is before each call.\<close>

definition own_stores :: "'s reconciler \<Rightarrow> effect list \<Rightarrow> 's \<Rightarrow> nat \<Rightarrow> 's" where
  "own_stores r T s n = replay r (take n (filter is_call T)) s"

interpretation own: twin r "\<lambda>s. s" "\<lambda>_ s. s" "own_stores r T s0" "\<lambda>n _. Suc n"
  "\<lambda>s n ts. n = length (filter is_call ts) \<and> s = replay r ts s0 \<and> prefix ts T"
  "\<lambda>ts us. \<not> prefix ts T"
  for r T s0
proof unfold_locales
  fix s n ts e
  assume K: "n = length (filter is_call ts) \<and> s = replay r ts s0 \<and> prefix ts T"
  then have "own_stores r T s0 n = s"
    by (auto simp: own_stores_def prefix_def replay_calls)
  then show "is_call e \<Longrightarrow> (s = own_stores r T s0 n \<and> Suc n = length (filter is_call (ts @ [e]))
       \<and> apply_effect r e s = replay r (ts @ [e]) s0 \<and> prefix (ts @ [e]) T) \<or> \<not> prefix (ts @ [e]) T"
    using K by simp
  show "\<not> is_call e \<Longrightarrow> (n = length (filter is_call (ts @ [e])) \<and> s = replay r (ts @ [e]) s0
       \<and> prefix (ts @ [e]) T) \<or> \<not> prefix (ts @ [e]) T"
    using K by (cases e) simp_all
qed (auto dest: append_prefixD)

lemma through_id: "through (\<lambda>s. s) (\<lambda>_ s. s) f = f"
  by (simp add: through_def fun_eq_iff)

lemma lifted_id: "lifted (\<lambda>s. s) (\<lambda>_ s. s) r = r"
  by (cases r; cases "r_Client r") (simp add: lifted_def through_id)

lemma undisturbed:
  assumes "T = trace (run_job r j st)"
  shows "calls r j (own_stores r T st) = filter is_call T"
    and "cluster (run_job r j st) = replay r T st"
proof -
  have "own.agree r st T (run_job r j st) (run_job (scripted r (own_stores r T st)) j 0)"
    using own.job_agrees [where r = r and T = T and ?s0.0 = st and ?c1.0 = st and ?c2.0 = 0 and j = j] assms
    by (simp add: lifted_id scripted_def)
  then show "calls r j (own_stores r T st) = filter is_call T"
    and "cluster (run_job r j st) = replay r T st"
    using assms by (simp_all add: own.agree_def calls_def)
qed

text \<open>The calls of an undisturbed run, taken one after the other, are steps of the job.\<close>

lemma undisturbed_steps:
  fixes st :: 's
  assumes "T = trace (run_job r j st)" and "n \<le> length (filter is_call T)"
  shows "(interleaved r env)\<^sup>*\<^sup>* (st, js)
     (own_stores r T st n, js @ [(j, map (own_stores r T st) [0..<n])])"
  using assms(2)
proof (induction n)
  case 0
  show ?case by (simp add: own_stores_def r_into_rtranclp interleaved.begins)
next
  case (Suc n)
  let ?s = "own_stores r T st"
  let ?seen = "map ?s [0..<n]"
  let ?cs = "filter is_call T"
  have "same_answers (Suc n) (answers ?seen (?s n)) ?s"
    by (auto simp: same_answers_def answers_def less_Suc_eq)
  from arg_cong [of _ _ "take (Suc n)", OF calls_determined [OF this, of r j]]
  have eq: "take (Suc n) (calls r j (answers ?seen (?s n))) = take (Suc n) ?cs"
    by (simp add: undisturbed(1) [OF assms(1)] min_def)
  then have "min (length (calls r j (answers ?seen (?s n)))) (Suc n) = min (length ?cs) (Suc n)"
    by (metis length_take)
  with Suc.prems have n: "n < length (calls r j (answers ?seen (?s n)))"
    by (simp add: min_def split: if_splits)
  then have "next_call r j ?seen (?s n) = Some (?cs ! n)"
    using arg_cong [of _ _ "\<lambda>xs. xs ! n", OF eq] by (simp add: next_call_def Let_def)
  moreover have "apply_effect r (?cs ! n) (?s n) = ?s (Suc n)"
    using Suc.prems by (simp add: own_stores_def take_Suc_conv_app_nth)
  ultimately have "interleaved r env (?s n, js @ [(j, ?seen)]) (?s (Suc n), js @ [(j, ?seen @ [?s n])])"
    using interleaved.calls_next [of "length js" "js @ [(j, ?seen)]" j ?seen r "?s n" "?cs ! n" env]
    by simp
  then have "interleaved r env (?s n, js @ [(j, ?seen)]) (?s (Suc n), js @ [(j, map ?s [0..<Suc n])])"
    by simp
  with Suc.IH [OF Suc_leD [OF Suc.prems]] show ?case by (rule rtranclp.rtrancl_into_rtrancl)
qed

lemma undisturbed_job:
  fixes st :: 's
  shows "\<exists>seen. (interleaved r env)\<^sup>*\<^sup>* (st, js) (cluster (run_job r j st), js @ [(j, seen)])
     \<and> returned r j seen"
proof -
  define T where "T = trace (run_job r j st)"
  let ?s = "own_stores r T st"
  let ?n = "length (filter is_call T)"
  let ?seen = "map ?s [0..<?n]"
  have "same_answers (Suc ?n) (answers ?seen (?s ?n)) ?s"
    by (auto simp: same_answers_def answers_def less_Suc_eq)
  from calls_determined [OF this, of r j]
  have "length (take (Suc (Suc ?n)) (calls r j (answers ?seen (?s ?n)))) = ?n"
    unfolding undisturbed(1) [OF T_def] by simp
  then have "next_call r j ?seen (?s ?n) = None"
    by (simp add: next_call_def Let_def min_def split: if_splits)
  then have "returned r j ?seen" by (rule returned_iff [THEN iffD2])
  moreover have "?s ?n = cluster (run_job r j st)"
    unfolding undisturbed(2) [OF T_def] by (simp add: own_stores_def replay_calls)
  ultimately show ?thesis
    using undisturbed_steps [OF T_def order_refl, of env js] by metis
qed

section \<open>Whole handlers as interleavings\<close>

lemma job_step:
  "st' = cluster (run_job r j st) \<Longrightarrow>
     \<exists>seen. (interleaved r env)\<^sup>*\<^sup>* (st, js) (st', js @ [(j, seen)]) \<and> returned r j seen"
  by (simp only: undisturbed_job)

lemma step_interleaves:
  assumes "step cfg driver r st st'"
  shows "\<exists>js'. (interleaved (fake_reconciler cfg driver r) (outside cfg))\<^sup>*\<^sup>* (st, js) (st', js @ js')
     \<and> list_all (\<lambda>(j, seen). returned (fake_reconciler cfg driver r) j seen) js'"
proof -
  let ?r = "fake_reconciler cfg driver r"
  have job: ?thesis if "st' = cluster (run_job ?r j st)" for j
  proof -
    from job_step [OF that] obtain seen where
      "(interleaved ?r (outside cfg))\<^sup>*\<^sup>* (st, js) (st', js @ [(j, seen)])" "returned ?r j seen" by blast
    then show ?thesis by (intro exI [of _ "[(j, seen)]"]) simp
  qed
  from assms show ?thesis
  proof cases
    case (reconciles req ticks x w)
    then show ?thesis by (intro job [of "Reconciling req ticks"]) simp
  next
    case (content_deleted obj u w)
    then show ?thesis by (intro job [of "ContentGone obj"]) simp
  next
    case (snapshot_created obj y w)
    then show ?thesis by (intro job [of "SnapCreated obj"]) simp
  next
    case (snapshot_updated obj y w)
    then show ?thesis by (intro job [of "SnapUpdated obj"]) simp
  next
    case others_act
    then show ?thesis
      by (intro exI [of _ "[]"]) (simp add: r_into_rtranclp interleaved.environment)
  qed
qed

section \<open>Whole handlers as interleavings\<close>

text \<open>Every history of whole handlers, one after the other, is an interleaving of their single
  calls in which every handler has returned: what holds however the calls interleave holds of the
  controller with one worker, and each handler does call by call exactly what it does at once.\<close>

lemma handlers_interleave:
  assumes "(step cfg driver r)\<^sup>*\<^sup>* st st'"
  shows "\<exists>js. (interleaved (fake_reconciler cfg driver r) (outside cfg))\<^sup>*\<^sup>* (st, []) (st', js)
     \<and> list_all (\<lambda>(j, seen). returned (fake_reconciler cfg driver r) j seen) js"
  using assms
proof (induction rule: rtranclp_induct)
  case base
  show ?case by (intro exI [of _ "[]"]) simp
next
  case (step st1 st2)
  then obtain js where js: "(interleaved (fake_reconciler cfg driver r) (outside cfg))\<^sup>*\<^sup>* (st, []) (st1, js)"
    "list_all (\<lambda>(j, seen). returned (fake_reconciler cfg driver r) j seen) js" by blast
  from step_interleaves [OF step(2), of js] obtain js' where
    "(interleaved (fake_reconciler cfg driver r) (outside cfg))\<^sup>*\<^sup>* (st1, js) (st2, js @ js')"
    "list_all (\<lambda>(j, seen). returned (fake_reconciler cfg driver r) j seen) js'" by blast
  with js show ?case
    by (intro exI [of _ "js @ js'"]) (simp add: rtranclp_trans [OF js(1)])
qed

lemma handlers_interleave_witness:
  "\<exists>js. (interleaved (controller healthy) (outside healthy))\<^sup>*\<^sup>* (example_store new_group, [])
       (cluster (snd (run_state (reconcile (controller healthy) (NN ''ns'' ''vg''))
          (start (example_store new_group) [Tick, Timeout]))), js)
     \<and> list_all (\<lambda>(j, seen). returned (controller healthy) j seen) js"
proof (rule handlers_interleave [OF r_into_rtranclp])
  show "step healthy example_driver (example_reconciler (failing_client (errorf ''down''))) (example_store new_group)
      (cluster (snd (run_state (reconcile (controller healthy) (NN ''ns'' ''vg''))
          (start (example_store new_group) [Tick, Timeout]))))"
    by (rule reconciles [OF surjective_pairing])
qed

end
