(* ===== verification/Liveness.thy ===== *)
theory Liveness
  imports Interleaving
begin

text \<open>
  What a deletion achieves when nothing stands in its way. The lemmas on deletions in System say
  what a deletion that reports success has done; here is the condition on the store under which
  it does report success when no call fails, with every object of the store after it. Source:
  \<open>Reconcile\<close>, \<open>deleteVg\<close> and \<open>Delete\<close> of the repository's client.
\<close>

section \<open>Contents and classes of the store\<close>

definition stored_contents :: "store \<Rightarrow> string \<Rightarrow> content option" where
  "stored_contents st c = Option.bind (map_of st (SK [] c ''VolumeSnapshotContent'')) asContent"

definition stored_classes :: "store \<Rightarrow> string \<Rightarrow> vsclass option" where
  "stored_classes st n = Option.bind (map_of st (SK [] n ''VolumeSnapshotClass'')) asClass"

lemma contents_update [simp]:
  "stored_contents (AList.update (getKey (KVG v)) (KVG v) st) = stored_contents st"
  by (simp add: stored_contents_def getKey_def fun_eq_iff AList.update_conv')

lemma contents_delete [simp]:
  "stored_contents (AList.delete (getKey (KSnap x)) st) = stored_contents st"
  "stored_contents (AList.delete (getKey (KContent vc)) st) =
     (stored_contents st)(vc_Name vc := None)"
  by (auto simp: stored_contents_def getKey_def fun_eq_iff AList.delete_conv')

lemma wf_contents: "wf_store st \<Longrightarrow> stored_contents st c = Some vc \<Longrightarrow> vc_Name vc = c"
  by (auto simp: stored_contents_def bind_eq_Some_conv getKey_def dest!: wf_store_get)

lemma wf_snaps: "wf_store st \<Longrightarrow> stored_snaps st k = Some x \<Longrightarrow> snap_key x = k"
  by (cases k) (auto simp: stored_snaps_def bind_eq_Some_conv getKey_def snap_key_def
      dest!: wf_store_get)

lemma wf_groups: "wf_store st \<Longrightarrow> stored_groups st k = Some v \<Longrightarrow> vg_key v = k"
  by (cases k) (auto simp: stored_groups_def bind_eq_Some_conv getKey_def vg_key_def
      dest!: wf_store_get)

lemma calm_get_class:
  "stored_classes st n = Some sc \<Longrightarrow>
     cl_GetClass (r_Client (calm cfg driver r)) (NN [] n) st = (Inr sc, st)"
  by (auto simp: fake_client_def fakeGet_def no_failures_def stored_classes_def bind_eq_Some_conv)

lemma calm_update:
  "stored_groups st (vg_key v) = Some u \<Longrightarrow>
     cl_UpdateVG (r_Client (calm cfg driver r)) v st =
       (Inr v, AList.update (getKey (KVG v)) (KVG v) st)"
  by (auto simp: fake_client_def fakeUpdate_def no_failures_def stored_groups_def
      getKey_def vg_key_def written_def bind_eq_Some_conv)

lemma calm_delete_snap:
  "stored_snaps st (snap_key x) = Some y \<Longrightarrow> vs_SourceContentName x = Some c \<Longrightarrow>
   stored_contents st c = Some vc \<Longrightarrow>
     cl_DeleteSnap (r_Client (calm cfg driver r)) x st =
       (Inr (), AList.delete (getKey (KSnap x))
          (if vc_DeletionPolicy vc = VolumeSnapshotContentDelete
           then AList.delete (getKey (KContent vc)) st else st))"
  by (auto simp: fake_client_def fakeDelete_def fakeGet_def no_failures_def stored_snaps_def
      stored_contents_def getKey_def snap_key_def written_def bind_eq_Some_conv)

section \<open>Members that can be removed\<close>

text \<open>
  The content a member names; a list of members that can be removed: each one that is stored
  names a content that is stored, and no two name the same one, since the first of them could
  take it along. \<open>lost_content\<close> are the contents their removal takes along.
\<close>

definition member_content :: "store \<Rightarrow> string \<Rightarrow> string \<Rightarrow> string option" where
  "member_content st ns n = Option.bind (stored_snaps st (NN ns n)) vs_SourceContentName"

definition removable :: "string \<Rightarrow> string list \<Rightarrow> store \<Rightarrow> bool" where
  "removable ns names st \<longleftrightarrow>
     (\<forall>n \<in> set names. stored_snaps st (NN ns n) \<noteq> None \<longrightarrow>
        Option.bind (member_content st ns n) (stored_contents st) \<noteq> None)
   \<and> (\<forall>n \<in> set names. \<forall>m \<in> set names. member_content st ns n \<noteq> None \<longrightarrow>
        member_content st ns n = member_content st ns m \<longrightarrow> n = m)"

definition lost_content :: "string \<Rightarrow> string list \<Rightarrow> store \<Rightarrow> string \<Rightarrow> bool" where
  "lost_content ns names st c \<longleftrightarrow> Some c \<in> member_content st ns ` set names
     \<and> (case stored_contents st c of None \<Rightarrow> False
          | Some vc \<Rightarrow> vc_DeletionPolicy vc = VolumeSnapshotContentDelete)"

definition without_contents :: "string \<Rightarrow> string list \<Rightarrow> store \<Rightarrow> string \<Rightarrow> content option" where
  "without_contents ns names st c =
     (if lost_content ns names st c then None else stored_contents st c)"

lemma without_contents_Nil [simp]: "without_contents ns [] st = stored_contents st"
  by (simp add: without_contents_def lost_content_def fun_eq_iff)

text \<open>A member that is not stored is skipped.\<close>

lemma absent_member:
  assumes "stored_snaps st (NN ns n) = None"
  shows "removable ns (n # names) st \<longleftrightarrow> removable ns names st"
    "without_contents ns (n # names) st = without_contents ns names st"
  using assms
  by (auto simp: removable_def without_contents_def lost_content_def member_content_def fun_eq_iff)

text \<open>The store after the first member was removed: the rest can still be removed.\<close>

lemma first_removed:
  assumes "removable ns (n # names) st" and "stored_snaps st (NN ns n) = Some x"
  obtains c vc where "vs_SourceContentName x = Some c" "stored_contents st c = Some vc"
    "\<And>st'. stored_snaps st' = (stored_snaps st)(NN ns n := None) \<Longrightarrow>
       stored_contents st' =
         (if vc_DeletionPolicy vc = VolumeSnapshotContentDelete
          then (stored_contents st)(c := None) else stored_contents st) \<Longrightarrow>
       removable ns names st' \<and> without_contents ns names st' = without_contents ns (n # names) st"
proof -
  from assms obtain c vc where c: "vs_SourceContentName x = Some c" "stored_contents st c = Some vc"
    by (auto simp: removable_def member_content_def bind_eq_Some_conv)
  have mine: "member_content st ns n = Some c"
    using assms(2) c by (simp add: member_content_def)
  have rest: "\<And>m. m \<in> set names \<Longrightarrow> stored_snaps st (NN ns m) \<noteq> None \<Longrightarrow>
      Option.bind (member_content st ns m) (stored_contents st) \<noteq> None"
    and one: "\<And>m m'. m \<in> set names \<Longrightarrow> m' \<in> set names \<Longrightarrow> member_content st ns m \<noteq> None \<Longrightarrow>
      member_content st ns m = member_content st ns m' \<Longrightarrow> m = m'"
    and other: "\<And>m. m \<in> set names \<Longrightarrow> member_content st ns m = Some c \<Longrightarrow> m = n"
    using assms(1) mine by (auto simp: removable_def)
  show thesis
  proof (rule that [OF c])
    fix st'
    assume s: "stored_snaps st' = (stored_snaps st)(NN ns n := None)"
      and k: "stored_contents st' =
         (if vc_DeletionPolicy vc = VolumeSnapshotContentDelete
          then (stored_contents st)(c := None) else stored_contents st)"
    have m: "member_content st' ns m = (if m = n then None else member_content st ns m)" for m
      using s by (simp add: member_content_def)
    have keep: "stored_contents st' d = stored_contents st d" if "d \<noteq> c" for d
      using that k by simp
    have "removable ns names st'"
      unfolding removable_def
    proof (intro conjI ballI impI)
      fix l assume l: "l \<in> set names" "stored_snaps st' (NN ns l) \<noteq> None"
      then have "l \<noteq> n" using s by auto
      with l s rest [OF l(1)] obtain d where d: "member_content st ns l = Some d"
          "stored_contents st d \<noteq> None"
        by (auto simp: bind_eq_None_conv)
      with other [OF l(1)] \<open>l \<noteq> n\<close> have "d \<noteq> c" by auto
      with d keep [OF this] \<open>l \<noteq> n\<close>
      show "Option.bind (member_content st' ns l) (stored_contents st') \<noteq> None"
        by (simp add: m)
    next
      fix l l' assume "l \<in> set names" "l' \<in> set names" "member_content st' ns l \<noteq> None"
        "member_content st' ns l = member_content st' ns l'"
      then show "l = l'" using one [of l l'] by (auto simp: m split: if_splits)
    qed
    moreover have "lost_content ns (n # names) st d \<longleftrightarrow>
        d = c \<and> vc_DeletionPolicy vc = VolumeSnapshotContentDelete \<or> lost_content ns names st' d" for d
    proof (cases "d = c")
      case True
      then have "Some d \<notin> member_content st' ns ` set names"
        using other by (auto simp: m split: if_splits)
      then show ?thesis using True mine c(2) by (simp add: lost_content_def)
    next
      case False
      then have "Some d \<in> member_content st ns ` set (n # names) \<longleftrightarrow>
          Some d \<in> member_content st' ns ` set names"
        using mine by (auto simp: m image_iff split: if_splits)
      with False keep show ?thesis by (simp add: lost_content_def)
    qed
    ultimately show "removable ns names st' \<and>
        without_contents ns names st' = without_contents ns (n # names) st"
      using k by (simp add: without_contents_def fun_eq_iff)
  qed
qed

section \<open>The loop over the members\<close>

lemma calm_deleteLoop:
  assumes "wf_store (cluster w)" and "removable (vg_Namespace v) names (cluster w)"
  shows "\<exists>w'. run_state (deleteLoop (calm cfg driver r) v names) w = (None, w')
     \<and> stored_groups (cluster w') = stored_groups (cluster w)
     \<and> stored_snaps (cluster w') =
         without_members (vg_Namespace v) names (stored_snaps (cluster w))
     \<and> stored_contents (cluster w') = without_contents (vg_Namespace v) names (cluster w)"
  using assms
proof (induction names arbitrary: w)
  case Nil
  then show ?case by simp
next
  case (Cons n names)
  let ?k = "NN (vg_Namespace v) n"
  let ?w1 = "w\<lparr>trace := trace w @ [GetSnap ?k]\<rparr>"
  show ?case
  proof (cases "stored_snaps (cluster w) ?k")
    case None
    obtain e where "cl_GetSnap (r_Client (calm cfg driver r)) ?k (cluster w) = (Inl e, cluster w)"
      using calm_missing(2) [OF None] by blast
    then have "run_state (deleteLoop (calm cfg driver r) v (n # names)) w =
        run_state (deleteLoop (calm cfg driver r) v names) ?w1"
      by (simp add: getSnap_def run_call del: fake_simps)
    then show ?thesis
      using Cons.IH [of ?w1] Cons.prems None
      by (simp add: absent_member without_members_other del: without_members_simps fake_simps)
  next
    case (Some x)
    from first_removed [OF Cons.prems(2) Some] obtain c vc
      where c: "vs_SourceContentName x = Some c" "stored_contents (cluster w) c = Some vc"
        and next_ok: "\<And>st'. stored_snaps st' = (stored_snaps (cluster w))(?k := None) \<Longrightarrow>
          stored_contents st' = (if vc_DeletionPolicy vc = VolumeSnapshotContentDelete
            then (stored_contents (cluster w))(c := None) else stored_contents (cluster w)) \<Longrightarrow>
          removable (vg_Namespace v) names st' \<and> without_contents (vg_Namespace v) names st' =
            without_contents (vg_Namespace v) (n # names) (cluster w)"
      by metis
    have key: "snap_key x = ?k" "vc_Name vc = c"
      using wf_snaps [OF Cons.prems(1) Some] wf_contents [OF Cons.prems(1) c(2)] by simp_all
    define st2 where "st2 = AList.delete (getKey (KSnap x))
      (if vc_DeletionPolicy vc = VolumeSnapshotContentDelete
       then AList.delete (getKey (KContent vc)) (cluster w) else cluster w)"
    have st2: "stored_groups st2 = stored_groups (cluster w)"
      "stored_snaps st2 = (stored_snaps (cluster w))(?k := None)"
      "stored_contents st2 = (if vc_DeletionPolicy vc = VolumeSnapshotContentDelete
            then (stored_contents (cluster w))(c := None) else stored_contents (cluster w))"
      using key by (simp_all add: st2_def)
    have wf2: "wf_store st2"
      using Cons.prems(1) by (simp add: st2_def wf_store_delete)
    let ?w2 = "w\<lparr>cluster := st2, trace := trace w @ [GetSnap ?k, DeleteSnap x]\<rparr>"
    have del: "cl_DeleteSnap (r_Client (calm cfg driver r)) x (cluster w) = (Inr (), st2)"
      unfolding st2_def by (rule calm_delete_snap [OF _ c, of x]) (simp add: key Some)
    have "run_state (deleteLoop (calm cfg driver r) v (n # names)) w =
        run_state (deleteLoop (calm cfg driver r) v names) ?w2"
      using calm_gets(2) [OF Some, of cfg driver r] del
      by (simp add: getSnap_def deleteSnap_def run_call del: fake_simps)
    with Cons.IH [of ?w2] wf2 next_ok [OF st2(2,3)] st2(1,2) show ?thesis
      by (simp add: fun_upd_def del: deleteLoop.simps fake_simps)
  qed
qed

section \<open>Deletions that go through\<close>

text \<open>The group without the controller's finalizer, as the deletion sends it.\<close>

definition unpinned :: "vg \<Rightarrow> vg" where
  "unpinned v = v\<lparr>vg_Finalizers := removeAll FinalizerName (vg_Finalizers v)\<rparr>"

lemma calm_dropFinalizer:
  assumes "stored_groups (cluster w) (vg_key v) = Some u"
  shows "\<exists>w'. run_state (dropFinalizer (calm cfg driver r) v) w = (None, w')
     \<and> stored_groups (cluster w') = (stored_groups (cluster w))(vg_key v \<mapsto> unpinned v)
     \<and> stored_snaps (cluster w') = stored_snaps (cluster w)
     \<and> stored_contents (cluster w') = stored_contents (cluster w)"
proof -
  have key: "vg_key (unpinned v) = vg_key v" by (simp add: unpinned_def vg_key_def)
  have sent: "v\<lparr>vg_Finalizers := r_RemoveFinalizer (calm cfg driver r) (vg_Finalizers v) FinalizerName\<rparr>
      = unpinned v"
    by (simp add: unpinned_def)
  have "cl_UpdateVG (r_Client (calm cfg driver r)) (unpinned v) (cluster w) =
      (Inr (unpinned v), AList.update (getKey (KVG (unpinned v))) (KVG (unpinned v)) (cluster w))"
    by (rule calm_update) (simp add: key assms)
  then show ?thesis
    by (simp add: dropFinalizer_def sent updateVG_def run_call key del: fake_simps)
qed

lemma calm_deleteVg:
  assumes "wf_store (cluster w)" and "stored_groups (cluster w) (vg_key v) = Some u"
    and "stored_classes (cluster w) (spec_Volumesnapshotclass (vg_Spec v)) = Some sc"
    and "sc_DeletionPolicy sc \<in> {VolumeSnapshotContentDelete, VolumeSnapshotContentRetain}"
    and "sc_DeletionPolicy sc = VolumeSnapshotContentDelete \<longrightarrow>
      removable (vg_Namespace v) (member_names v) (cluster w)"
  defines "gone \<equiv> if sc_DeletionPolicy sc = VolumeSnapshotContentDelete then member_names v else []"
  shows "\<exists>w'. run_state (deleteVg (calm cfg driver r) v) w = (None, w')
     \<and> stored_groups (cluster w') = (stored_groups (cluster w))(vg_key v \<mapsto> unpinned v)
     \<and> stored_snaps (cluster w') =
         without_members (vg_Namespace v) gone (stored_snaps (cluster w))
     \<and> stored_contents (cluster w') = without_contents (vg_Namespace v) gone (cluster w)"
proof -
  have "fst (cl_GetClass (r_Client (calm cfg driver r))
      (NN [] (spec_Volumesnapshotclass (vg_Spec v))) (cluster w)) = Inr sc"
    using calm_get_class [OF assms(3), of cfg driver r] by simp
  from fake.deleteVg_class [OF assms(1) this] obtain w1 where w1: "cluster w1 = cluster w"
    and run: "run_state (deleteVg (calm cfg driver r) v) w =
      run_state (fake.delete_by_policy (no_failures cfg) driver r v sc) w1" by blast
  show ?thesis
  proof (cases "sc_DeletionPolicy sc = VolumeSnapshotContentDelete")
    case True
    with assms(1,5) w1 calm_deleteLoop [of w1 v "member_names v" cfg driver r]
    obtain w2 where loop: "run_state (deleteLoop (calm cfg driver r) v (member_names v)) w1 = (None, w2)"
      and w2: "stored_groups (cluster w2) = stored_groups (cluster w)"
        "stored_snaps (cluster w2) = without_members (vg_Namespace v) gone (stored_snaps (cluster w))"
        "stored_contents (cluster w2) = without_contents (vg_Namespace v) gone (cluster w)"
      by (auto simp: gone_def)
    have "stored_groups (cluster w2) (vg_key v) = Some u" using w2(1) assms(2) by simp
    from calm_dropFinalizer [OF this, of cfg driver r] True loop w2 run show ?thesis
      by (simp add: fake.delete_by_policy_def del: fake_simps)
  next
    case False
    have "stored_groups (cluster w1) (vg_key v) = Some u" using w1 assms(2) by simp
    from calm_dropFinalizer [OF this, of cfg driver r] False assms(4) w1 run show ?thesis
      by (simp add: fake.delete_by_policy_def gone_def del: fake_simps)
  qed
qed

text \<open>The whole reconciliation.\<close>

lemma calm_deletes:
  assumes "wf_store (cluster w)" and "stored_groups (cluster w) req = Some v"
    and "\<not> deletion_is_zero v" and "status_Status (vg_Status v) = EventStatusComplete"
    and "FinalizerName \<in> set (vg_Finalizers v)"
    and "stored_classes (cluster w) (spec_Volumesnapshotclass (vg_Spec v)) = Some sc"
    and "sc_DeletionPolicy sc \<in> {VolumeSnapshotContentDelete, VolumeSnapshotContentRetain}"
    and "sc_DeletionPolicy sc = VolumeSnapshotContentDelete \<longrightarrow>
      removable (nnNamespace req) (member_names v) (cluster w)"
    and "gone = (if sc_DeletionPolicy sc = VolumeSnapshotContentDelete then member_names v else [])"
  shows "\<exists>w'. run_state (reconcile (calm cfg driver r) req) w = (Ret None, w')
     \<and> stored_groups (cluster w') = (stored_groups (cluster w))(req \<mapsto> unpinned v)
     \<and> stored_snaps (cluster w') =
         without_members (nnNamespace req) gone (stored_snaps (cluster w))
     \<and> stored_contents (cluster w') = without_contents (nnNamespace req) gone (cluster w)"
proof -
  have key: "vg_key v = req" by (rule wf_groups [OF assms(1,2)])
  then have ns: "vg_Namespace v = nnNamespace req" by (auto simp: vg_key_def)
  let ?w = "w\<lparr>trace := trace w @ [GetVG req]\<rparr>"
  have "run_state (reconcile (calm cfg driver r) req) w =
      run_state (do { err \<leftarrow> deleteVg (calm cfg driver r) v; ret err }) ?w"
    using assms(3-5) calm_gets(1) [OF assms(2), of cfg driver r]
    by (simp add: reconcile_def getVG_def run_call Let_def del: fake_simps)
  then show ?thesis
    using calm_deleteVg [of ?w v v sc cfg driver r] assms(1,2,6-9) key ns
    by (auto simp del: fake_simps)
qed

section \<open>Properties\<close>

text \<open>C14: When no call fails, the deletion of a \<open>Complete\<close> group that carries the controller's
  finalizer and whose class is stored with policy \<open>Delete\<close> or \<open>Retain\<close> reports success,
  provided that under \<open>Delete\<close> its members can be removed: the listed snapshots are then gone
  with the contents they take along, the group has lost the finalizer, and every other group,
  snapshot and content is as before.\<close>

lemma deletion_goes_through:
  assumes "wf_store (cluster w)" and "stored_groups (cluster w) req = Some v"
    and "\<not> deletion_is_zero v" and "status_Status (vg_Status v) = EventStatusComplete"
    and "FinalizerName \<in> set (vg_Finalizers v)"
    and "stored_classes (cluster w) (spec_Volumesnapshotclass (vg_Spec v)) = Some sc"
    and "sc_DeletionPolicy sc \<in> {VolumeSnapshotContentDelete, VolumeSnapshotContentRetain}"
    and "sc_DeletionPolicy sc = VolumeSnapshotContentDelete \<longrightarrow>
      removable (nnNamespace req) (member_names v) (cluster w)"
    and "gone = (if sc_DeletionPolicy sc = VolumeSnapshotContentDelete then member_names v else [])"
  shows "\<exists>w'. run_state (reconcile (calm cfg driver r) req) w = (Ret None, w')
     \<and> stored_groups (cluster w') = (stored_groups (cluster w))(req \<mapsto> unpinned v)
     \<and> stored_snaps (cluster w') =
         without_members (nnNamespace req) gone (stored_snaps (cluster w))
     \<and> stored_contents (cluster w') = without_contents (nnNamespace req) gone (cluster w)"
  by (rule calm_deletes [OF assms])

lemma deletion_goes_through_witness:
  "fst (run_state (reconcile calm_controller (NN ''ns'' ''vg'')) (start doomed_store [])) = Ret None"
proof -
  have 1: "stored_groups (cluster (start doomed_store [])) (NN ''ns'' ''vg'') = Some doomed_group"
    and 2: "stored_classes (cluster (start doomed_store []))
      (spec_Volumesnapshotclass (vg_Spec doomed_group)) = Some example_class"
    and 3: "removable (nnNamespace (NN ''ns'' ''vg'')) (member_names doomed_group)
      (cluster (start doomed_store []))"
    by code_simp+
  have "wf_store (cluster (start doomed_store []))" "\<not> deletion_is_zero doomed_group"
    "status_Status (vg_Status doomed_group) = EventStatusComplete"
    "FinalizerName \<in> set (vg_Finalizers doomed_group)"
    "sc_DeletionPolicy example_class \<in> {VolumeSnapshotContentDelete, VolumeSnapshotContentRetain}"
    by (simp_all add: doomed_store_def wf_newFakeClient doomed_group_def deletion_is_zero_def
        example_group_def empty_vg_def empty_status_def example_class_def)
  from deletion_goes_through [OF this(1) 1 this(2-4) 2 this(5) _ refl,
      of healthy example_driver "controller healthy"] 3 show ?thesis
    by (auto simp del: fake_simps)
qed

end
