(* ===== verification/Creation.thy ===== *)
theory Creation
  imports Liveness
begin

text \<open>
  A creation run to its end on a store whose calls do not fail, except that it may refuse to
  create objects: which objects are made, which result is reported, and what the group says. When
  nothing is refused the creation reports success at the first tick of its wait. Source: the
  creation path of \<open>Reconcile\<close> down to \<open>processResponse\<close>, and the repository's client.
\<close>

section \<open>Reads and writes of a calm store\<close>

text \<open>What a creation asks the store, as tables.\<close>

definition volume_table :: "fakecfg \<Rightarrow> store \<Rightarrow> nname \<Rightarrow> error + pv" where
  "volume_table cfg st k = fakeGet (no_failures cfg\<lparr>fc_Recode := Inr\<rparr>) (KPV empty_pv) asPV k st"

definition claim_table :: "fakecfg \<Rightarrow> store \<Rightarrow> nname \<Rightarrow> error + pvc" where
  "claim_table cfg st k = fakeGet (no_failures cfg\<lparr>fc_Recode := Inr\<rparr>) (KPVC empty_pvc) asPVC k st"

definition claim_lists :: "fakecfg \<Rightarrow> store \<Rightarrow> listopts \<Rightarrow> error + pvc list" where
  "claim_lists cfg st lo = fakeList (no_failures cfg\<lparr>fc_Recode := Inr\<rparr>) (kindOf (KPVC empty_pvc))
     (listPersistentVolumeClaim (no_failures cfg\<lparr>fc_Recode := Inr\<rparr>) lo st)"

lemma calm_tables:
  "cl_GetPV (r_Client (calm cfg driver r)) k st = (volume_table cfg st k, st)"
  "cl_GetPVC (r_Client (calm cfg driver r)) k st = (claim_table cfg st k, st)"
  "cl_ListPVC (r_Client (calm cfg driver r)) lo st = (claim_lists cfg st lo, st)"
  by (simp_all add: fake_client_def volume_table_def claim_table_def claim_lists_def)

text \<open>A write of a group changes none of them.\<close>

lemma listed_after_group:
  assumes "wf_store st"
  shows "listPersistentVolumeClaim cfg lo (AList.update (getKey (KVG v)) (KVG v) st)
    = listPersistentVolumeClaim cfg lo st"
proof -
  have "asPVC ob = None" if "getKey ob = getKey (KVG v)" for ob
    using that by (cases ob) (auto simp: getKey_def)
  with assms show ?thesis
    by (induction st) (auto simp: listPersistentVolumeClaim_def wf_store_def)
qed

lemma fakeGet_after_group:
  "kindOf obj \<noteq> ''DellCsiVolumeGroupSnapshot'' \<Longrightarrow>
     fakeGet cfg obj proj k (AList.update (getKey (KVG v)) (KVG v) st) = fakeGet cfg obj proj k st"
proof -
  assume "kindOf obj \<noteq> ''DellCsiVolumeGroupSnapshot''"
  then have "map_of (AList.update (getKey (KVG v)) (KVG v) st) (SK (nnNamespace k) (nnName k) (kindOf obj))
      = map_of st (SK (nnNamespace k) (nnName k) (kindOf obj))"
    by (simp add: getKey_def AList.update_conv')
  then show ?thesis unfolding fakeGet_def by (simp only:)
qed

lemma tables_after_group:
  assumes "wf_store st"
  shows "volume_table cfg (AList.update (getKey (KVG v)) (KVG v) st) = volume_table cfg st"
    "claim_table cfg (AList.update (getKey (KVG v)) (KVG v) st) = claim_table cfg st"
    "claim_lists cfg (AList.update (getKey (KVG v)) (KVG v) st) = claim_lists cfg st"
  using listed_after_group [OF assms]
  by (auto simp: volume_table_def claim_table_def claim_lists_def fakeGet_after_group fun_eq_iff)

lemma classes_after_group [simp]:
  "stored_classes (AList.update (getKey (KVG v)) (KVG v) st) = stored_classes st"
  by (simp add: stored_classes_def getKey_def fun_eq_iff AList.update_conv')

lemma contents_after_create [simp]:
  "stored_contents (AList.update (getKey (KSnap x)) (KSnap x) st) = stored_contents st"
  "stored_contents (AList.update (getKey (KContent c)) (KContent c) st) =
     (stored_contents st)(vc_Name c \<mapsto> c)"
  "stored_snaps (AList.update (getKey (KSnap x)) (KSnap x) st) = (stored_snaps st)(snap_key x \<mapsto> x)"
  "stored_classes (AList.update (getKey (KSnap x)) (KSnap x) st) = stored_classes st"
  "stored_classes (AList.update (getKey (KContent c)) (KContent c) st) = stored_classes st"
  by (auto simp: stored_contents_def stored_snaps_def stored_classes_def getKey_def fun_eq_iff
      AList.update_conv' snap_key_def eq_NN_iff)

text \<open>In a well-formed store an object the views do not show is not under its key.\<close>

lemma absent_key:
  assumes "wf_store st"
  shows "stored_snaps st (snap_key x) = None \<Longrightarrow> map_of st (getKey (KSnap x)) = None"
    "stored_contents st (vc_Name c) = None \<Longrightarrow> map_of st (getKey (KContent c)) = None"
proof -
  have kind: "map_of st k = Some ob \<Longrightarrow> kindOf ob = skKind k" for k ob
    using wf_store_get [OF assms] by (metis getKey_def StorageKey.sel(3))
  show "map_of st (getKey (KSnap x)) = None" if "stored_snaps st (snap_key x) = None"
  proof (rule ccontr)
    assume "map_of st (getKey (KSnap x)) \<noteq> None"
    then obtain ob where ob: "map_of st (getKey (KSnap x)) = Some ob" by blast
    with kind [OF ob] that show False
      by (auto simp: stored_snaps_def snap_key_def getKey_def as_kind)
  qed
  show "map_of st (getKey (KContent c)) = None" if "stored_contents st (vc_Name c) = None"
  proof (rule ccontr)
    assume "map_of st (getKey (KContent c)) \<noteq> None"
    then obtain ob where ob: "map_of st (getKey (KContent c)) = Some ob" by blast
    with kind [OF ob] that show False
      by (cases ob) (auto simp: stored_contents_def getKey_def)
  qed
qed

lemma calm_get_content:
  "stored_contents st n = Some c \<Longrightarrow>
     cl_GetContent (r_Client (calm cfg driver r)) (NN [] n) st = (Inr c, st)"
  by (auto simp: fake_client_def fakeGet_def no_failures_def stored_contents_def bind_eq_Some_conv)

section \<open>A store that may refuse to create\<close>

text \<open>\<open>fail\<close> says which creations are refused, and with which error; every other call goes through.\<close>

definition refusing :: "(kobj \<Rightarrow> error option) \<Rightarrow> fakecfg \<Rightarrow> fakecfg" where
  "refusing fail cfg =
     cfg\<lparr>fc_ShouldFail := (\<lambda>op ob. if op = ''Create'' then fail ob else None)\<rparr>"

abbreviation grudging ::
  "(kobj \<Rightarrow> error option) \<Rightarrow> fakecfg
     \<Rightarrow> (string \<Rightarrow> string list \<Rightarrow> (string \<times> string) list \<Rightarrow> error + vgsresponse)
     \<Rightarrow> store reconciler \<Rightarrow> store reconciler" where
  "grudging fail cfg driver r \<equiv> fake_reconciler (refusing fail cfg) driver r"

lemma calm_grudging: "calm cfg driver r = grudging (\<lambda>_. None) cfg driver r"
proof -
  have "no_failures cfg = refusing (\<lambda>_. None) cfg"
    by (simp add: no_failures_def refusing_def)
  then show ?thesis by simp
qed

text \<open>All calls but the creations are those of the calm store, and so are the programs that make no
  others.\<close>

lemma refusing_calls:
  "fakeGet (refusing fail cfg\<lparr>fc_Recode := Inr\<rparr>) = fakeGet (no_failures cfg\<lparr>fc_Recode := Inr\<rparr>)"
  "fakeList (refusing fail cfg\<lparr>fc_Recode := Inr\<rparr>) = fakeList (no_failures cfg\<lparr>fc_Recode := Inr\<rparr>)"
  "fakeUpdate (refusing fail cfg\<lparr>fc_Recode := Inr\<rparr>) = fakeUpdate (no_failures cfg\<lparr>fc_Recode := Inr\<rparr>)"
  by (simp_all add: fun_eq_iff fakeGet_def fakeList_def fakeUpdate_def
      refusing_def no_failures_def cong: option.case_cong sum.case_cong)

lemma refusing_list:
  "listPersistentVolumeClaim (refusing fail cfg\<lparr>fc_Recode := Inr\<rparr>) =
     listPersistentVolumeClaim (no_failures cfg\<lparr>fc_Recode := Inr\<rparr>)"
proof -
  have "fc_SelectorString (refusing fail cfg\<lparr>fc_Recode := Inr\<rparr>) =
      fc_SelectorString (no_failures cfg\<lparr>fc_Recode := Inr\<rparr>)"
    by (simp add: refusing_def no_failures_def)
  then show ?thesis
    unfolding listPersistentVolumeClaim_def fun_eq_iff by (simp only:) simp
qed

lemma grudging_calls:
  "getVG (grudging fail cfg driver r) = getVG (calm cfg driver r)"
  "getClass (grudging fail cfg driver r) = getClass (calm cfg driver r)"
  "getSnap (grudging fail cfg driver r) = getSnap (calm cfg driver r)"
  "getContent (grudging fail cfg driver r) = getContent (calm cfg driver r)"
  "getPVC (grudging fail cfg driver r) = getPVC (calm cfg driver r)"
  "getPV (grudging fail cfg driver r) = getPV (calm cfg driver r)"
  "listPVC (grudging fail cfg driver r) = listPVC (calm cfg driver r)"
  "updateVG (grudging fail cfg driver r) = updateVG (calm cfg driver r)"
  "statusUpdateVG (grudging fail cfg driver r) = statusUpdateVG (calm cfg driver r)"
  "statusUpdateContent (grudging fail cfg driver r) = statusUpdateContent (calm cfg driver r)"
  "createVGS (grudging fail cfg driver r) = createVGS (calm cfg driver r)"
  "newUUID (grudging fail cfg driver r) = newUUID (calm cfg driver r)"
  by (simp_all add: fun_eq_iff api_defs newUUID_def fake_reconciler_def fake_client_def refusing_calls refusing_list)

lemma grudging_fields:
  "r_NewUUID (grudging fail cfg driver r) = r_NewUUID (calm cfg driver r)"
  "r_GvkEmpty (grudging fail cfg driver r) = r_GvkEmpty (calm cfg driver r)"
  "r_ObjectKinds (grudging fail cfg driver r) = r_ObjectKinds (calm cfg driver r)"
  "r_GvString (grudging fail cfg driver r) = r_GvString (calm cfg driver r)"
  "r_FmtKinds (grudging fail cfg driver r) = r_FmtKinds (calm cfg driver r)"
  "r_DriverName (grudging fail cfg driver r) = r_DriverName (calm cfg driver r)"
  "r_AddFinalizer (grudging fail cfg driver r) = r_AddFinalizer (calm cfg driver r)"
  by (simp_all add: fake_reconciler_def)

lemma grudging_data:
  "GetReference (grudging fail cfg driver r) = GetReference (calm cfg driver r)"
  "driverVerification (grudging fail cfg driver r) = driverVerification (calm cfg driver r)"
  by (simp_all only: fun_eq_iff GetReference_def referenceKind_def driverVerification_def
      grudging_fields) simp_all

lemma grudging_mapLoop: "mapLoop (grudging fail cfg driver r) = mapLoop (calm cfg driver r)"
proof (intro ext)
  show "mapLoop (grudging fail cfg driver r) k sys ids m cs = mapLoop (calm cfg driver r) k sys ids m cs"
    for k sys ids m cs
    by (induction cs arbitrary: k sys ids m) (simp_all only: mapLoop.simps grudging_calls)
qed

lemma grudging_pvcNameLoop:
  "pvcNameLoop (grudging fail cfg driver r) = pvcNameLoop (calm cfg driver r)"
proof (intro ext)
  show "pvcNameLoop (grudging fail cfg driver r) ns dup cs names =
      pvcNameLoop (calm cfg driver r) ns dup cs names" for ns dup cs names
    by (induction names arbitrary: dup cs) (simp_all only: pvcNameLoop.simps grudging_calls)
qed

lemma grudging_readyLoop: "readyLoop (grudging fail cfg driver r) = readyLoop (calm cfg driver r)"
proof (intro ext)
  show "readyLoop (grudging fail cfg driver r) ns names = readyLoop (calm cfg driver r) ns names" for ns names
    by (induction names) (simp_all only: readyLoop.simps grudging_calls)
qed

lemma grudging_pollLoop: "pollLoop (grudging fail cfg driver r) = pollLoop (calm cfg driver r)"
proof (intro ext)
  show "pollLoop (grudging fail cfg driver r) ns names ts = pollLoop (calm cfg driver r) ns names ts"
    for ns names ts
    by (induction ts) (simp_all only: pollLoop.simps checkReadyToUse_def grudging_readyLoop)
qed

lemma grudging_programs:
  "findSources (grudging fail cfg driver r) = findSources (calm cfg driver r)"
  "checkSnapshotStatus (grudging fail cfg driver r) = checkSnapshotStatus (calm cfg driver r)"
  "updateVolumeSnapshotContentStatus (grudging fail cfg driver r) =
     updateVolumeSnapshotContentStatus (calm cfg driver r)"
  "ensureFinalizer (grudging fail cfg driver r) = ensureFinalizer (calm cfg driver r)"
  "recordGroupID (grudging fail cfg driver r) = recordGroupID (calm cfg driver r)"
  "failCreate (grudging fail cfg driver r) = failCreate (calm cfg driver r)"
  by (simp_all only: fun_eq_iff findSources_def getSourceVolIDsFromPvcName_def
      getSourceVolIDsFromLabel_def getSourceVolIDsFromNs_def mapVolIDToPvcName_def
      checkSnapshotStatus_def updateVolumeSnapshotContentStatus_def ensureFinalizer_def
      recordGroupID_def failCreate_def grudging_calls grudging_fields grudging_mapLoop grudging_pvcNameLoop
      grudging_pollLoop) simp_all

lemmas grudging = grudging_calls grudging_fields grudging_data grudging_programs

lemma grudging_create:
  assumes "wf_store st"
  shows "stored_snaps st (snap_key x) = None \<Longrightarrow>
     cl_CreateSnap (r_Client (grudging fail cfg driver r)) x st =
       (case fail (KSnap x) of
          Some e \<Rightarrow> (Inl e, st)
        | None \<Rightarrow> (Inr x, AList.update (getKey (KSnap x)) (KSnap x) st))"
    "stored_contents st (vc_Name c) = None \<Longrightarrow>
     cl_CreateContent (r_Client (grudging fail cfg driver r)) c st =
       (case fail (KContent c) of
          Some e \<Rightarrow> (Inl e, st)
        | None \<Rightarrow> (Inr c, AList.update (getKey (KContent c)) (KContent c) st))"
  using absent_key [OF assms]
  by (auto simp: fake_client_def fakeCreate_def refusing_def written_def split: option.split)

section \<open>The objects of a response\<close>

text \<open>
  The snapshot and the content the controller makes for each snapshot of the driver's answer,
  given the number of UUIDs drawn before; and the condition under which it makes all of them.
\<close>

fun planned ::
  "store reconciler \<Rightarrow> vg \<Rightarrow> vsclass \<Rightarrow> volmap \<Rightarrow> nat \<Rightarrow> csisnap list \<Rightarrow> (volsnap \<times> content) list" where
  "planned r v sc vm k [] = []"
| "planned r v sc vm k (s # ss) =
     (let cn = ''snapcontent-'' @ r_NewUUID r k;
          x = makeVolSnap (vg_Namespace v) (vg_Name v) (memberName v vm s)
                (spec_Volumesnapshotclass (vg_Spec v)) cn
      in (x, makeVolSnapContent cn (projr (GetReference r (snap_obj x))) s sc)
           # planned r v sc vm (Suc k) ss)"

definition creatable :: "store reconciler \<Rightarrow> store \<Rightarrow> (volsnap \<times> content) list \<Rightarrow> bool" where
  "creatable r st plan \<longleftrightarrow>
     distinct (map (snap_key \<circ> fst) plan) \<and> distinct (map (vc_Name \<circ> snd) plan)
   \<and> (\<forall>(x, c) \<in> set plan. stored_snaps st (snap_key x) = None
        \<and> stored_contents st (vc_Name c) = None \<and> \<not> isl (GetReference r (snap_obj x)))"

definition add_member :: "volsnap \<times> content \<Rightarrow> store \<Rightarrow> store" where
  "add_member p st = AList.update (getKey (KSnap (fst p))) (KSnap (fst p))
     (AList.update (getKey (KContent (snd p))) (KContent (snd p)) st)"

definition add_snap :: "volsnap \<times> content \<Rightarrow> (nname \<Rightarrow> volsnap option) \<Rightarrow> nname \<Rightarrow> volsnap option" where
  "add_snap p m = m(snap_key (fst p) \<mapsto> fst p)"

definition add_content ::
  "volsnap \<times> content \<Rightarrow> (string \<Rightarrow> content option) \<Rightarrow> string \<Rightarrow> content option" where
  "add_content p m = m(vc_Name (snd p) \<mapsto> snd p)"

text \<open>The members a store that refuses creations still makes, whole or only their content.\<close>

definition content_made :: "(kobj \<Rightarrow> error option) \<Rightarrow> volsnap \<times> content \<Rightarrow> bool" where
  "content_made fail p \<longleftrightarrow> fail (KContent (snd p)) = None"

definition member_made :: "(kobj \<Rightarrow> error option) \<Rightarrow> volsnap \<times> content \<Rightarrow> bool" where
  "member_made fail p \<longleftrightarrow> content_made fail p \<and> fail (KSnap (fst p)) = None"

definition add_made :: "(kobj \<Rightarrow> error option) \<Rightarrow> volsnap \<times> content \<Rightarrow> store \<Rightarrow> store" where
  "add_made fail p st =
     (if member_made fail p then add_member p st
      else if content_made fail p
      then AList.update (getKey (KContent (snd p))) (KContent (snd p)) st
      else st)"

lemma all_made [simp]:
  "content_made (\<lambda>_. None) = (\<lambda>_. True)" "member_made (\<lambda>_. None) = (\<lambda>_. True)"
  "add_made (\<lambda>_. None) = add_member"
  by (simp_all add: fun_eq_iff content_made_def member_made_def add_made_def)

lemma add_member_views [simp]:
  "stored_groups (add_member p st) = stored_groups st"
  "stored_classes (add_member p st) = stored_classes st"
  "stored_snaps (add_member p st) = add_snap p (stored_snaps st)"
  "stored_contents (add_member p st) = add_content p (stored_contents st)"
  by (simp_all add: add_member_def add_snap_def add_content_def)

lemma add_made_views [simp]:
  "stored_groups (add_made fail p st) = stored_groups st"
  "stored_classes (add_made fail p st) = stored_classes st"
  "stored_snaps (add_made fail p st) =
     (if member_made fail p then add_snap p (stored_snaps st) else stored_snaps st)"
  "stored_contents (add_made fail p st) =
     (if content_made fail p then add_content p (stored_contents st) else stored_contents st)"
  by (simp_all add: add_made_def member_made_def) (simp_all add: add_content_def)

lemma fold_add_made [simp]:
  "stored_groups (fold (add_made fail) plan st) = stored_groups st"
  "stored_classes (fold (add_made fail) plan st) = stored_classes st"
  "stored_snaps (fold (add_made fail) plan st) =
     fold add_snap (filter (member_made fail) plan) (stored_snaps st)"
  "stored_contents (fold (add_made fail) plan st) =
     fold add_content (filter (content_made fail) plan) (stored_contents st)"
  by (induction plan arbitrary: st) simp_all

lemma wf_add_made: "wf_store st \<Longrightarrow> wf_store (add_made fail p st)"
  by (simp add: add_made_def add_member_def wf_store_update)

lemma wf_fold_add_made: "wf_store st \<Longrightarrow> wf_store (fold (add_made fail) plan st)"
  by (induction plan arbitrary: st) (simp_all add: wf_add_made)

lemma creatable_Cons:
  assumes "creatable r st (p # plan)"
  shows "creatable r (add_made fail p st) plan"
proof -
  have other: "snap_key (fst p) \<notin> (\<lambda>q. snap_key (fst q)) ` set plan"
    "vc_Name (snd p) \<notin> (\<lambda>q. vc_Name (snd q)) ` set plan"
    using assms by (simp_all add: creatable_def)
  have "snap_key x \<noteq> snap_key (fst p) \<and> vc_Name c \<noteq> vc_Name (snd p)" if "(x, c) \<in> set plan" for x c
    using other image_eqI [OF _ that, of _ "\<lambda>q. snap_key (fst q)"]
      image_eqI [OF _ that, of _ "\<lambda>q. vc_Name (snd q)"] by fastforce
  with assms show ?thesis
    by (fastforce simp: creatable_def add_snap_def add_content_def)
qed

text \<open>One member: content and snapshot are created and the content is read back.\<close>

lemma grudging_createContentAndSnap:
  assumes "wf_store (cluster w)" and "stored_snaps (cluster w) (snap_key x) = None"
    and "stored_contents (cluster w) cn = None" and "p = (x, makeVolSnapContent cn ref s sc)"
  shows "\<exists>res w'. run_state (createContentAndSnap (grudging fail cfg driver r) n cn v s sc x ref) w =
       (Ret res, w')
     \<and> (if member_made fail p then res = (False, cn, None) else \<exists>e. res = (False, [], Some e))
     \<and> cluster w' = add_made fail p (cluster w) \<and> uuidCount w' = uuidCount w \<and> sched w' = sched w"
proof -
  let ?r = "grudging fail cfg driver r"
  let ?c = "makeVolSnapContent cn ref s sc"
  let ?st = "AList.update (getKey (KContent ?c)) (KContent ?c) (cluster w)"
  have name: "vc_Name ?c = cn" by (simp add: makeVolSnapContent_def)
  have content: "cl_CreateContent (r_Client ?r) ?c (cluster w) =
      (case fail (KContent ?c) of Some e \<Rightarrow> (Inl e, cluster w) | None \<Rightarrow> (Inr ?c, ?st))"
    by (rule grudging_create(2) [OF assms(1)]) (simp add: name assms(3))
  have snap: "cl_CreateSnap (r_Client ?r) x ?st =
      (case fail (KSnap x) of
         Some e \<Rightarrow> (Inl e, ?st) | None \<Rightarrow> (Inr x, add_member p (cluster w)))"
    unfolding add_member_def assms(4) fst_conv snd_conv
    by (rule grudging_create(1)) (simp_all add: assms(1,2) wf_store_update)
  show ?thesis
  proof (cases "fail (KContent ?c)")
    case (Some e)
    with content show ?thesis
      by (simp add: createContentAndSnap_def createContent_def run_call assms(4) member_made_def
          content_made_def add_made_def del: fake_simps)
  next
    case None
    note made = None
    show ?thesis
    proof (cases "fail (KSnap x)")
      case (Some e)
      with made content snap show ?thesis
        by (simp add: createContentAndSnap_def createContent_def createSnap_def run_call assms(4)
            member_made_def content_made_def add_made_def del: fake_simps)
    next
      case None
      with made content snap show ?thesis
        by (simp add: createContentAndSnap_def createContent_def createSnap_def run_call assms(4)
            member_made_def content_made_def add_made_def del: fake_simps)
    qed
  qed
qed

lemma grudging_createVolumeSnapshot:
  fixes v :: vg and n cn :: string
  assumes "wf_store (cluster w)"
    and x_def: "x = makeVolSnap (vg_Namespace v) (vg_Name v) n (spec_Volumesnapshotclass (vg_Spec v)) cn"
    and "GetReference (calm cfg driver r) (snap_obj x) = Inr ref"
    and "stored_snaps (cluster w) (snap_key x) = None" and "stored_contents (cluster w) cn = None"
    and "p = (x, makeVolSnapContent cn ref s sc)"
  shows "\<exists>res w'. run_state (createVolumeSnapshot (grudging fail cfg driver r) n cn v s sc) w =
       (Ret res, w')
     \<and> (if member_made fail p then res = (False, cn, None) else \<exists>e. res = (False, [], Some e))
     \<and> cluster w' = add_made fail p (cluster w) \<and> uuidCount w' = uuidCount w \<and> sched w' = sched w"
proof -
  have key: "snap_key x = NN (vg_Namespace v) n"
    by (simp add: x_def makeVolSnap_def snap_key_def)
  obtain e where get: "cl_GetSnap (r_Client (calm cfg driver r)) (NN (vg_Namespace v) n) (cluster w)
      = (Inl e, cluster w)"
    using calm_missing(2) [OF assms(4) [unfolded key]] by blast
  let ?w = "w\<lparr>trace := trace w @ [GetSnap (NN (vg_Namespace v) n)]\<rparr>"
  have "run_state (createVolumeSnapshot (grudging fail cfg driver r) n cn v s sc) w =
      run_state (createContentAndSnap (grudging fail cfg driver r) n cn v s sc x ref) ?w"
    unfolding createVolumeSnapshot_def grudging
    using get assms(3)
    by (simp add: getSnap_def run_call Let_def empty_snap_def x_def del: fake_simps)
  with grudging_createContentAndSnap [of ?w x cn p ref s sc fail cfg driver r n v] assms(1,4,5,6)
  show ?thesis by simp
qed

lemma grudging_refresh:
  "\<exists>e w'. run_state (updateVolumeSnapshotContentStatus (grudging fail cfg driver r) cn False s g) w = (e, w')
     \<and> (stored_contents (cluster w) cn \<noteq> None \<longrightarrow> e = None)
     \<and> cluster w' = cluster w \<and> uuidCount w' = uuidCount w \<and> sched w' = sched w"
proof -
  let ?r = "calm cfg driver r"
  let ?got = "fst (cl_GetContent (r_Client ?r) (NN [] cn) (cluster w))"
  have get: "cl_GetContent (r_Client ?r) (NN [] cn) (cluster w) = (?got, cluster w)"
    by (simp add: fake_client_def)
  have found: "\<not> isl ?got" if "stored_contents (cluster w) cn \<noteq> None"
    using that calm_get_content [of "cluster w" cn _ cfg driver r] by (auto simp del: fake_simps)
  show ?thesis
  proof (cases ?got)
    case (Inl e)
    with found have "stored_contents (cluster w) cn = None" by (cases "stored_contents (cluster w) cn") auto
    with get Inl show ?thesis
      unfolding grudging
      by (simp add: updateVolumeSnapshotContentStatus_def getContent_def run_call Let_def del: fake_simps)
  next
    case (Inr c)
    with get show ?thesis
      unfolding grudging
      by (simp add: updateVolumeSnapshotContentStatus_def getContent_def run_call Let_def del: fake_simps)
  qed
qed

text \<open>All members of the answer.\<close>

lemma grudging_processSnapshots:
  assumes "wf_store (cluster w)"
    and "creatable (calm cfg driver r) (cluster w) (planned (calm cfg driver r) v sc vm (uuidCount w) ss)"
  shows "\<exists>es w'. run_state (processSnapshots (grudging fail cfg driver r) vm v sc snaps errs ss) w =
       (Ret (snaps @ concat (map (\<lambda>s. memberName v vm s @ '','') ss), errs @ es), w')
     \<and> (es = [] \<longleftrightarrow> list_all (member_made fail) (planned (calm cfg driver r) v sc vm (uuidCount w) ss))
     \<and> cluster w' = fold (add_made fail) (planned (calm cfg driver r) v sc vm (uuidCount w) ss) (cluster w)
     \<and> sched w' = sched w"
  using assms
proof (induction ss arbitrary: snaps errs w)
  case Nil
  then show ?case by simp
next
  case (Cons s ss)
  let ?g = "grudging fail cfg driver r"
  let ?r = "calm cfg driver r"
  let ?n = "memberName v vm s"
  let ?cn = "''snapcontent-'' @ r_NewUUID ?r (uuidCount w)"
  let ?x = "makeVolSnap (vg_Namespace v) (vg_Name v) ?n (spec_Volumesnapshotclass (vg_Spec v)) ?cn"
  define ref where "ref = projr (GetReference ?r (snap_obj ?x))"
  let ?p = "(?x, makeVolSnapContent ?cn ref s sc)"
  let ?w = "w\<lparr>uuidCount := Suc (uuidCount w)\<rparr>"
  have plan: "planned ?r v sc vm (uuidCount w) (s # ss) =
      ?p # planned ?r v sc vm (Suc (uuidCount w)) ss"
    by (simp add: Let_def ref_def del: fake_simps)
  have name: "vc_Name (snd ?p) = ?cn" by (simp add: makeVolSnapContent_def)
  have uid: "run_state (newUUID ?g) w = (r_NewUUID ?r (uuidCount w), ?w)"
    unfolding grudging by (simp add: newUUID_def del: fake_simps)
  have "GetReference ?r (snap_obj ?x) = Inr ref" "stored_snaps (cluster ?w) (snap_key ?x) = None"
    "stored_contents (cluster ?w) ?cn = None"
    using Cons.prems(2) name unfolding plan
    by (auto simp: creatable_def ref_def simp del: fake_simps split: sum.splits)
  from grudging_createVolumeSnapshot [OF _ refl this refl, where s = s and sc = sc and fail = fail] Cons.prems(1)
  obtain res w1
    where 1: "run_state (createVolumeSnapshot ?g ?n ?cn v s sc) ?w = (Ret res, w1)"
      and res: "if member_made fail ?p then res = (False, ?cn, None) else \<exists>e. res = (False, [], Some e)"
      and w1: "cluster w1 = add_made fail ?p (cluster w)" "uuidCount w1 = Suc (uuidCount w)"
        "sched w1 = sched w"
    by (auto simp del: fake_simps)
  from res obtain cn' ce where res': "res = (False, cn', ce)"
      "ce = None \<longleftrightarrow> member_made fail ?p" "member_made fail ?p \<Longrightarrow> cn' = ?cn"
    by (metis option.distinct(1))
  have found: "member_made fail ?p \<Longrightarrow> stored_contents (cluster w1) cn' \<noteq> None"
    using name res'(3) by (simp add: w1 add_content_def member_made_def)
  define w1' where "w1' = (case ce of None \<Rightarrow> w1 | Some e \<Rightarrow>
      w1\<lparr>trace := trace w1 @ [Event (OnVG (vg_key v)) EventTypeWarning EventReasonUpdated
        (''create snapshor error  '' @ errText e)]\<rparr>)"
  have w1': "cluster w1' = cluster w1" "uuidCount w1' = uuidCount w1" "sched w1' = sched w1"
    by (simp_all add: w1'_def split: option.split)
  from grudging_refresh [of fail cfg driver r cn' s "vg_Name v" w1'] obtain ue w2
    where 2: "run_state (updateVolumeSnapshotContentStatus ?g cn' False s (vg_Name v)) w1' = (ue, w2)"
      and ue: "member_made fail ?p \<Longrightarrow> ue = None"
      and w2: "cluster w2 = cluster w1" "uuidCount w2 = uuidCount w1" "sched w2 = sched w1"
    using found w1' by auto
  define w3 where "w3 = (case ue of None \<Rightarrow> w2 | Some e \<Rightarrow>
      w2\<lparr>trace := trace w2 @ [Event (OnVG (vg_key v)) EventTypeWarning EventReasonUpdated
        (''snapshot content status failed '' @ errText e)]\<rparr>)"
  have w3: "cluster w3 = cluster w1" "uuidCount w3 = uuidCount w1" "sched w3 = sched w1"
    by (simp_all add: w3_def w2 split: option.split)
  define es1 where "es1 = (case ce of Some e \<Rightarrow> [e] | None \<Rightarrow> []) @ (case ue of Some e \<Rightarrow> [e] | None \<Rightarrow> [])"
  have es1: "es1 = [] \<longleftrightarrow> member_made fail ?p"
    using res'(2) ue by (auto simp: es1_def split: option.splits)
  have step: "run_state (processSnapshots ?g vm v sc snaps errs (s # ss)) w =
      run_state (processSnapshots ?g vm v sc (snaps @ ?n @ '','') (errs @ es1) ss) w3"
    using uid 1 2 unfolding res'(1) w1'_def w3_def es1_def
    by (cases ce; cases ue) (simp_all add: Let_def run_andThen del: fake_simps)
  have "wf_store (cluster w3)" using Cons.prems(1) by (simp add: w1 w3 wf_add_made)
  moreover have "creatable ?r (cluster w3) (planned ?r v sc vm (uuidCount w3) ss)"
    using creatable_Cons [OF Cons.prems(2) [unfolded plan]] by (simp add: w1 w3 del: fake_simps)
  ultimately obtain es w' where
    "run_state (processSnapshots ?g vm v sc (snaps @ ?n @ '','') (errs @ es1) ss) w3 =
       (Ret ((snaps @ ?n @ '','') @ concat (map (\<lambda>s. memberName v vm s @ '','') ss), (errs @ es1) @ es), w')"
    "es = [] \<longleftrightarrow> list_all (member_made fail) (planned ?r v sc vm (uuidCount w3) ss)"
    "cluster w' = fold (add_made fail) (planned ?r v sc vm (uuidCount w3) ss) (cluster w3)"
    "sched w' = sched w3"
    using Cons.IH [of w3 "snaps @ ?n @ '',''" "errs @ es1"] by blast
  then show ?case
    unfolding step plan using w1 w3 es1
    by (intro exI [of _ "es1 @ es"] exI [of _ w'])
      (auto simp del: fake_simps processSnapshots.simps planned.simps)
qed

section \<open>The wait of a creation\<close>

text \<open>The names written to the status read back with an empty one at the end.\<close>

lemma split_listed_names:
  assumes "\<And>n. n \<in> set ns \<Longrightarrow> CHR '','' \<notin> set n"
  shows "split_on (CHR '','') (concat (map (\<lambda>n. n @ '','') ns)) = ns @ [[]]"
proof -
  have cons: "CHR '','' \<notin> set n \<Longrightarrow> split_on (CHR '','') (n @ CHR '','' # m) = n # split_on (CHR '','') m"
    for n m
    by (induction n) (auto split: list.splits)
  show ?thesis using assms by (induction ns) (simp_all add: cons)
qed

text \<open>Snapshots that are missing or have no status yet do not hold up the wait.\<close>

lemma calm_wait:
  assumes "wf_store (cluster w)" and "sched w = Tick # ts"
    and "\<And>n x. n \<in> set (split_on (CHR '','') names) \<Longrightarrow>
      stored_snaps (cluster w) (NN ns n) = Some x \<Longrightarrow> vs_Name x = [] \<or> vs_Status x = None"
  shows "\<exists>w'. run_state (checkSnapshotStatus (calm cfg driver r) ns names t) w = (Ret (True, None), w')
     \<and> cluster w' = cluster w"
proof -
  let ?r = "calm cfg driver r"
  let ?tab = "\<lambda>k. fst (cl_GetSnap (r_Client ?r) k (cluster w))"
  let ?w = "w\<lparr>trace := trace w @ [StartTimer (timeout_ns t)], sched := ts\<rparr>"
  have tab: "reads_snaps ?r (cluster ?w) ?tab"
    by (simp add: reads_snaps_def fake_client_def)
  have "reported ?tab (NN ns n) = None" if n: "n \<in> set (split_on (CHR '','') names)" for n
  proof (cases "?tab (NN ns n)")
    case (Inl e)
    then show ?thesis by (simp add: reported_def)
  next
    case (Inr x)
    then have "stored_snaps (cluster w) (NN ns n) = Some x"
      using fake.get_snap [OF assms(1)] by blast
    from assms(3) [OF n this] Inr show ?thesis by (auto simp: reported_def)
  qed
  then have "fst (run_state (readyLoop ?r ns (split_on (CHR '','') names)) ?w) = Ret (True, None)"
    using run_readyLoop [OF tab] by simp
  then obtain w' where 1: "run_state (checkReadyToUse ?r ns names) ?w = (Ret (True, None), w')"
    by (metis checkReadyToUse_def prod.collapse)
  obtain as where "cluster w' = replay ?r as (cluster ?w)" "\<forall>e \<in> set as. is_read e"
    using emitsD [OF emits_checkReadyToUse [of is_read ns ?r names] 1] by auto
  moreover have "\<forall>e \<in> set as. is_read e \<Longrightarrow> wf_store st \<Longrightarrow> replay ?r as st = st" for st
    by (induction as arbitrary: st) (simp_all add: fake.reads del: apply_effect.simps)
  ultimately have "cluster w' = cluster w" using assms(1) by simp
  with 1 assms(2) show ?thesis
    by (simp add: run_checkSnapshotStatus run_andThen del: fake_simps)
qed

section \<open>Source volumes and the driver\<close>

text \<open>The search for volumes draws no UUID and leaves the timer alone.\<close>

definition clock :: "'s world \<Rightarrow> nat \<times> tick list" where
  "clock w = (uuidCount w, sched w)"

lemma clock_call: "keeps (\<lambda>w. clock w = t) (call e f)"
  by (simp add: keeps_def triple_def run_call clock_def)

lemma clock_mapLoop: "keeps (\<lambda>w. clock w = t) (mapLoop r k sys ids m cs)"
  by (induction cs arbitrary: k sys ids m)
    (auto simp: getPV_def Let_def intro!: keeps_bind keeps_ret keeps_panic clock_call
      split: sum.split option.split)

lemma clock_mapVolIDToPvcName: "keeps (\<lambda>w. clock w = t) (mapVolIDToPvcName r cs)"
  unfolding mapVolIDToPvcName_def
  by (rule keeps_andThen [OF clock_mapLoop]) (auto intro: keeps_ret split: sum.split)

lemma clock_pvcNameLoop: "keeps (\<lambda>w. clock w = t) (pvcNameLoop r ns dup cs names)"
  by (induction names arbitrary: dup cs)
    (auto simp: getPVC_def intro!: keeps_bind keeps_return clock_call split: sum.split)

lemma clock_findSources: "keeps (\<lambda>w. clock w = t) (findSources r v)"
  by (auto simp: findSources_def getSourceVolIDsFromPvcName_def getSourceVolIDsFromLabel_def
      getSourceVolIDsFromNs_def listPVC_def intro!: keeps_bind keeps_ret clock_call clock_pvcNameLoop
      clock_mapVolIDToPvcName split: option.split sum.split)

text \<open>The claims a group asks for in a store, and the volumes found for them.\<close>

definition chosen_claims :: "fakecfg \<Rightarrow> store \<Rightarrow> vg \<Rightarrow> error + pvc list" where
  "chosen_claims cfg st v = wanted_claims (claim_table cfg st) (claim_lists cfg st) v"

definition chosen_volumes :: "fakecfg \<Rightarrow> store \<Rightarrow> vg \<Rightarrow> sources outcome" where
  "chosen_volumes cfg st v =
     (case chosen_claims cfg st v of
        Inl e \<Rightarrow> Ret (Inl e)
      | Inr cs \<Rightarrow> select_sources (volume_table cfg st) cs)"

lemma calm_findSources:
  "\<exists>w'. run_state (findSources (calm cfg driver r) v) w = (chosen_volumes cfg (cluster w) v, w')
     \<and> cluster w' = cluster w \<and> clock w' = clock w"
proof -
  let ?r = "calm cfg driver r"
  have "reads_volumes ?r (cluster w) (volume_table cfg (cluster w))"
    by (simp add: reads_volumes_def calm_tables del: fake_simps)
  then obtain w' where w': "cluster w' = cluster w"
      "run_state (findSources ?r v) w = (chosen_volumes cfg (cluster w) v, w')"
    using find_sources_runs [of ?r w "volume_table cfg (cluster w)" "claim_table cfg (cluster w)"
        "claim_lists cfg (cluster w)" v]
    by (auto simp: calm_tables chosen_claims_def chosen_volumes_def simp del: fake_simps)
  moreover have "clock w' = clock w"
    by (rule keeps_run [OF clock_findSources refl w'(2)])
  ultimately show ?thesis by blast
qed

section \<open>The objects in the store\<close>

text \<open>Where the members of a plan are found.\<close>

lemma fold_add_other:
  "k \<notin> snap_key ` fst ` set plan \<Longrightarrow> fold add_snap plan m k = m k"
  "c \<notin> vc_Name ` snd ` set plan \<Longrightarrow> fold add_content plan m' c = m' c"
  by (induction plan arbitrary: m m') (auto simp: add_snap_def add_content_def)

lemma fold_add_snap:
  "distinct (map (snap_key \<circ> fst) plan) \<Longrightarrow> p \<in> set plan \<Longrightarrow>
     fold add_snap plan m (snap_key (fst p)) = Some (fst p)"
proof (induction plan arbitrary: m)
  case (Cons q plan)
  show ?case
  proof (cases "p \<in> set plan")
    case True
    with Cons show ?thesis by simp
  next
    case False
    with Cons.prems have "p = q" and "snap_key (fst p) \<notin> snap_key ` fst ` set plan"
      by (auto simp: image_comp comp_def)
    then show ?thesis by (simp add: fold_add_other) (simp add: add_snap_def)
  qed
qed simp

lemma fold_add_content:
  "distinct (map (vc_Name \<circ> snd) plan) \<Longrightarrow> p \<in> set plan \<Longrightarrow>
     fold add_content plan m (vc_Name (snd p)) = Some (snd p)"
proof (induction plan arbitrary: m)
  case (Cons q plan)
  show ?case
  proof (cases "p \<in> set plan")
    case True
    with Cons show ?thesis by simp
  next
    case False
    with Cons.prems have "p = q" and "vc_Name (snd p) \<notin> vc_Name ` snd ` set plan"
      by (auto simp: image_comp comp_def)
    then show ?thesis by (simp add: fold_add_other) (simp add: add_content_def)
  qed
qed simp

text \<open>Of the members of a plan, the snapshots a store that refuses creations shows.\<close>

lemma made_snap:
  assumes "creatable r st plan" and "p \<in> set plan"
  shows "fold add_snap (filter (member_made fail) plan) (stored_snaps st) (snap_key (fst p)) =
    (if member_made fail p then Some (fst p) else None)"
proof (cases "member_made fail p")
  case True
  have "distinct (map (snap_key \<circ> fst) (filter (member_made fail) plan))"
    using assms(1) by (simp add: creatable_def distinct_map_filter)
  from fold_add_snap [OF this, of p] True assms(2) show ?thesis by simp
next
  case False
  have "inj_on (snap_key \<circ> fst) (set plan)"
    using assms(1) by (simp add: creatable_def distinct_map)
  with False assms(2) have "snap_key (fst p) \<notin> snap_key ` fst ` set (filter (member_made fail) plan)"
    by (auto simp: inj_on_def)
  from fold_add_other(1) [OF this, of "stored_snaps st"] False assms show ?thesis
    by (auto simp: creatable_def)
qed

text \<open>What a plan consists of.\<close>

lemma planned_keys:
  "map (snap_key \<circ> fst) (planned r v sc vm k ss) =
     map (\<lambda>s. NN (vg_Namespace v) (memberName v vm s)) ss"
  by (induction ss arbitrary: k) (simp_all add: Let_def makeVolSnap_def snap_key_def)

lemma planned_objects:
  "p \<in> set (planned r v sc vm k ss) \<Longrightarrow>
     vs_Status (fst p) = None \<and> vs_SourceContentName (fst p) = Some (vc_Name (snd p))
     \<and> vc_DeletionPolicy (snd p) = sc_DeletionPolicy sc"
  by (induction ss arbitrary: k) (auto simp: Let_def makeVolSnap_def makeVolSnapContent_def)

lemma planned_same:
  assumes "vg_key v = vg_key v'" and "vg_Spec v = vg_Spec v'"
  shows "planned r v sc vm k ss = planned r v' sc vm k ss"
  using assms memberName_key [OF assms(1)]
  by (induction ss arbitrary: k) (simp_all add: Let_def vg_key_def)

lemma creatable_same:
  "stored_snaps st = stored_snaps st' \<Longrightarrow> stored_contents st = stored_contents st' \<Longrightarrow>
     creatable r st plan = creatable r st' plan"
  by (simp add: creatable_def)

section \<open>Creations that go through\<close>

definition member_string :: "vg \<Rightarrow> volmap \<Rightarrow> vgsresponse \<Rightarrow> string" where
  "member_string v vm res = concat (map (\<lambda>s. memberName v vm s @ '','') (res_Snapshots res))"

text \<open>Names of members without the separator of the list.\<close>

definition comma_free :: "vg \<Rightarrow> volmap \<Rightarrow> vgsresponse \<Rightarrow> bool" where
  "comma_free v vm res \<longleftrightarrow> (\<forall>s \<in> set (res_Snapshots res). CHR '','' \<notin> set (memberName v vm s))"

text \<open>Every call for the group goes through while it is stored, and the views then show it.\<close>

lemma calm_updateVG:
  "stored_groups (cluster w) (vg_key v) = Some u \<Longrightarrow>
     run_state (updateVG (calm cfg driver r) v) w = ((v, None),
       w\<lparr>cluster := AList.update (getKey (KVG v)) (KVG v) (cluster w), trace := trace w @ [UpdateVG v]\<rparr>)"
  by (simp add: updateVG_def run_call calm_update del: fake_simps)

lemma calm_statusUpdateVG:
  "stored_groups (cluster w) (vg_key v) = Some u \<Longrightarrow>
     run_state (statusUpdateVG (calm cfg driver r) v) w = ((v, None),
       w\<lparr>cluster := AList.update (getKey (KVG v)) (KVG v) (cluster w),
         trace := trace w @ [StatusUpdateVG v]\<rparr>)"
  by (simp add: statusUpdateVG_def run_call calm_writes(1) del: fake_simps)

lemma grudging_processResponse:
  assumes "wf_store (cluster w)" and "sched w = Tick # ts" and "comma_free v vm res"
    and "stored_groups (cluster w) (vg_key v) = Some u"
    and "creatable (calm cfg driver r) (cluster w) plan"
    and plan_def: "plan = planned (calm cfg driver r) v sc vm (uuidCount w) (res_Snapshots res)"
    and v'_def: "v' = v\<lparr>vg_Status := responseStatus res (member_string v vm res) True\<rparr>"
  shows "\<exists>e w'. run_state (processResponse (grudging fail cfg driver r) res vm v sc g) w =
       (Ret (v', e), w')
     \<and> (e = None \<longleftrightarrow> list_all (member_made fail) plan)
     \<and> cluster w' = AList.update (getKey (KVG v')) (KVG v') (fold (add_made fail) plan (cluster w))"
proof -
  let ?g = "grudging fail cfg driver r"
  let ?r = "calm cfg driver r"
  let ?names = "member_string v vm res"
  let ?w = "w\<lparr>failedMap := Map.empty, trace := trace w @ [StartSnapWatch]\<rparr>"
  from grudging_processSnapshots [of ?w cfg driver r v sc vm "res_Snapshots res" fail "[]" "[]"]
    assms(1,2,5)
  obtain es w1 where 1: "run_state (processSnapshots ?g vm v sc [] [] (res_Snapshots res)) ?w =
        (Ret (?names, es), w1)"
      and es: "es = [] \<longleftrightarrow> list_all (member_made fail) plan"
      and w1: "cluster w1 = fold (add_made fail) plan (cluster w)" "sched w1 = Tick # ts"
    by (auto simp: plan_def member_string_def simp del: fake_simps)
  have wf1: "wf_store (cluster w1)" using assms(1) w1 by (simp add: wf_fold_add_made)
  have pieces: "split_on (CHR '','') ?names = map (memberName v vm) (res_Snapshots res) @ [[]]"
  proof -
    have "CHR '','' \<notin> set n" if "n \<in> set (map (memberName v vm) (res_Snapshots res))" for n
      using that assms(3) by (auto simp: comma_free_def)
    from split_listed_names [of "map (memberName v vm) (res_Snapshots res)", OF this]
    show ?thesis by (simp add: member_string_def o_def)
  qed
  have unready: "vs_Name x = [] \<or> vs_Status x = None"
    if "n \<in> set (split_on (CHR '','') ?names)"
      and x: "stored_snaps (cluster w1) (NN (vg_Namespace v) n) = Some x" for n x
  proof (cases "n = []")
    case True
    with wf_snaps [OF wf1 x] show ?thesis by (simp add: snap_key_def)
  next
    case False
    with that(1) pieces have "NN (vg_Namespace v) n \<in> set (map (snap_key \<circ> fst) plan)"
      unfolding plan_def planned_keys by auto
    then obtain p where p: "p \<in> set plan" "snap_key (fst p) = NN (vg_Namespace v) n" by auto
    have "x = fst p"
      using made_snap [OF assms(5) p(1), of fail] p(2) x w1(1) by (simp split: if_splits)
    with planned_objects [of p] p(1) show ?thesis by (simp add: plan_def)
  qed
  obtain w2 where 2: "run_state (checkSnapshotStatus ?g (vg_Namespace v) ?names (spec_Timeout (vg_Spec v))) w1 =
        (Ret (True, None), w2)" and w2: "cluster w2 = cluster w1"
    using calm_wait [OF wf1 w1(2), of ?names "vg_Namespace v"] unready unfolding grudging by blast
  have "stored_groups (cluster w2) (vg_key v') = Some u"
    using assms(4) by (simp add: v'_def w2 w1 vg_key_def)
  then have 3: "run_state (statusUpdateVG ?g v') w3 = ((v', None),
       w3\<lparr>cluster := AList.update (getKey (KVG v')) (KVG v') (cluster w3),
         trace := trace w3 @ [StatusUpdateVG v']\<rparr>)" if "cluster w3 = cluster w2" for w3
    unfolding grudging using that by (intro calm_statusUpdateVG) simp
  show ?thesis
    using 1 2 3 w1 w2 es
    by (simp add: processResponse_def run_andThen emit_def run_call v'_def [symmetric]
        del: fake_simps)
qed

text \<open>The group a creation leaves.\<close>

definition created :: "vg \<Rightarrow> volmap \<Rightarrow> vgsresponse \<Rightarrow> vg" where
  "created v vm res = v\<lparr>
     vg_Finalizers := (if FinalizerName \<in> set (vg_Finalizers v) then vg_Finalizers v
                       else vg_Finalizers v @ [FinalizerName]),
     vg_Status := responseStatus res (member_string v vm res) True\<rparr>"

text \<open>Nothing but one group was written, no UUID drawn and no time passed.\<close>

definition writes_group :: "nname \<Rightarrow> store world \<Rightarrow> store world \<Rightarrow> bool" where
  "writes_group k w w' \<longleftrightarrow> wf_store (cluster w') \<and> clock w' = clock w
     \<and> stored_snaps (cluster w') = stored_snaps (cluster w)
     \<and> stored_contents (cluster w') = stored_contents (cluster w)
     \<and> stored_classes (cluster w') = stored_classes (cluster w)
     \<and> (\<exists>u. stored_groups (cluster w') = (stored_groups (cluster w))(k \<mapsto> u))"

lemma writes_group_same:
  "wf_store (cluster w) \<Longrightarrow> stored_groups (cluster w) k = Some u \<Longrightarrow> cluster w' = cluster w \<Longrightarrow>
     clock w' = clock w \<Longrightarrow> writes_group k w w'"
  by (auto simp: writes_group_def fun_upd_idem intro!: exI [of _ u])

lemma writes_group_update:
  "wf_store (cluster w) \<Longrightarrow> cluster w' = AList.update (getKey (KVG v)) (KVG v) (cluster w) \<Longrightarrow>
     clock w' = clock w \<Longrightarrow> writes_group (vg_key v) w w'"
  by (auto simp: writes_group_def wf_store_update)

lemma writes_group_trans:
  "writes_group k w w1 \<Longrightarrow> writes_group k w1 w2 \<Longrightarrow> writes_group k w w2"
  by (auto simp: writes_group_def)

lemma writes_group_stored: "writes_group k w w' \<Longrightarrow> \<exists>u. stored_groups (cluster w') k = Some u"
  by (auto simp: writes_group_def)

lemma clock_simps [simp]:
  "clock (w\<lparr>trace := x\<rparr>) = clock w" "clock (w\<lparr>cluster := s\<rparr>) = clock w"
  by (simp_all add: clock_def)

lemma calm_ensureFinalizer:
  assumes "wf_store (cluster w)" and "stored_groups (cluster w) (vg_key v) = Some u"
    and "v1 = v\<lparr>vg_Finalizers := (if FinalizerName \<in> set (vg_Finalizers v) then vg_Finalizers v
                       else vg_Finalizers v @ [FinalizerName])\<rparr>"
  shows "\<exists>w'. run_state (ensureFinalizer (calm cfg driver r) v) w = ((v1, None), w')
     \<and> writes_group (vg_key v) w w'"
proof (cases "FinalizerName \<in> set (vg_Finalizers v)")
  case True
  then have "v1 = v" using assms(3) by simp
  with True writes_group_same [OF assms(1,2) refl refl] show ?thesis
    by (auto simp: ensureFinalizer_def)
next
  case False
  then have v1: "v1 = v\<lparr>vg_Finalizers := vg_Finalizers v @ [FinalizerName]\<rparr>" using assms(3) by simp
  have key: "vg_key v1 = vg_key v" by (simp add: v1 vg_key_def)
  with assms(2) have "stored_groups (cluster w) (vg_key v1) = Some u" by simp
  from calm_updateVG [OF this, of cfg driver r] False show ?thesis
    using writes_group_update [OF assms(1) _, of _ v1] key
    by (simp add: ensureFinalizer_def v1 [symmetric])
qed

lemma calm_recordGroupID:
  assumes "wf_store (cluster w)" and "stored_groups (cluster w) (vg_key v) = Some u"
  shows "\<exists>v' w'. run_state (recordGroupID (calm cfg driver r) v res) w = ((v', None), w')
     \<and> vg_key v' = vg_key v \<and> vg_Spec v' = vg_Spec v \<and> (\<forall>x. v'\<lparr>vg_Status := x\<rparr> = v\<lparr>vg_Status := x\<rparr>)
     \<and> writes_group (vg_key v) w w'"
proof (cases "status_SnapshotGroupID (vg_Status v) = [] \<and> res_SnapshotGroupID res \<noteq> []")
  case True
  let ?v = "set_group_id (res_SnapshotGroupID res) v"
  have key: "vg_key ?v = vg_key v" by simp
  with assms(2) have "stored_groups (cluster w) (vg_key ?v) = Some u" by simp
  from calm_updateVG [OF this, of cfg driver r] True show ?thesis
    using writes_group_update [OF assms(1) _, of _ ?v] key
    by (auto simp: recordGroupID_def set_group_id_def simp del: fake_simps)
next
  case False
  with writes_group_same [OF assms refl refl] show ?thesis
    by (auto simp: recordGroupID_def)
qed

lemma grudging_finishCreate:
  assumes wf: "wf_store (cluster w)" and u: "stored_groups (cluster w) (vg_key v) = Some u"
    and sched: "sched w = Tick # ts" and free: "comma_free v vm res"
    and ok: "creatable (calm cfg driver r) (cluster w) plan"
    and plan: "plan = planned (calm cfg driver r) v sc vm (uuidCount w) (res_Snapshots res)"
  shows "\<exists>e w'. run_state (finishCreate (grudging fail cfg driver r) req v sc vm res) w = (Ret e, w')
     \<and> (e = None \<longleftrightarrow> list_all (member_made fail) plan)
     \<and> wf_store (cluster w')
     \<and> stored_groups (cluster w') = (stored_groups (cluster w))(vg_key v \<mapsto> created v vm res)
     \<and> stored_snaps (cluster w') = fold add_snap (filter (member_made fail) plan) (stored_snaps (cluster w))
     \<and> stored_contents (cluster w') = fold add_content (filter (content_made fail) plan) (stored_contents (cluster w))
     \<and> stored_classes (cluster w') = stored_classes (cluster w)"
proof -
  let ?g = "grudging fail cfg driver r"
  let ?r = "calm cfg driver r"
  define w0 where "w0 = w\<lparr>trace := trace w @ [Event (OnVG (vg_key v)) EventTypeNormal EventReasonUpdated
    (''Created snapshot consistency group on array with id: '' @ res_SnapshotGroupID res)]\<rparr>"
  define v1 where "v1 = v\<lparr>vg_Finalizers := (if FinalizerName \<in> set (vg_Finalizers v)
      then vg_Finalizers v else vg_Finalizers v @ [FinalizerName])\<rparr>"
  have key1: "vg_key v1 = vg_key v" "vg_Spec v1 = vg_Spec v"
    by (simp_all add: v1_def vg_key_def)
  have w0: "writes_group (vg_key v) w w0"
    by (rule writes_group_same [OF wf u]) (simp_all add: w0_def)
  from calm_ensureFinalizer [of w0 v u v1 cfg driver r] wf u obtain w1
    where 1: "run_state (ensureFinalizer ?r v) w0 = ((v1, None), w1)" and "writes_group (vg_key v) w0 w1"
    by (auto simp: w0_def v1_def)
  with w0 have w1: "writes_group (vg_key v) w w1" by (blast intro: writes_group_trans)
  then obtain u1 where "stored_groups (cluster w1) (vg_key v1) = Some u1" "wf_store (cluster w1)"
    using writes_group_stored [OF w1] key1 by (auto simp: writes_group_def)
  from calm_recordGroupID [OF this(2,1), of cfg driver r res] key1 obtain v2 w2
    where 2: "run_state (recordGroupID ?r v1 res) w1 = ((v2, None), w2)"
      and key2: "vg_key v2 = vg_key v" "vg_Spec v2 = vg_Spec v"
      and v2: "\<And>x. v2\<lparr>vg_Status := x\<rparr> = v1\<lparr>vg_Status := x\<rparr>" and "writes_group (vg_key v) w1 w2"
    by auto
  with w1 have w2: "writes_group (vg_key v) w w2" by (blast intro: writes_group_trans)
  have names: "memberName v2 = memberName v" by (rule memberName_key [OF key2(1)])
  then have free2: "comma_free v2 vm res" and string: "member_string v2 vm res = member_string v vm res"
    using free by (simp_all add: comma_free_def member_string_def)
  have clock: "uuidCount w2 = uuidCount w" "sched w2 = Tick # ts"
    using w2 sched by (simp_all add: writes_group_def clock_def)
  have plan2: "plan = planned ?r v2 sc vm (uuidCount w2) (res_Snapshots res)"
    unfolding plan clock(1) by (rule planned_same) (simp_all add: key2)
  have ok2: "creatable ?r (cluster w2) plan"
    using ok w2 creatable_same [of "cluster w2" "cluster w"] by (simp add: writes_group_def)
  from writes_group_stored [OF w2] obtain u2 where u2: "stored_groups (cluster w2) (vg_key v2) = Some u2"
    using key2 by auto
  have wf2: "wf_store (cluster w2)" using w2 by (simp add: writes_group_def)
  let ?v3 = "created v vm res"
  have v3: "?v3 = v2\<lparr>vg_Status := responseStatus res (member_string v2 vm res) True\<rparr>"
    by (simp add: v2 string) (simp add: v1_def created_def)
  from grudging_processResponse [OF wf2 clock(2) free2 u2 ok2 plan2 v3, of fail "nnName req"] obtain e w3
    where 3: "run_state (processResponse ?g res vm v2 sc (nnName req)) w2 = (Ret (?v3, e), w3)"
      and e: "e = None \<longleftrightarrow> list_all (member_made fail) plan"
      and w3: "cluster w3 = AList.update (getKey (KVG ?v3)) (KVG ?v3) (fold (add_made fail) plan (cluster w2))"
    by blast
  have key3: "vg_key ?v3 = vg_key v" by (simp add: created_def vg_key_def)
  have "stored_groups (cluster w3) (vg_key ?v3) = Some ?v3" by (simp add: w3)
  from calm_statusUpdateVG [OF this, of cfg driver r]
  have 4: "run_state (statusUpdateVG ?g ?v3) w3 = ((?v3, None),
      w3\<lparr>cluster := AList.update (getKey (KVG ?v3)) (KVG ?v3) (cluster w3),
        trace := trace w3 @ [StatusUpdateVG ?v3]\<rparr>)"
    unfolding grudging .
  have "\<exists>w'. run_state (finishCreate ?g req v sc vm res) w = (Ret e, w')
      \<and> cluster w' = AList.update (getKey (KVG ?v3)) (KVG ?v3) (cluster w3)"
    using 1 [unfolded w0_def] 2 3 4 unfolding finishCreate_def grudging
    by (cases e) (simp_all add: Let_def run_andThen del: fake_simps)
  then obtain w' where "run_state (finishCreate ?g req v sc vm res) w = (Ret e, w')"
    "cluster w' = AList.update (getKey (KVG ?v3)) (KVG ?v3) (cluster w3)" by blast
  with e w2 wf2 key3 show ?thesis
    by (intro exI [of _ e] exI [of _ w']) (auto simp: w3 writes_group_def wf_store_update wf_fold_add_made)
qed

text \<open>
  Everything a creation needs: a new group with one way to select claims, a stored class of the
  controller's driver, volumes for the claims, an answer of the driver, and room for the objects
  of the answer.
\<close>

definition ready_to_create ::
  "fakecfg \<Rightarrow> (string \<Rightarrow> string list \<Rightarrow> (string \<times> string) list \<Rightarrow> error + vgsresponse)
     \<Rightarrow> store reconciler \<Rightarrow> nname \<Rightarrow> vg \<Rightarrow> vsclass \<Rightarrow> string list \<Rightarrow> volmap \<Rightarrow> vgsresponse
     \<Rightarrow> (volsnap \<times> content) list \<Rightarrow> store world \<Rightarrow> bool" where
  "ready_to_create cfg driver r req v sc ids vm res plan w \<longleftrightarrow>
     wf_store (cluster w) \<and> stored_groups (cluster w) req = Some v \<and> deletion_is_zero v
   \<and> \<not> (status_SnapshotGroupID (vg_Status v) \<noteq> [] \<and> status_Status (vg_Status v) = EventStatusComplete)
   \<and> status_Status (vg_Status v) \<noteq> EventStatusPending
   \<and> (spec_PvcLabel (vg_Spec v) = [] \<or> spec_PvcList (vg_Spec v) = None)
   \<and> stored_classes (cluster w) (spec_Volumesnapshotclass (vg_Spec v)) = Some sc
   \<and> sc_Driver sc = r_DriverName r
   \<and> chosen_volumes cfg (cluster w) v = Ret (Inr (ids, vm))
   \<and> driver (nnName req) (sort ids) (groupParams v) = Inr res
   \<and> comma_free v vm res
   \<and> plan = planned (calm cfg driver r) v sc vm (uuidCount w) (res_Snapshots res)
   \<and> creatable (calm cfg driver r) (cluster w) plan"

lemma chosen_pending:
  assumes "wf_store st"
  shows "chosen_volumes cfg (AList.update (getKey (KVG u)) (KVG u) st) (set_status s v)
    = chosen_volumes cfg st v"
  unfolding chosen_volumes_def chosen_claims_def tables_after_group [OF assms]
    wanted_claims_def set_status_def by simp

lemma grudging_creates:
  assumes "ready_to_create cfg driver r req v sc ids vm res plan w" and "sched w = Tick # ts"
  shows "\<exists>e w'. run_state (reconcile (grudging fail cfg driver r) req) w = (Ret e, w')
     \<and> (e = None \<longleftrightarrow> list_all (member_made fail) plan)
     \<and> wf_store (cluster w')
     \<and> stored_groups (cluster w') = (stored_groups (cluster w))(req \<mapsto> created v vm res)
     \<and> stored_snaps (cluster w') = fold add_snap (filter (member_made fail) plan) (stored_snaps (cluster w))
     \<and> stored_contents (cluster w') =
         fold add_content (filter (content_made fail) plan) (stored_contents (cluster w))
     \<and> stored_classes (cluster w') = stored_classes (cluster w)"
proof -
  let ?g = "grudging fail cfg driver r"
  let ?r = "calm cfg driver r"
  from assms(1) have wf: "wf_store (cluster w)" and v: "stored_groups (cluster w) req = Some v"
    and zero: "deletion_is_zero v"
    and new: "\<not> (status_SnapshotGroupID (vg_Status v) \<noteq> [] \<and> status_Status (vg_Status v) = EventStatusComplete)"
      "status_Status (vg_Status v) \<noteq> EventStatusPending"
    and one: "spec_PvcLabel (vg_Spec v) = [] \<or> spec_PvcList (vg_Spec v) = None"
    and sc: "stored_classes (cluster w) (spec_Volumesnapshotclass (vg_Spec v)) = Some sc"
    and drv: "sc_Driver sc = r_DriverName r" and vols: "chosen_volumes cfg (cluster w) v = Ret (Inr (ids, vm))"
    and answer: "driver (nnName req) (sort ids) (groupParams v) = Inr res"
    and free: "comma_free v vm res"
    and plan: "plan = planned ?r v sc vm (uuidCount w) (res_Snapshots res)"
    and ok: "creatable ?r (cluster w) plan"
    unfolding ready_to_create_def by - (elim conjE, assumption)+
  have key: "vg_key v = req" by (rule wf_groups [OF wf v])
  let ?v = "set_status EventStatusPending v"
  define st where "st = AList.update (getKey (KVG ?v)) (KVG ?v) (cluster w)"
  define w1 where "w1 = w\<lparr>cluster := st, trace := trace w @ [GetVG req, StatusUpdateVG ?v,
    GetClass (NN [] (spec_Volumesnapshotclass (vg_Spec v)))]\<rparr>"
  have st: "stored_groups st = (stored_groups (cluster w))(req \<mapsto> ?v)"
    "stored_snaps st = stored_snaps (cluster w)" "stored_contents st = stored_contents (cluster w)"
    "stored_classes st = stored_classes (cluster w)" "wf_store st"
    using key wf by (simp_all add: st_def wf_store_update)
  have sent: "cl_StatusUpdateVG (r_Client ?r) ?v (cluster w) = (Inr ?v, st)"
    unfolding st_def by (rule calm_writes(1)) (simp add: key v)
  have cls: "cl_GetClass (r_Client ?r) (NN [] (spec_Volumesnapshotclass (vg_Spec v))) st = (Inr sc, st)"
    by (rule calm_get_class) (simp add: st sc)
  have pending: "run_state (reconcile ?g req) w = run_state (createFromClass ?g req ?v)
      (w\<lparr>cluster := st, trace := trace w @ [GetVG req, StatusUpdateVG ?v]\<rparr>)"
    using zero new one calm_gets(1) [OF v, of cfg driver r] sent
    unfolding reconcile_def reconcileCreate_def createChecked_def grudging
    by (auto simp: getVG_def statusUpdateVG_def
        run_call Let_def simp del: fake_simps split: option.split bool.split)
  have "chosen_volumes cfg (cluster w1) ?v = Ret (Inr (ids, vm))"
    using vols chosen_pending [OF wf] by (simp add: w1_def st_def)
  with calm_findSources [of cfg driver r ?v w1] obtain w2
    where src: "run_state (findSources ?r ?v) w1 = (Ret (Inr (ids, vm)), w2)"
      and w2: "cluster w2 = st" "clock w2 = clock w" by (auto simp: w1_def)
  have params: "groupParams ?v = groupParams v" by (simp add: groupParams_def)
  let ?w3 = "w2\<lparr>trace := trace w2 @ [CreateVGS (nnName req) (sort ids) (groupParams v)]\<rparr>"
  have run: "run_state (reconcile ?g req) w = run_state (finishCreate ?g req ?v sc vm res) ?w3"
    using cls drv src [unfolded w1_def] answer params w2(1)
    unfolding pending createFromClass_def createGroup_def grudging
    by (simp add: getClass_def createVGS_def run_call run_andThen Let_def)
  have names: "memberName ?v = memberName v" by (rule memberName_key) simp
  have plan3: "plan = planned ?r ?v sc vm (uuidCount ?w3) (res_Snapshots res)"
    using plan w2(2) planned_same [of v ?v] by (simp add: clock_def)
  have ok3: "creatable ?r (cluster ?w3) plan"
    using ok st w2(1) creatable_same [of st "cluster w"] by simp
  have final: "created ?v vm res = created v vm res"
    using names by (simp add: created_def set_status_def member_string_def)
  show ?thesis
    unfolding run
    using grudging_finishCreate [OF _ _ _ _ ok3 plan3, of ?v ts fail req] st w2 assms(2) free names key final
    by (auto simp: clock_def comma_free_def simp del: fake_simps)
qed

text \<open>When nothing is refused.\<close>

lemma calm_creates:
  assumes "ready_to_create cfg driver r req v sc ids vm res plan w" and "sched w = Tick # ts"
  shows "\<exists>w'. run_state (reconcile (calm cfg driver r) req) w = (Ret None, w')
     \<and> wf_store (cluster w')
     \<and> stored_groups (cluster w') = (stored_groups (cluster w))(req \<mapsto> created v vm res)
     \<and> stored_snaps (cluster w') = fold add_snap plan (stored_snaps (cluster w))
     \<and> stored_contents (cluster w') = fold add_content plan (stored_contents (cluster w))
     \<and> stored_classes (cluster w') = stored_classes (cluster w)"
  using grudging_creates [OF assms, of "\<lambda>_. None"] unfolding calm_grudging
  by (simp add: list_all_iff del: fake_simps)

end
