(* ===== verification/Lifecycle.thy ===== *)
theory Lifecycle
  imports Creation
begin

text \<open>
  From creation to deletion on a store whose calls do not fail: the group a creation leaves can be
  deleted again, with every snapshot and content back to what it was; and what becomes of members
  the store refused to create. Source: \<open>Reconcile\<close>, \<open>processResponse\<close>, \<open>deleteVg\<close>.
\<close>

section \<open>From creation to deletion\<close>

text \<open>The members of a created group are the objects of the plan, and they can be removed.\<close>

lemma created_members:
  assumes "res_Snapshots res \<noteq> []" and "comma_free v vm res"
  shows "member_names (created v vm res) = map (memberName v vm) (res_Snapshots res)"
  using member_list_reads_back [OF assms(1), of v vm] assms(2)
  by (simp add: member_names_def created_def member_string_def comma_free_def)

lemma creatableD:
  assumes "creatable r st plan" and "p \<in> set plan"
  shows "stored_snaps st (snap_key (fst p)) = None" "stored_contents st (vc_Name (snd p)) = None"
    "fold add_snap plan m (snap_key (fst p)) = Some (fst p)"
    "fold add_content plan m' (vc_Name (snd p)) = Some (snd p)"
  using assms fold_add_snap [of plan p m] fold_add_content [of plan p m']
  by (auto simp: creatable_def)

lemma plan_removed:
  assumes ok: "creatable r st plan"
    and plan: "plan = planned r' v sc vm k ss" and policy: "sc_DeletionPolicy sc = VolumeSnapshotContentDelete"
    and snaps: "stored_snaps st' = fold add_snap plan (stored_snaps st)"
    and contents: "stored_contents st' = fold add_content plan (stored_contents st)"
  defines "names \<equiv> map (memberName v vm) ss"
  shows "removable (vg_Namespace v) names st'"
    and "without_members (vg_Namespace v) names (stored_snaps st') = stored_snaps st"
    and "without_contents (vg_Namespace v) names st' = stored_contents st"
proof -
  let ?ns = "vg_Namespace v"
  have keys: "map (snap_key \<circ> fst) plan = map (NN ?ns) names"
    unfolding plan planned_keys names_def by simp
  have name: "\<exists>p \<in> set plan. snap_key (fst p) = NN ?ns n" if "n \<in> set names" for n
  proof -
    have "NN ?ns n \<in> set (map (snap_key \<circ> fst) plan)" unfolding keys using that by simp
    then obtain p where "p \<in> set plan" "NN ?ns n = snap_key (fst p)" by auto
    then show ?thesis by (metis)
  qed
  have named: "\<exists>n \<in> set names. snap_key (fst p) = NN ?ns n" if "p \<in> set plan" for p
  proof -
    have "snap_key (fst p) \<in> set (map (snap_key \<circ> fst) plan)" using that by simp
    then show ?thesis unfolding keys by auto
  qed
  have content: "member_content st' ?ns n = Some (vc_Name (snd p))"
    if "p \<in> set plan" "snap_key (fst p) = NN ?ns n" for n p
    using creatableD(3) [OF ok that(1)] that planned_objects [OF that(1) [unfolded plan]]
    by (simp add: member_content_def snaps)
  have one: "p = q" if "p \<in> set plan" "q \<in> set plan" "vc_Name (snd p) = vc_Name (snd q)" for p q
    using ok that by (auto simp: creatable_def distinct_map inj_on_def)
  show "removable ?ns names st'"
    unfolding removable_def
  proof (intro conjI ballI impI)
    fix n assume "n \<in> set names"
    then obtain p where p: "p \<in> set plan" "snap_key (fst p) = NN ?ns n" using name by blast
    show "Option.bind (member_content st' ?ns n) (stored_contents st') \<noteq> None"
      using content [OF p] creatableD(4) [OF ok p(1)] by (simp add: contents)
  next
    fix n m assume nm: "n \<in> set names" "m \<in> set names"
      "member_content st' ?ns n = member_content st' ?ns m"
    obtain p where p: "p \<in> set plan" "snap_key (fst p) = NN ?ns n" using name nm(1) by blast
    obtain q where q: "q \<in> set plan" "snap_key (fst q) = NN ?ns m" using name nm(2) by blast
    from nm(3) content [OF p] content [OF q] have "vc_Name (snd p) = vc_Name (snd q)" by simp
    from one [OF p(1) q(1) this] p(2) q(2) show "n = m" by simp
  qed
  show "without_members ?ns names (stored_snaps st') = stored_snaps st"
  proof
    fix key :: nname
    show "without_members ?ns names (stored_snaps st') key = stored_snaps st key"
    proof (cases "key \<in> snap_key ` fst ` set plan")
      case True
      then obtain p where p: "p \<in> set plan" "key = snap_key (fst p)" by auto
      with named [OF p(1)] creatableD(1) [OF ok p(1)] show ?thesis
        by (auto simp: without_members_def)
    next
      case False
      then have "\<not> (nnNamespace key = ?ns \<and> nnName key \<in> set names)"
        using name [of "nnName key"] by (cases key) force
      with False show ?thesis by (auto simp: without_members_def snaps fold_add_other)
    qed
  qed
  show "without_contents ?ns names st' = stored_contents st"
  proof
    fix c :: string
    show "without_contents ?ns names st' c = stored_contents st c"
    proof (cases "c \<in> vc_Name ` snd ` set plan")
      case True
      then obtain p where p: "p \<in> set plan" "c = vc_Name (snd p)" by auto
      from named [OF p(1)] obtain n where n: "n \<in> set names" "snap_key (fst p) = NN ?ns n" by blast
      have "lost_content ?ns names st' c"
        using content [OF p(1) n(2)] n(1) creatableD(4) [OF ok p(1)] p
          planned_objects [OF p(1) [unfolded plan]] policy
        by (auto simp: lost_content_def contents intro!: image_eqI [of _ _ n])
      then show ?thesis using creatableD(2) [OF ok p(1)] p(2) by (simp add: without_contents_def)
    next
      case False
      have "\<not> lost_content ?ns names st' c"
      proof
        assume "lost_content ?ns names st' c"
        then obtain n where "n \<in> set names" "member_content st' ?ns n = Some c"
          by (auto simp: lost_content_def)
        with name content False show False by force
      qed
      with False show ?thesis by (simp add: without_contents_def contents fold_add_other)
    qed
  qed
qed

text \<open>The group is created, marked and deleted.\<close>

lemma calm_undone:
  assumes "ready_to_create cfg driver r req v sc ids vm res plan w" and "sched w = Tick # ts"
    and "res_Snapshots res \<noteq> []" and "sc_DeletionPolicy sc = VolumeSnapshotContentDelete"
  shows "\<exists>w1 st w2. run_state (reconcile (calm cfg driver r) req) w = (Ret None, w1)
     \<and> stored_groups (cluster w1) req = Some (created v vm res)
     \<and> setDeletionTimeStamp now (created v vm res) (cluster w1) = (None, st)
     \<and> run_state (reconcile (calm cfg driver r) req) (start st ticks) = (Ret None, w2)
     \<and> stored_snaps (cluster w2) = stored_snaps (cluster w)
     \<and> stored_contents (cluster w2) = stored_contents (cluster w)
     \<and> (\<exists>u. stored_groups (cluster w2) = (stored_groups (cluster w))(req \<mapsto> u)
          \<and> FinalizerName \<notin> set (vg_Finalizers u))"
proof -
  let ?r = "calm cfg driver r"
  from calm_creates [OF assms(1,2)] obtain w1
    where 1: "run_state (reconcile ?r req) w = (Ret None, w1)" and wf1: "wf_store (cluster w1)"
      and w1: "stored_groups (cluster w1) = (stored_groups (cluster w))(req \<mapsto> created v vm res)"
        "stored_snaps (cluster w1) = fold add_snap plan (stored_snaps (cluster w))"
        "stored_contents (cluster w1) = fold add_content plan (stored_contents (cluster w))"
        "stored_classes (cluster w1) = stored_classes (cluster w)"
    by blast
  note ready = assms(1) [unfolded ready_to_create_def]
  have key: "vg_key v = req" using ready wf_groups by blast
  let ?u = "(created v vm res)\<lparr>vg_DeletionTimestamp := Some (UnixNano now)\<rparr>"
  define st where "st = AList.update (getKey (KVG ?u)) (KVG ?u) (cluster w1)"
  have key': "vg_key ?u = req" and ns: "vg_Namespace ?u = nnNamespace req"
    using key by (auto simp: created_def vg_key_def)
  have "getKey (KVG (created v vm res)) = getKey (KVG ?u)" by (simp add: getKey_def)
  then have mark: "setDeletionTimeStamp now (created v vm res) (cluster w1) = (None, st)"
    by (auto simp: setDeletionTimeStamp_def st_def created_def)
  have st: "wf_store st" "stored_groups st = (stored_groups (cluster w))(req \<mapsto> ?u)"
    "stored_snaps st = stored_snaps (cluster w1)" "stored_contents st = stored_contents (cluster w1)"
    "stored_classes st = stored_classes (cluster w)"
    using wf1 w1 key' by (simp_all add: st_def wf_store_update)
  have names: "member_names ?u = map (memberName v vm) (res_Snapshots res)"
    using created_members [OF assms(3), of v vm] ready by (simp add: member_names_def)
  have ok: "creatable ?r (cluster w) plan"
    and plan: "plan = planned ?r v sc vm (uuidCount w) (res_Snapshots res)"
    using ready by blast+
  have "vg_Namespace v = nnNamespace req" using key by (auto simp: vg_key_def)
  note undone = plan_removed [OF ok plan assms(4), of st, unfolded this st(3,4), OF w1(2,3)]
  have flags: "\<not> deletion_is_zero ?u" "status_Status (vg_Status ?u) = EventStatusComplete"
    "FinalizerName \<in> set (vg_Finalizers ?u)" "vg_Spec ?u = vg_Spec v"
    by (simp_all add: created_def deletion_is_zero_def)
  have "\<exists>w2. run_state (reconcile ?r req) (start st ticks) = (Ret None, w2)
      \<and> stored_groups (cluster w2) = (stored_groups st)(req \<mapsto> unpinned ?u)
      \<and> stored_snaps (cluster w2) = without_members (nnNamespace req) (member_names ?u) (stored_snaps st)
      \<and> stored_contents (cluster w2) = without_contents (nnNamespace req) (member_names ?u) st"
    using calm_deletes [of "start st ticks" req ?u sc "member_names ?u" cfg driver r]
      st flags ready names undone assms(4)
    by (simp del: fake_simps)
  then obtain w2 where 2: "run_state (reconcile ?r req) (start st ticks) = (Ret None, w2)"
    and w2: "stored_groups (cluster w2) = (stored_groups st)(req \<mapsto> unpinned ?u)"
      "stored_snaps (cluster w2) = without_members (nnNamespace req) (member_names ?u) (stored_snaps st)"
      "stored_contents (cluster w2) = without_contents (nnNamespace req) (member_names ?u) st" by blast
  have "stored_groups (cluster w2) = (stored_groups (cluster w))(req \<mapsto> unpinned ?u)"
    "FinalizerName \<notin> set (vg_Finalizers (unpinned ?u))"
    using w2(1) st(2) by (simp_all add: unpinned_def)
  with 1 mark 2 w1(1) w2(2,3) undone names st show ?thesis by auto
qed

section \<open>Members the store refused\<close>

text \<open>A store that holds a settled group is left as it is.\<close>

lemma calm_settled:
  assumes "stored_groups (cluster w) req = Some v" and "deletion_is_zero v"
    and "status_Status (vg_Status v) = EventStatusComplete" and "status_SnapshotGroupID (vg_Status v) \<noteq> []"
  shows "\<exists>w'. run_state (reconcile (calm cfg driver r) req) w = (Ret None, w') \<and> cluster w' = cluster w"
  using calm_gets(1) [OF assms(1), of cfg driver r] assms(2-)
  by (simp add: reconcile_def getVG_def run_call Let_def del: fake_simps)

lemma grudging_then_settled:
  assumes "ready_to_create cfg driver r req v sc ids vm res plan w" and "sched w = Tick # ts"
    and "\<not> list_all (member_made fail) plan" and "res_SnapshotGroupID res \<noteq> []"
  shows "\<exists>e w1 w2. run_state (reconcile (grudging fail cfg driver r) req) w = (Ret (Some e), w1)
     \<and> stored_groups (cluster w1) req = Some (created v vm res)
     \<and> stored_snaps (cluster w1) = fold add_snap (filter (member_made fail) plan) (stored_snaps (cluster w))
     \<and> (\<forall>p \<in> set plan. stored_snaps (cluster w1) (snap_key (fst p)) =
          (if member_made fail p then Some (fst p) else None))
     \<and> run_state (reconcile (calm cfg driver r) req) (start (cluster w1) ticks) = (Ret None, w2)
     \<and> cluster w2 = cluster w1"
proof -
  from grudging_creates [OF assms(1,2), of fail] assms(3) obtain e w1
    where 1: "run_state (reconcile (grudging fail cfg driver r) req) w = (Ret (Some e), w1)"
      "stored_groups (cluster w1) req = Some (created v vm res)"
      "stored_snaps (cluster w1) = fold add_snap (filter (member_made fail) plan) (stored_snaps (cluster w))"
    by fastforce
  have ok: "creatable (calm cfg driver r) (cluster w) plan" and zero: "deletion_is_zero v"
    using assms(1) unfolding ready_to_create_def by - (elim conjE, assumption)+
  have "deletion_is_zero (created v vm res)"
    "status_Status (vg_Status (created v vm res)) = EventStatusComplete"
    "status_SnapshotGroupID (vg_Status (created v vm res)) \<noteq> []"
    using zero assms(4) by (simp_all add: created_def deletion_is_zero_def)
  with calm_settled [of "start (cluster w1) ticks" req "created v vm res" cfg driver r] 1(2)
  obtain w2 where "run_state (reconcile (calm cfg driver r) req) (start (cluster w1) ticks) = (Ret None, w2)"
    "cluster w2 = cluster w1" by (auto simp del: fake_simps)
  with 1 made_snap [OF ok] show ?thesis by auto
qed

section \<open>Properties\<close>

text \<open>C8: When no call fails and a creation has all it needs, it reports success at the first tick of
  its wait: the group is stored \<open>Complete\<close>, ready, with the finalizer and the members' names
  (whether or not the driver reported its snapshots ready), one snapshot and one content were
  created for each snapshot of the answer, and every other group, snapshot and content is as
  before.\<close>

lemma creation_goes_through:
  assumes "ready_to_create cfg driver r req v sc ids vm res plan w" and "sched w = Tick # ts"
  shows "\<exists>w'. run_state (reconcile (calm cfg driver r) req) w = (Ret None, w')
     \<and> stored_groups (cluster w') = (stored_groups (cluster w))(req \<mapsto> created v vm res)
     \<and> stored_snaps (cluster w') = fold add_snap plan (stored_snaps (cluster w))
     \<and> stored_contents (cluster w') = fold add_content plan (stored_contents (cluster w))"
  using calm_creates [OF assms] by blast

text \<open>The examples: one claim, and the answer of the example driver for its volume.\<close>

definition example_answer :: vgsresponse where
  "example_answer = projr (example_driver ''vg'' [''v1/array/scsi''] [])"

definition example_plan :: "(volsnap \<times> content) list" where
  "example_plan = planned calm_controller new_group example_class
     [(''v1/array/scsi'', ''a'')] 0 (res_Snapshots example_answer)"

lemma ready_example:
  "ready_to_create healthy example_driver (controller healthy) (NN ''ns'' ''vg'') new_group example_class
     [''v1/array/scsi''] [(''v1/array/scsi'', ''a'')] example_answer example_plan
     (start (example_store new_group) ts)"
proof -
  have "wf_store (cluster (start (example_store new_group) ts))"
    by (simp add: wf_example_store)
  moreover have "stored_groups (example_store new_group) (NN ''ns'' ''vg'') = Some new_group"
    "stored_classes (example_store new_group) (spec_Volumesnapshotclass (vg_Spec new_group))
      = Some example_class"
    "sc_Driver example_class = r_DriverName (controller healthy)"
    "chosen_volumes healthy (example_store new_group) new_group = Ret (Inr ([''v1/array/scsi''],
      [(''v1/array/scsi'', ''a'')]))"
    "example_driver (nnName (NN ''ns'' ''vg'')) (sort [''v1/array/scsi'']) (groupParams new_group)
      = Inr example_answer"
    "comma_free new_group [(''v1/array/scsi'', ''a'')] example_answer"
    "creatable calm_controller (example_store new_group) example_plan"
    by code_simp+
  moreover have "deletion_is_zero new_group" "status_Status (vg_Status new_group) = []"
    "spec_PvcLabel (vg_Spec new_group) = []"
    by (simp_all add: new_group_def example_group_def empty_vg_def deletion_is_zero_def
        empty_status_def empty_spec_def)
  ultimately show ?thesis
    by (simp add: ready_to_create_def example_plan_def start_def del: fake_simps)
qed

lemma creation_goes_through_witness:
  "\<exists>w'. run_state (reconcile calm_controller (NN ''ns'' ''vg'')) (start (example_store new_group) [Tick])
       = (Ret None, w')
     \<and> stored_groups (cluster w') (NN ''ns'' ''vg'') =
         Some (created new_group [(''v1/array/scsi'', ''a'')] example_answer)"
  using creation_goes_through [OF ready_example, of "[Tick]" "[]"] by fastforce

text \<open>C7: A group that was created and is then marked for deletion is taken down completely: when no
  call fails and its class has the policy \<open>Delete\<close>, both reconciliations report success, and after
  the second one every snapshot and every content is as it was before the first; of the group
  only its record is left, without the controller's finalizer.\<close>

lemma created_then_deleted:
  assumes "ready_to_create cfg driver r req v sc ids vm res plan w" and "sched w = Tick # ts"
    and "res_Snapshots res \<noteq> []" and "sc_DeletionPolicy sc = VolumeSnapshotContentDelete"
  shows "\<exists>w1 st w2. run_state (reconcile (calm cfg driver r) req) w = (Ret None, w1)
     \<and> setDeletionTimeStamp now (created v vm res) (cluster w1) = (None, st)
     \<and> run_state (reconcile (calm cfg driver r) req) (start st ticks) = (Ret None, w2)
     \<and> stored_snaps (cluster w2) = stored_snaps (cluster w)
     \<and> stored_contents (cluster w2) = stored_contents (cluster w)
     \<and> (\<exists>u. stored_groups (cluster w2) = (stored_groups (cluster w))(req \<mapsto> u)
          \<and> FinalizerName \<notin> set (vg_Finalizers u))"
  using calm_undone [OF assms] by blast

lemma created_then_deleted_witness:
  "\<exists>w1 st w2. run_state (reconcile calm_controller (NN ''ns'' ''vg''))
       (start (example_store new_group) [Tick]) = (Ret None, w1)
     \<and> setDeletionTimeStamp 9 (created new_group [(''v1/array/scsi'', ''a'')] example_answer) (cluster w1)
         = (None, st)
     \<and> run_state (reconcile calm_controller (NN ''ns'' ''vg'')) (start st []) = (Ret None, w2)
     \<and> stored_snaps (cluster w2) = stored_snaps (example_store new_group)"
proof -
  have "res_Snapshots example_answer \<noteq> []"
    "sc_DeletionPolicy example_class = VolumeSnapshotContentDelete"
    by (simp_all add: example_answer_def example_driver_def example_class_def)
  from created_then_deleted [OF ready_example _ this, of "[Tick]" "[]" 9 "[]"] show ?thesis
    by (simp del: fake_simps) blast
qed

text \<open>C10: A member whose content or snapshot the store refuses to create is never made. When every
  other call goes through, the reconciliation reports an error, but it has already written the
  group as if all had gone well: \<open>Complete\<close>, ready, with every member in its list. Of the members
  exactly those whose two objects were accepted have their snapshot. The retry the error brings
  about finds a complete group: it reports success and changes nothing, even when the store now
  accepts everything.\<close>

lemma refused_members_never_made:
  assumes "ready_to_create cfg driver r req v sc ids vm res plan w" and "sched w = Tick # ts"
    and "\<not> list_all (member_made fail) plan" and "res_SnapshotGroupID res \<noteq> []"
  shows "\<exists>e w1 w2. run_state (reconcile (grudging fail cfg driver r) req) w = (Ret (Some e), w1)
     \<and> stored_groups (cluster w1) req = Some (created v vm res)
     \<and> stored_snaps (cluster w1) = fold add_snap (filter (member_made fail) plan) (stored_snaps (cluster w))
     \<and> (\<forall>p \<in> set plan. stored_snaps (cluster w1) (snap_key (fst p)) =
          (if member_made fail p then Some (fst p) else None))
     \<and> run_state (reconcile (calm cfg driver r) req) (start (cluster w1) ticks) = (Ret None, w2)
     \<and> cluster w2 = cluster w1"
  by (rule grudging_then_settled [OF assms])

text \<open>The example: the store refuses every snapshot.\<close>

definition no_snapshots :: "kobj \<Rightarrow> error option" where
  "no_snapshots ob = (case ob of KSnap x \<Rightarrow> Some (errorf ''unable to create Volumesnapshot'') | _ \<Rightarrow> None)"

lemma refused_members_never_made_witness:
  "\<exists>e w1 w2. run_state (reconcile (grudging no_snapshots healthy example_driver (controller healthy))
         (NN ''ns'' ''vg'')) (start (example_store new_group) [Tick]) = (Ret (Some e), w1)
     \<and> stored_groups (cluster w1) (NN ''ns'' ''vg'') =
         Some (created new_group [(''v1/array/scsi'', ''a'')] example_answer)
     \<and> stored_snaps (cluster w1) (NN ''ns'' ''vg-a'') = None
     \<and> run_state (reconcile calm_controller (NN ''ns'' ''vg'')) (start (cluster w1) []) = (Ret None, w2)
     \<and> cluster w2 = cluster w1"
proof -
  have refused: "\<not> list_all (member_made no_snapshots) example_plan" "res_SnapshotGroupID example_answer \<noteq> []"
    and none: "filter (member_made no_snapshots) example_plan = []"
    and empty: "stored_snaps (example_store new_group) (NN ''ns'' ''vg-a'') = None"
    by code_simp+
  from refused_members_never_made [OF ready_example _ refused, of "[Tick]" "[]" "[]"] show ?thesis
    unfolding none using empty by (auto simp del: fake_simps)
qed

end
