(* ===== verification/Refusal.thy ===== *)
theory Refusal
  imports Lifecycle
begin

text \<open>
  Creations that are refused before anything is made: the class cannot be read, it belongs to
  another driver, no volumes are found, or the driver fails. Source: the error exits of \<open>Reconcile\<close>
  up to the driver's answer.
\<close>

section \<open>Why a creation is refused\<close>

definition class_table :: "fakecfg \<Rightarrow> store \<Rightarrow> nname \<Rightarrow> error + vsclass" where
  "class_table cfg st k = fakeGet (no_failures cfg\<lparr>fc_Recode := Inr\<rparr>) (KClass empty_class) asClass k st"

definition refusal ::
  "fakecfg \<Rightarrow> (string \<Rightarrow> string list \<Rightarrow> (string \<times> string) list \<Rightarrow> error + vgsresponse)
     \<Rightarrow> string \<Rightarrow> string \<Rightarrow> vg \<Rightarrow> store \<Rightarrow> error option" where
  "refusal cfg driver driverName name v st =
     (case class_table cfg st (NN [] (spec_Volumesnapshotclass (vg_Spec v))) of
        Inl e \<Rightarrow> Some e
      | Inr sc \<Rightarrow>
          if sc_Driver sc \<noteq> driverName then Some driverMismatchError
          else (case chosen_volumes cfg st v of
                  Ret (Inl e) \<Rightarrow> Some e
                | Ret (Inr (ids, vm)) \<Rightarrow>
                    (case driver name (sort ids) (groupParams v) of
                       Inl e \<Rightarrow> Some e
                     | Inr res \<Rightarrow> None)
                | _ \<Rightarrow> None))"

section \<open>The error exit\<close>

lemma calm_failCreate:
  assumes "stored_groups (cluster w) (vg_key v) = Some u"
  shows "\<exists>w'. run_state (failCreate (calm cfg driver r) v msg e) w = (Ret (Some e), w')
     \<and> cluster w' = AList.update (getKey (KVG (set_status EventStatusError v)))
         (KVG (set_status EventStatusError v)) (cluster w)"
  using calm_statusUpdateVG [of w "set_status EventStatusError v" u cfg driver r] assms
  by (simp add: failCreate_def del: fake_simps)

lemma class_after_group:
  "class_table cfg (AList.update (getKey (KVG v)) (KVG v) st) = class_table cfg st"
  by (simp add: class_table_def fun_eq_iff fakeGet_after_group)

text \<open>The creation with the status \<open>Pending\<close> already written.\<close>

lemma calm_createFromClass:
  assumes "refusal cfg driver (r_DriverName r) (nnName req) v (cluster w) = Some e"
    and u: "stored_groups (cluster w) (vg_key v) = Some u"
  shows "\<exists>w'. run_state (createFromClass (calm cfg driver r) req v) w = (Ret (Some e), w')
     \<and> cluster w' = AList.update (getKey (KVG (set_status EventStatusError v)))
         (KVG (set_status EventStatusError v)) (cluster w)"
proof -
  let ?r = "calm cfg driver r"
  let ?k = "NN [] (spec_Volumesnapshotclass (vg_Spec v))"
  let ?w = "w\<lparr>trace := trace w @ [GetClass ?k]\<rparr>"
  have cls: "run_state (getClass ?r ?k) w = (class_table cfg (cluster w) ?k, ?w)"
    by (simp add: getClass_def run_call class_table_def fake_client_def)
  have fail: "\<exists>w'. run_state (failCreate ?r v msg e') w0 = (Ret (Some e'), w')
      \<and> cluster w' = AList.update (getKey (KVG (set_status EventStatusError v)))
         (KVG (set_status EventStatusError v)) (cluster w)"
    if "cluster w0 = cluster w" for w0 msg e'
    using calm_failCreate [of w0 v u cfg driver r msg e'] u that by simp
  show ?thesis
  proof (cases "class_table cfg (cluster w) ?k")
    case (Inl e')
    with assms(1) have "e' = e" by (simp add: refusal_def)
    with Inl cls fail [of ?w] show ?thesis by (simp add: createFromClass_def del: fake_simps)
  next
    case (Inr sc)
    show ?thesis
    proof (cases "sc_Driver sc = r_DriverName r")
      case False
      with assms(1) Inr have "e = driverMismatchError" by (simp add: refusal_def)
      with False Inr cls fail [of ?w] show ?thesis by (simp add: createFromClass_def)
    next
      case True
      obtain w2 where src: "run_state (findSources ?r v) ?w = (chosen_volumes cfg (cluster w) v, w2)"
        and w2: "cluster w2 = cluster w"
        using calm_findSources [of cfg driver r v ?w] by auto
      show ?thesis
      proof (cases "chosen_volumes cfg (cluster w) v")
        case (Ret sel)
        show ?thesis
        proof (cases sel)
          case (Inl e')
          with assms(1) True Ret \<open>class_table cfg (cluster w) ?k = Inr sc\<close> have "e' = e"
            by (simp add: refusal_def)
          moreover have "run_state (createFromClass ?r req v) w = run_state (failCreate ?r v
              (''Failed vg create: '' @ nnName req @ '' error: '' @ errText e') e') w2"
            using Inl Ret cls True src \<open>class_table cfg (cluster w) ?k = Inr sc\<close>
            by (simp add: createFromClass_def run_andThen)
          ultimately show ?thesis using fail [OF w2] by simp
        next
          case (Inr x)
          obtain ids vm where x: "x = (ids, vm)" by force
          from assms(1) True \<open>class_table cfg (cluster w) ?k = Inr sc\<close> Ret Inr x
          have answer: "driver (nnName req) (sort ids) (groupParams v) = Inl e"
            by (simp add: refusal_def split: sum.splits)
          let ?w3 = "w2\<lparr>trace := trace w2 @ [CreateVGS (nnName req) (sort ids) (groupParams v)]\<rparr>"
          have "run_state (createFromClass ?r req v) w = run_state (failCreate ?r v
              (''Failed vg create: '' @ nnName req @ '' error: '' @ errText e) e) ?w3"
            using answer Inr x Ret cls True src \<open>class_table cfg (cluster w) ?k = Inr sc\<close>
            by (simp add: createFromClass_def createGroup_def createVGS_def run_call run_andThen Let_def)
          with fail [of ?w3] w2 show ?thesis by simp
        qed
      qed (use assms(1) Inr True in \<open>simp_all add: refusal_def\<close>)
    qed
  qed
qed

text \<open>The whole reconciliation.\<close>

lemma calm_refuses:
  assumes "wf_store (cluster w)" and "stored_groups (cluster w) req = Some v" and "deletion_is_zero v"
    and "\<not> (status_SnapshotGroupID (vg_Status v) \<noteq> [] \<and> status_Status (vg_Status v) = EventStatusComplete)"
    and "status_Status (vg_Status v) \<noteq> EventStatusPending"
    and "spec_PvcLabel (vg_Spec v) = [] \<or> spec_PvcList (vg_Spec v) = None"
    and "refusal cfg driver (r_DriverName r) (nnName req) v (cluster w) = Some e"
  shows "\<exists>w'. run_state (reconcile (calm cfg driver r) req) w = (Ret (Some e), w')
     \<and> stored_groups (cluster w') = (stored_groups (cluster w))(req \<mapsto> set_status EventStatusError v)
     \<and> stored_snaps (cluster w') = stored_snaps (cluster w)
     \<and> stored_contents (cluster w') = stored_contents (cluster w)"
proof -
  let ?r = "calm cfg driver r"
  have key: "vg_key v = req" by (rule wf_groups [OF assms(1,2)])
  let ?v = "set_status EventStatusPending v"
  define st where "st = AList.update (getKey (KVG ?v)) (KVG ?v) (cluster w)"
  let ?w = "w\<lparr>cluster := st, trace := trace w @ [GetVG req, StatusUpdateVG ?v]\<rparr>"
  have sent: "cl_StatusUpdateVG (r_Client ?r) ?v (cluster w) = (Inr ?v, st)"
    unfolding st_def by (rule calm_writes(1)) (simp add: key assms(2))
  have run: "run_state (reconcile ?r req) w = run_state (createFromClass ?r req ?v) ?w"
    using assms(3-6) calm_gets(1) [OF assms(2), of cfg driver r] sent
    by (auto simp: reconcile_def reconcileCreate_def createChecked_def getVG_def statusUpdateVG_def
        run_call Let_def simp del: fake_simps split: option.split bool.split)
  have params: "groupParams ?v = groupParams v" by (simp add: groupParams_def)
  have "refusal cfg driver (r_DriverName r) (nnName req) ?v st =
      refusal cfg driver (r_DriverName r) (nnName req) v (cluster w)"
    unfolding refusal_def st_def chosen_pending [OF assms(1)] class_after_group params by simp
  with assms(7) have "refusal cfg driver (r_DriverName r) (nnName req) ?v (cluster ?w) = Some e"
    by simp
  moreover have "stored_groups (cluster ?w) (vg_key ?v) = Some ?v" by (simp add: st_def)
  ultimately obtain w' where "run_state (createFromClass ?r req ?v) ?w = (Ret (Some e), w')"
    and w': "cluster w' = AList.update (getKey (KVG (set_status EventStatusError ?v)))
         (KVG (set_status EventStatusError ?v)) st"
    using calm_createFromClass [of cfg driver r req ?v ?w e ?v] by auto
  moreover have "set_status EventStatusError ?v = set_status EventStatusError v"
    by (simp add: set_status_def)
  ultimately show ?thesis
    unfolding run using key by (simp add: st_def w')
qed

section \<open>Properties\<close>

text \<open>C9: A new group whose class cannot be read or is another driver's, for whose claims no volumes
  are found (a claim is missing or unbound, a volume is missing, the volumes are on several
  systems, there are none), or for which the driver fails, is refused with exactly that error, the
  first in this order: when no call to the store fails the group is stored with status \<open>Error\<close>, so
  that it is tried again, and nothing else has changed.\<close>

lemma creation_refused:
  assumes "wf_store (cluster w)" and "stored_groups (cluster w) req = Some v" and "deletion_is_zero v"
    and "\<not> (status_SnapshotGroupID (vg_Status v) \<noteq> [] \<and> status_Status (vg_Status v) = EventStatusComplete)"
    and "status_Status (vg_Status v) \<noteq> EventStatusPending"
    and "spec_PvcLabel (vg_Spec v) = [] \<or> spec_PvcList (vg_Spec v) = None"
    and "refusal cfg driver (r_DriverName r) (nnName req) v (cluster w) = Some e"
  shows "\<exists>w'. run_state (reconcile (calm cfg driver r) req) w = (Ret (Some e), w')
     \<and> stored_groups (cluster w') = (stored_groups (cluster w))(req \<mapsto> set_status EventStatusError v)
     \<and> stored_snaps (cluster w') = stored_snaps (cluster w)
     \<and> stored_contents (cluster w') = stored_contents (cluster w)"
  by (rule calm_refuses [OF assms])

lemma creation_refused_witness:
  "fst (run_state (reconcile calm_controller (NN ''ns'' ''vg''))
     (start (newFakeClient [KVG new_group]) [])) = Ret (Some (newNotFound ''snapshot.storage.k8s.io'' ''VolumeSnapshotClass'' ''class''))"
proof -
  let ?st = "newFakeClient [KVG new_group]"
  have 1: "stored_groups (cluster (start ?st [])) (NN ''ns'' ''vg'') = Some new_group"
    and 2: "refusal healthy example_driver (r_DriverName (controller healthy)) (nnName (NN ''ns'' ''vg''))
      new_group (cluster (start ?st [])) = Some (newNotFound ''snapshot.storage.k8s.io'' ''VolumeSnapshotClass'' ''class'')"
    by code_simp+
  have "wf_store (cluster (start ?st []))" by (simp add: wf_newFakeClient)
  moreover have "deletion_is_zero new_group" "status_Status (vg_Status new_group) = []"
    "spec_PvcLabel (vg_Spec new_group) = []"
    by (simp_all add: new_group_def example_group_def empty_vg_def deletion_is_zero_def
        empty_status_def empty_spec_def)
  ultimately show ?thesis
    using creation_refused [OF _ 1 _ _ _ _ 2] by (auto simp del: fake_simps)
qed

end
