(* ===== verification/TestObjects.thy ===== *)
theory TestObjects
  imports Refusal
begin

text \<open>
  The object builders the tests share, \<^verbatim>\<open>test/shared/common/common.go\<close>, and what the controller
  reads from a cluster made of one group and any classes, volumes and claims.
\<close>

section \<open>Building objects\<close>

definition makePV :: "string \<Rightarrow> string \<Rightarrow> string \<Rightarrow> pv" where
  "makePV name driverName srcVolID =
     \<lparr>pv_Name = name, pv_CSI = Some (driverName, srcVolID), pv_Phase = VolumeBound\<rparr>"

definition makePVC :: "string \<Rightarrow> string \<Rightarrow> string \<Rightarrow> (string \<times> string) list \<Rightarrow> pvc" where
  "makePVC name ns volumeName lbl =
     \<lparr>pvc_Name = name, pvc_Namespace = ns, pvc_Labels = lbl, pvc_VolumeName = volumeName,
      pvc_Phase = ClaimBound\<rparr>"

definition makeVSC :: "string \<Rightarrow> string \<Rightarrow> vsclass" where
  "makeVSC name driver =
     \<lparr>sc_Name = name, sc_Driver = driver, sc_DeletionPolicy = VolumeSnapshotContentDelete\<rparr>"

definition makeVSCRetain :: "string \<Rightarrow> string \<Rightarrow> vsclass" where
  "makeVSCRetain name driver =
     \<lparr>sc_Name = name, sc_Driver = driver, sc_DeletionPolicy = VolumeSnapshotContentRetain\<rparr>"

definition makeVG ::
  "string \<Rightarrow> string \<Rightarrow> string \<Rightarrow> string \<Rightarrow> string \<Rightarrow> string \<Rightarrow> string list option \<Rightarrow> vg" where
  "makeVG name ns driver pvcLabel vsc reclaimPolicy pvcList =
     empty_vg\<lparr>vg_Name := name, vg_Namespace := ns,
       vg_Spec := \<lparr>spec_DriverName = driver, spec_MemberReclaimPolicy = reclaimPolicy,
         spec_Volumesnapshotclass = vsc, spec_PvcLabel = pvcLabel, spec_PvcList = pvcList,
         spec_Timeout = 90\<rparr>\<rparr>"

section \<open>Clusters\<close>

definition cluster_of :: "vg \<Rightarrow> vsclass list \<Rightarrow> pv list \<Rightarrow> pvc list \<Rightarrow> kobj list" where
  "cluster_of v scs pvs pvcs = KVG v # map KClass scs @ map KPV pvs @ map KPVC pvcs"

definition distinct_names :: "vsclass list \<Rightarrow> pv list \<Rightarrow> pvc list \<Rightarrow> bool" where
  "distinct_names scs pvs pvcs \<longleftrightarrow> distinct (map sc_Name scs) \<and> distinct (map pv_Name pvs)
     \<and> distinct (map (\<lambda>c. (pvc_Namespace c, pvc_Name c)) pvcs)"

text \<open>A store of objects with distinct keys lists them in order.\<close>

lemma newFakeClient_distinct:
  assumes "distinct (map getKey objs)"
  shows "newFakeClient objs = map (\<lambda>ob. (getKey ob, ob)) objs"
proof -
  have upd: "k \<notin> fst ` set st \<Longrightarrow> AList.update k x st = st @ [(k, x)]" for k :: StorageKey and x :: kobj and st
    by (induction st) auto
  have "distinct (map getKey objs) \<Longrightarrow> getKey ` set objs \<inter> fst ` set st = {} \<Longrightarrow>
      fold (\<lambda>ob. AList.update (getKey ob) ob) objs st = st @ map (\<lambda>ob. (getKey ob, ob)) objs" for st
    by (induction objs arbitrary: st) (simp_all add: upd)
  from this [of "[]"] assms show ?thesis by (simp add: newFakeClient_def)
qed

lemma map_of_keyed:
  "distinct (map getKey objs) \<Longrightarrow> ob \<in> set objs \<Longrightarrow>
     map_of (map (\<lambda>ob. (getKey ob, ob)) objs) (getKey ob) = Some ob"
  by (rule map_of_is_SomeI) (simp_all add: comp_def)

lemma cluster_keys:
  assumes "distinct_names scs pvs pvcs"
  shows "distinct (map getKey (cluster_of v scs pvs pvcs))"
proof -
  have "distinct (map (\<lambda>c. SK [] (sc_Name c) ''VolumeSnapshotClass'') scs)"
    "distinct (map (\<lambda>c. SK [] (pv_Name c) ''PersistentVolume'') pvs)"
    "distinct (map (\<lambda>c. SK (pvc_Namespace c) (pvc_Name c) ''PersistentVolumeClaim'') pvcs)"
    using assms by (auto simp: distinct_names_def distinct_map inj_on_def)
  then show ?thesis by (auto simp: cluster_of_def getKey_def comp_def)
qed

lemma cluster_store:
  "distinct_names scs pvs pvcs \<Longrightarrow> newFakeClient (cluster_of v scs pvs pvcs) =
     map (\<lambda>ob. (getKey ob, ob)) (cluster_of v scs pvs pvcs)"
  by (rule newFakeClient_distinct [OF cluster_keys])

lemma cluster_get:
  "distinct_names scs pvs pvcs \<Longrightarrow> ob \<in> set (cluster_of v scs pvs pvcs) \<Longrightarrow>
     map_of (newFakeClient (cluster_of v scs pvs pvcs)) (getKey ob) = Some ob"
  unfolding cluster_store by (rule map_of_keyed [OF cluster_keys])

lemma cluster_missing:
  "distinct_names scs pvs pvcs \<Longrightarrow> k \<notin> getKey ` set (cluster_of v scs pvs pvcs) \<Longrightarrow>
     map_of (newFakeClient (cluster_of v scs pvs pvcs)) k = None"
  unfolding cluster_store by (simp add: map_of_eq_None_iff image_image)

text \<open>What the controller reads from a cluster.\<close>

lemma cluster_group:
  "distinct_names scs pvs pvcs \<Longrightarrow>
     stored_groups (newFakeClient (cluster_of v scs pvs pvcs)) (NN (vg_Namespace v) (vg_Name v)) = Some v"
  using cluster_get [of scs pvs pvcs "KVG v" v]
  by (simp add: stored_groups_def cluster_of_def getKey_def)

lemma cluster_empty:
  assumes "distinct_names scs pvs pvcs"
  shows "stored_snaps (newFakeClient (cluster_of v scs pvs pvcs)) = (\<lambda>_. None)"
    "stored_contents (newFakeClient (cluster_of v scs pvs pvcs)) = (\<lambda>_. None)"
proof -
  have "SK x y ''VolumeSnapshot'' \<notin> getKey ` set (cluster_of v scs pvs pvcs)"
    "SK x y ''VolumeSnapshotContent'' \<notin> getKey ` set (cluster_of v scs pvs pvcs)" for x y
    by (auto simp: cluster_of_def getKey_def)
  note cluster_missing [OF assms this(1)] cluster_missing [OF assms this(2)]
  then show "stored_snaps (newFakeClient (cluster_of v scs pvs pvcs)) = (\<lambda>_. None)"
    "stored_contents (newFakeClient (cluster_of v scs pvs pvcs)) = (\<lambda>_. None)"
    by (simp_all add: stored_snaps_def stored_contents_def fun_eq_iff)
qed

lemma cluster_class:
  assumes "distinct_names scs pvs pvcs"
  shows "sc \<in> set scs \<Longrightarrow>
      class_table cfg (newFakeClient (cluster_of v scs pvs pvcs)) (NN [] (sc_Name sc)) = Inr sc"
    "n \<notin> sc_Name ` set scs \<Longrightarrow>
      class_table cfg (newFakeClient (cluster_of v scs pvs pvcs)) (NN [] n)
        = Inl (fc_NewNotFound cfg ''snapshot.storage.k8s.io'' ''VolumeSnapshotClass'' n)"
proof -
  show "sc \<in> set scs \<Longrightarrow>
      class_table cfg (newFakeClient (cluster_of v scs pvs pvcs)) (NN [] (sc_Name sc)) = Inr sc"
    using cluster_get [OF assms, of "KClass sc" v]
    by (simp add: class_table_def fakeGet_def no_failures_def cluster_of_def getKey_def)
  show "class_table cfg (newFakeClient (cluster_of v scs pvs pvcs)) (NN [] n)
        = Inl (fc_NewNotFound cfg ''snapshot.storage.k8s.io'' ''VolumeSnapshotClass'' n)"
    if "n \<notin> sc_Name ` set scs"
  proof -
    have "SK [] n ''VolumeSnapshotClass'' \<notin> getKey ` set (cluster_of v scs pvs pvcs)"
      using that by (auto simp: cluster_of_def getKey_def)
    from cluster_missing [OF assms this] show ?thesis
      by (simp add: class_table_def fakeGet_def no_failures_def)
  qed
qed

lemma cluster_volume:
  assumes "distinct_names scs pvs pvcs"
  shows "p \<in> set pvs \<Longrightarrow>
      volume_table cfg (newFakeClient (cluster_of v scs pvs pvcs)) (NN [] (pv_Name p)) = Inr p"
    "n \<notin> pv_Name ` set pvs \<Longrightarrow>
      volume_table cfg (newFakeClient (cluster_of v scs pvs pvcs)) (NN [] n)
        = Inl (fc_NewNotFound cfg [] ''PersistentVolume'' n)"
proof -
  show "p \<in> set pvs \<Longrightarrow>
      volume_table cfg (newFakeClient (cluster_of v scs pvs pvcs)) (NN [] (pv_Name p)) = Inr p"
    using cluster_get [OF assms, of "KPV p" v]
    by (simp add: volume_table_def fakeGet_def no_failures_def cluster_of_def getKey_def)
  show "volume_table cfg (newFakeClient (cluster_of v scs pvs pvcs)) (NN [] n)
        = Inl (fc_NewNotFound cfg [] ''PersistentVolume'' n)"
    if "n \<notin> pv_Name ` set pvs"
  proof -
    have "SK [] n ''PersistentVolume'' \<notin> getKey ` set (cluster_of v scs pvs pvcs)"
      using that by (auto simp: cluster_of_def getKey_def)
    from cluster_missing [OF assms this] show ?thesis
      by (simp add: volume_table_def fakeGet_def no_failures_def)
  qed
qed

text \<open>
  A client configuration under which lists do not fail and the library behaves as documented: the
  string of a selector of one label, and the error for an object that is not found, whose name
  \<open>%q\<close> renders between quotes.
\<close>

definition plain_name :: "string \<Rightarrow> bool" where
  "plain_name n \<longleftrightarrow> list_all (\<lambda>c. c \<in> set ''abcdefghijklmnopqrstuvwxyz0123456789-.'') n"

definition documented :: "fakecfg \<Rightarrow> bool" where
  "documented cfg \<longleftrightarrow> fc_ShouldFailList cfg = (\<lambda>_. None)
     \<and> (\<forall>k l. fc_SelectorString cfg [(k, l)] = k @ ''='' @ l)
     \<and> (\<forall>g k n. plain_name n \<longrightarrow> fc_NewNotFound cfg g k n = newNotFound g k n)"

lemma documented_healthy: "documented healthy"
  by (simp add: documented_def healthy_def)

text \<open>Claims with one label each are listed if the label is the one asked for.\<close>

lemma cluster_listed:
  assumes "distinct_names scs pvs pvcs" and "documented cfg"
    and "\<And>c. c \<in> set pvcs \<Longrightarrow> pvc_Namespace c = ns \<and> pvc_Labels c = [(''volume-group'', label)]"
  shows "claim_lists cfg (newFakeClient (cluster_of v scs pvs pvcs))
       \<lparr>lo_Namespace = ns, lo_Labels = Some [(''volume-group'', l)]\<rparr> = Inr (if l = label then pvcs else [])"
proof -
  let ?cfg = "no_failures cfg\<lparr>fc_Recode := Inr\<rparr>"
  let ?lo = "\<lparr>lo_Namespace = ns, lo_Labels = Some [(''volume-group'', l)]\<rparr>"
  let ?keyed = "map (\<lambda>ob. (getKey ob, ob))"
  have app: "listPersistentVolumeClaim ?cfg ?lo (st @ st') =
      listPersistentVolumeClaim ?cfg ?lo st @ listPersistentVolumeClaim ?cfg ?lo st'" for st st'
    by (simp add: listPersistentVolumeClaim_def)
  have other: "listPersistentVolumeClaim ?cfg ?lo (?keyed (map KClass scs)) = []"
    "listPersistentVolumeClaim ?cfg ?lo (?keyed (map KPV pvs)) = []"
    "listPersistentVolumeClaim ?cfg ?lo (?keyed [KVG v]) = []"
    by (simp_all add: listPersistentVolumeClaim_def comp_def)
  have claims: "listPersistentVolumeClaim ?cfg ?lo (?keyed (map KPVC pvcs)) = (if l = label then pvcs else [])"
    using assms(2,3)
    by (induction pvcs) (auto simp: listPersistentVolumeClaim_def documented_def no_failures_def)
  have "newFakeClient (cluster_of v scs pvs pvcs) =
      ?keyed [KVG v] @ ?keyed (map KClass scs) @ ?keyed (map KPV pvs) @ ?keyed (map KPVC pvcs)"
    unfolding cluster_store [OF assms(1)] by (simp add: cluster_of_def)
  then have "listPersistentVolumeClaim ?cfg ?lo (newFakeClient (cluster_of v scs pvs pvcs)) =
      (if l = label then pvcs else [])"
    by (simp only: app other claims append_Nil)
  with assms(2) show ?thesis
    by (simp add: claim_lists_def fakeList_def no_failures_def documented_def)
qed

section \<open>Volumes with their claims\<close>

text \<open>Claim names with the volume handles behind them; every claim carries the same label.\<close>

definition makePVs :: "string \<Rightarrow> (string \<times> string) list \<Rightarrow> pv list" where
  "makePVs drv vols = map (\<lambda>x. makePV (''pv-'' @ fst x) drv (snd x)) vols"

definition makePVCs :: "string \<Rightarrow> string \<Rightarrow> (string \<times> string) list \<Rightarrow> pvc list" where
  "makePVCs ns label vols =
     map (\<lambda>x. makePVC (fst x) ns (''pv-'' @ fst x) [(''volume-group'', label)]) vols"

lemma present_claim:
  assumes "tab (NN [] (''pv-'' @ c)) = Inr (makePV (''pv-'' @ c) drv h)"
  shows "claim_problem tab sys (makePVC c ns (''pv-'' @ c) lbl) =
      (if parseVolumeHandle drv h = sys then None else Some (Ret (Inl (different_systems sys))))"
    "reference_system tab (makePVC c ns (''pv-'' @ c) lbl # cs) = parseVolumeHandle drv h"
  using assms
  by (simp_all add: claim_problem_def reference_system_def bound_claim_def claim_array_def makePVC_def makePV_def)

section \<open>The error switches of the tests\<close>

text \<open>\<open>ShouldFail\<close> of the test suite, the error injector behind the client, with the switches that
  turn its errors on.\<close>

record switches =
  createVcError :: bool
  createVsError :: bool
  updateVcError :: bool
  updateVgError :: bool

definition suiteShouldFail :: "switches \<Rightarrow> string \<Rightarrow> kobj \<Rightarrow> error option" where
  "suiteShouldFail sw method obj =
     (case obj of
        KVG v \<Rightarrow>
          if method = ''Update'' \<and> updateVgError sw then Some (errorf ''unable to update VG'') else None
      | KSnap vs \<Rightarrow>
          if method = ''Create'' \<and> createVsError sw
          then (if str_contains (vs_Name vs) ''-1-'' then Some (errorf ''unable to create Volsnap'') else None)
          else None
      | KContent vsc \<Rightarrow>
          if method = ''Create'' \<and> createVcError sw
          then (if str_contains (or_Name (vc_SnapshotRef vsc)) ''-1-''
                then Some (errorf ''unable to create VolsnapContent'') else None)
          else if method = ''Update'' \<and> updateVcError sw
          then Some (errorf ''unable to update VolsnapContent'')
          else None
      | _ \<Rightarrow> None)"

definition suite_client :: "switches \<Rightarrow> fakecfg" where
  "suite_client sw = healthy\<lparr>fc_ShouldFail := suiteShouldFail sw\<rparr>"

text \<open>Without the switches for updates only creations fail.\<close>

lemma suite_refuses:
  assumes "\<not> updateVcError sw" and "\<not> updateVgError sw"
  shows "suite_client sw = refusing (suiteShouldFail sw ''Create'') healthy"
  using assms
  by (auto simp: suite_client_def refusing_def healthy_def suiteShouldFail_def fun_eq_iff split: kobj.split)

lemma suite_calm:
  assumes "\<not> createVcError sw" and "\<not> createVsError sw" and "\<not> updateVcError sw" and "\<not> updateVgError sw"
  shows "suite_client sw = no_failures healthy"
  using assms
  by (auto simp: suite_client_def no_failures_def healthy_def suiteShouldFail_def fun_eq_iff split: kobj.split)

section \<open>The check of error messages\<close>

text \<open>\<open>theErrorMessageShouldContain\<close>: the regular expression \<open>"(.*)"\<close> takes the first and the last
  quote off each line that has two; the step fails with an error, or passes and forgets the errors.\<close>

definition unquoteLine :: "string \<Rightarrow> string" where
  "unquoteLine l =
     (if count_list l (CHR 0x22) < 2 then l
      else rev (remove1 (CHR 0x22) (rev (remove1 (CHR 0x22) l))))"

definition gotError :: "string \<Rightarrow> string" where
  "gotError msg = join_with (CHR 0x0A) (map unquoteLine (split_on (CHR 0x0A) msg))"

definition theErrorMessageShouldContain :: "string \<Rightarrow> error list \<Rightarrow> error option \<times> error list" where
  "theErrorMessageShouldContain expected errs =
     (if expected = ''none''
      then (case errs of
              [] \<Rightarrow> (None, errs)
            | err # _ \<Rightarrow> (Some (errorf (''unexpected error(s): '' @ errText err)), errs))
      else if errs = []
      then (Some (errorf (''there were no errors but we expected: '' @ expected)), errs)
      else if list_ex (\<lambda>err. str_contains (gotError (errText err)) expected) errs
      then (None, [])
      else (Some (errorf (''error '' @ expected @ '' expected message not found'')), errs))"

lemma unquoteLine_prefix:
  "CHR 0x22 \<notin> set p \<Longrightarrow> unquoteLine (p @ l) = p @ unquoteLine l"
proof -
  assume p: "CHR 0x22 \<notin> set p"
  have "rev (remove1 (CHR 0x22) (rev (p @ l'))) = p @ rev (remove1 (CHR 0x22) (rev l'))" for l'
    using p by (simp add: remove1_append remove1_idem)
  with p show ?thesis
    by (simp add: unquoteLine_def remove1_append)
qed

lemma gotError_prefix:
  assumes "CHR 0x22 \<notin> set p" and "CHR 0x0A \<notin> set p"
  shows "gotError (p @ msg) = p @ gotError msg"
proof -
  obtain q qs where q: "split_on (CHR 0x0A) msg = q # qs"
    by (cases "split_on (CHR 0x0A) msg") auto
  have "split_on (CHR 0x0A) (p @ msg) = (p @ q) # qs"
    using assms(2) by (induction p) (auto simp: q)
  then show ?thesis
    using assms(1) by (cases qs) (simp_all add: gotError_def q unquoteLine_prefix)
qed

text \<open>A quoted word loses its quotes.\<close>

lemma gotError_quoted:
  assumes "CHR 0x22 \<notin> set p \<union> set n \<union> set t" and "CHR 0x0A \<notin> set p \<union> set n \<union> set t"
  shows "gotError (p @ quotedName n @ t) = p @ n @ t"
proof -
  have "split_on (CHR 0x0A) (quotedName n @ t) = [quotedName n @ t]"
    using assms(2) by (intro split_on_none) (simp add: quotedName_def)
  moreover have "unquoteLine (quotedName n @ t) = n @ t"
    using assms(1) by (simp add: unquoteLine_def quotedName_def remove1_append remove1_idem)
  ultimately have "gotError (quotedName n @ t) = n @ t" by (simp add: gotError_def)
  with assms show ?thesis by (simp add: gotError_prefix)
qed

lemma message_in:
  assumes "str_contains (gotError (errText err)) expected" and "expected \<noteq> ''none''"
  shows "theErrorMessageShouldContain expected [err] = (None, [])"
  unfolding theErrorMessageShouldContain_def using assms by (simp del: str_contains.simps)

lemma message_found:
  assumes "str_contains p expected" and "CHR 0x22 \<notin> set p" and "CHR 0x0A \<notin> set p" and "expected \<noteq> ''none''"
  shows "theErrorMessageShouldContain expected [errorf (p @ rest)] = (None, [])"
proof (rule message_in)
  show "str_contains (gotError (errText (errorf (p @ rest)))) expected"
    unfolding errText_errorf gotError_prefix [OF assms(2,3)] by (rule str_contains_append [OF assms(1)])
qed (rule assms(4))

text \<open>The error for a missing object, as the tests expect it.\<close>

lemma not_found_message:
  assumes "plain_name n" and "CHR 0x22 \<notin> set res" and "CHR 0x0A \<notin> set res" and "length res > 4"
  shows "theErrorMessageShouldContain (res @ '' '' @ n @ '' not found'') [Error r (res @ '' '' @ quotedName n @ '' not found'')]
    = (None, [])"
proof -
  have "c \<notin> set n" if "c \<notin> set ''abcdefghijklmnopqrstuvwxyz0123456789-.''" for c
    using assms(1) that unfolding plain_name_def list_all_iff by blast
  from this [of "CHR 0x22"] this [of "CHR 0x0A"] have n: "CHR 0x22 \<notin> set n" "CHR 0x0A \<notin> set n"
    by simp_all
  have "gotError ((res @ '' '') @ quotedName n @ '' not found'') = (res @ '' '') @ n @ '' not found''"
    by (rule gotError_quoted) (use assms(2,3) n in auto)
  then have got: "gotError (res @ '' '' @ quotedName n @ '' not found'') = res @ '' '' @ n @ '' not found''"
    by simp
  have "length (res @ '' '' @ n @ '' not found'') \<noteq> length ''none''"
    using assms(4) by simp
  then have "res @ '' '' @ n @ '' not found'' \<noteq> ''none''" by metis
  moreover have "str_contains s s" for s
    unfolding str_contains_iff by (metis append_Nil append_Nil2)
  ultimately show ?thesis by (intro message_in) (simp_all only: error.sel got simp_thms)
qed

end
