(* ===== verification/Scenarios.thy ===== *)
theory Scenarios
  imports TestObjects
begin

text \<open>
  The happy path of the integration test \<^verbatim>\<open>test/integration-test/features/vg.feature\<close> ("I Call Test
  Create VG", "I Call Test Delete VG") on a cluster made by the builders the tests share, for any
  number of volumes.
\<close>

section \<open>The cluster of a scenario\<close>

definition scenario_objects ::
  "string \<Rightarrow> string \<Rightarrow> string \<Rightarrow> string \<Rightarrow> string \<Rightarrow> (string \<times> string) list \<Rightarrow> kobj list" where
  "scenario_objects ns name label drv cls vols =
     cluster_of (makeVG name ns drv label cls MemberReclaimDelete None) [makeVSC cls drv]
       (makePVs drv vols) (makePVCs ns label vols)"

definition scenario_controller :: "string \<Rightarrow> store reconciler" where
  "scenario_controller drv = (controller healthy)\<lparr>r_DriverName := drv\<rparr>"

definition usable_volumes :: "string \<Rightarrow> string \<Rightarrow> (string \<times> string) list \<Rightarrow> bool" where
  "usable_volumes drv sys vols \<longleftrightarrow> vols \<noteq> [] \<and> distinct (map fst vols) \<and> distinct (map snd vols)
     \<and> list_all (\<lambda>x. CHR '','' \<notin> set (fst x) \<and> parseVolumeHandle drv (snd x) = sys) vols"

lemma scenario_names:
  "distinct (map fst vols) \<Longrightarrow> distinct_names [makeVSC cls drv] (makePVs drv vols) (makePVCs ns label vols)"
  by (simp add: distinct_names_def makePVs_def makePVCs_def makePV_def makePVC_def comp_def distinct_map
      inj_on_def)

section \<open>The volumes of the group\<close>

lemma scenario_claims:
  assumes "distinct (map fst vols)" and "vols \<noteq> []" and "label \<noteq> []"
  shows "chosen_claims healthy (newFakeClient (scenario_objects ns name label drv cls vols))
       (makeVG name ns drv label cls MemberReclaimDelete None) = Inr (makePVCs ns label vols)"
proof -
  have "claim_lists healthy (newFakeClient (scenario_objects ns name label drv cls vols))
      \<lparr>lo_Namespace = ns, lo_Labels = Some [(''volume-group'', label)]\<rparr> =
      Inr (if label = label then makePVCs ns label vols else [])"
    unfolding scenario_objects_def
    by (rule cluster_listed [OF scenario_names [OF assms(1)] documented_healthy]) (auto simp: makePVCs_def makePVC_def)
  moreover have "makePVCs ns label vols \<noteq> []" using assms(2) by (simp add: makePVCs_def)
  ultimately show ?thesis
    using assms(3)
    by (simp add: chosen_claims_def wanted_claims_def makeVG_def listed_def empty_vg_def)
qed

definition scenario_map :: "(string \<times> string) list \<Rightarrow> volmap" where
  "scenario_map vols = map (\<lambda>x. (snd x, fst x)) vols"

text \<open>What the controller reads: the volumes, the group and its class; no snapshot and no content.\<close>

lemma scenario_volume:
  assumes "distinct (map fst vols)" and "x \<in> set vols"
  shows "volume_table healthy (newFakeClient (scenario_objects ns name label drv cls vols))
      (NN [] (''pv-'' @ fst x)) = Inr (makePV (''pv-'' @ fst x) drv (snd x))"
  using cluster_volume(1) [OF scenario_names [OF assms(1)], of "makePV (''pv-'' @ fst x) drv (snd x)" drv] assms(2)
  by (simp add: scenario_objects_def makePVs_def) (simp add: makePV_def)

lemma scenario_stored:
  assumes "distinct (map fst vols)"
    and st_def: "st = newFakeClient (scenario_objects ns name label drv cls vols)"
  shows "stored_groups st (NN ns name) = Some (makeVG name ns drv label cls MemberReclaimDelete None)"
    "stored_classes st cls = Some (makeVSC cls drv)"
    "stored_snaps st = (\<lambda>_. None)" "stored_contents st = (\<lambda>_. None)"
proof -
  note names = scenario_names [OF assms(1), of cls drv ns label]
  show "stored_groups st (NN ns name) = Some (makeVG name ns drv label cls MemberReclaimDelete None)"
    using cluster_group [OF names, of "makeVG name ns drv label cls MemberReclaimDelete None"]
    by (simp add: st_def scenario_objects_def) (simp add: makeVG_def)
  show "stored_classes st cls = Some (makeVSC cls drv)"
    using cluster_get [OF names, of "KClass (makeVSC cls drv)" "makeVG name ns drv label cls MemberReclaimDelete None"]
    by (simp add: st_def scenario_objects_def stored_classes_def getKey_def cluster_of_def makeVSC_def)
  show "stored_snaps st = (\<lambda>_. None)" "stored_contents st = (\<lambda>_. None)"
    unfolding st_def scenario_objects_def by (rule cluster_empty [OF names])+
qed

lemma scenario_bound_claims:
  assumes "\<And>x. x \<in> set vols \<Longrightarrow> tab (NN [] (''pv-'' @ fst x)) = Inr (makePV (''pv-'' @ fst x) drv (snd x))"
  shows "bound_claims tab (makePVCs ns label vols) = map (\<lambda>x. (drv, snd x, fst x)) vols"
  using assms by (induction vols) (simp_all add: bound_claim_def makePVCs_def makePVC_def makePV_def)

lemma fold_update_fresh:
  assumes "distinct (map snd vols)"
  shows "fold (\<lambda>x. AList.update (snd x) (fst x)) vols [] = scenario_map vols"
proof -
  have upd: "k \<notin> fst ` set m \<Longrightarrow> AList.update k x m = m @ [(k, x)]" for k x :: string and m
    by (induction m) auto
  have "distinct (map snd vols) \<Longrightarrow> snd ` set vols \<inter> fst ` set m = {} \<Longrightarrow>
      fold (\<lambda>x. AList.update (snd x) (fst x)) vols m = m @ scenario_map vols" for m
    by (induction vols arbitrary: m) (simp_all add: upd scenario_map_def)
  from this [of "[]"] assms show ?thesis by simp
qed

lemma scenario_volumes:
  assumes "usable_volumes drv sys vols" and "label \<noteq> []"
  shows "chosen_volumes healthy (newFakeClient (scenario_objects ns name label drv cls vols))
       (makeVG name ns drv label cls MemberReclaimDelete None)
     = Ret (Inr (map snd vols, scenario_map vols))"
proof -
  let ?st = "newFakeClient (scenario_objects ns name label drv cls vols)"
  let ?tab = "volume_table healthy ?st"
  let ?pvcs = "makePVCs ns label vols"
  from assms(1) have d: "distinct (map fst vols)" "distinct (map snd vols)" "vols \<noteq> []"
    and sys: "\<And>x. x \<in> set vols \<Longrightarrow> parseVolumeHandle drv (snd x) = sys"
    by (auto simp: usable_volumes_def list_all_iff)
  note tab = scenario_volume [OF d(1), of _ ns name label drv cls]
  have bound: "bound_claims ?tab ?pvcs = map (\<lambda>x. (drv, snd x, fst x)) vols"
    by (rule scenario_bound_claims [OF tab])
  have "reference_system ?tab ?pvcs = sys"
    using d(3) sys present_claim(2) [of ?tab, OF tab]
    by (cases vols) (simp_all add: makePVCs_def)
  moreover have "claim_problem ?tab sys c = None" if "c \<in> set ?pvcs" for c
    using that sys present_claim(1) [of ?tab, OF tab] by (auto simp: makePVCs_def)
  then have "List.map_filter (claim_problem ?tab sys) ?pvcs = []"
    by (simp add: List.map_filter_def filter_empty_conv)
  ultimately have "select_sources ?tab ?pvcs = Ret (Inr (map snd vols, scenario_map vols))"
    using bound d fold_update_fresh [OF d(2)]
    by (simp add: select_sources_def first_problem_def collect_def Let_def comp_def fold_map)
  then show ?thesis
    using scenario_claims [OF d(1,3) assms(2), of ns name drv cls] by (simp add: chosen_volumes_def)
qed

section \<open>The objects of the answer\<close>

definition scenario_answer :: "string \<Rightarrow> (string \<times> string) list \<Rightarrow> vgsresponse" where
  "scenario_answer name vols = projr (example_driver name (sort (map snd vols)) [])"

text \<open>The claim behind a volume.\<close>

definition claim_of :: "(string \<times> string) list \<Rightarrow> string \<Rightarrow> string" where
  "claim_of vols h = map_get (map_of (scenario_map vols)) h"

lemma claim_of:
  assumes "distinct (map snd vols)" and "x \<in> set vols"
  shows "claim_of vols (snd x) = fst x"
proof -
  have "map_of (scenario_map vols) (snd x) = Some (fst x)"
    using assms by (intro map_of_is_SomeI) (auto simp: scenario_map_def comp_def)
  then show ?thesis by (simp add: claim_of_def map_get_def)
qed

lemma scenario_memberName:
  assumes "s \<in> set (res_Snapshots (scenario_answer name vols))"
  shows "memberName (makeVG name ns drv label cls rp pl) (scenario_map vols) s =
     name @ ''-'' @ claim_of vols (snap_SourceId s)"
  using assms
  by (auto simp: scenario_answer_def example_driver_def memberName_def claim_of_def makeVG_def Let_def)

lemma planned_contents:
  "map (vc_Name \<circ> snd) (planned r v sc vm k ss) =
     map (\<lambda>i. ''snapcontent-'' @ r_NewUUID r i) [k..<k + length ss]"
  by (induction ss arbitrary: k) (simp_all add: Let_def makeVolSnapContent_def upt_conv_Cons del: upt_Suc)

lemma scenario_reference:
  "\<not> isl (GetReference (calm healthy example_driver (scenario_controller drv)) (snap_obj x))"
  by (simp add: GetReference_def snap_obj_def referenceKind_def fake_reconciler_def
      scenario_controller_def example_reconciler_def)

lemma scenario_creatable:
  assumes "usable_volumes drv sys vols"
  defines "r \<equiv> calm healthy example_driver (scenario_controller drv)"
  shows "creatable r (newFakeClient (scenario_objects ns name label drv cls vols))
     (planned r (makeVG name ns drv label cls MemberReclaimDelete None) sc (scenario_map vols) 0
       (res_Snapshots (scenario_answer name vols)))"
proof -
  let ?v = "makeVG name ns drv label cls MemberReclaimDelete None"
  let ?ss = "res_Snapshots (scenario_answer name vols)"
  let ?plan = "planned r ?v sc (scenario_map vols) 0 ?ss"
  from assms(1) have d: "distinct (map fst vols)" "distinct (map snd vols)"
    by (simp_all add: usable_volumes_def)
  have "inj_on (claim_of vols) (snd ` set vols)"
    using d claim_of [OF d(2)] by (auto simp: inj_on_def distinct_map)
  moreover have ids: "map snap_SourceId ?ss = sort (map snd vols)"
    by (simp add: scenario_answer_def example_driver_def comp_def)
  ultimately have "distinct (map (claim_of vols) (map snap_SourceId ?ss))"
    using d by (simp add: distinct_map)
  then have "distinct (map (\<lambda>s. NN (vg_Namespace ?v) (memberName ?v (scenario_map vols) s)) ?ss)"
    by (auto simp: distinct_map inj_on_def scenario_memberName)
  then have keys: "distinct (map (snap_key \<circ> fst) ?plan)"
    by (simp add: planned_keys)
  have "inj (\<lambda>i. ''snapcontent-'' @ r_NewUUID r i)"
    by (auto simp: inj_on_def r_def fake_reconciler_def scenario_controller_def example_reconciler_def
        dest: arg_cong [of _ _ length])
  then have "distinct (map (vc_Name \<circ> snd) ?plan)"
    unfolding planned_contents distinct_map by (blast intro: distinct_upt inj_on_subset)
  with keys show ?thesis
    using scenario_stored(3,4) [OF d(1) refl] scenario_reference
    by (auto simp: creatable_def r_def)
qed

section \<open>The happy path\<close>

lemma scenario_ready:
  assumes "usable_volumes drv sys vols" and "label \<noteq> []" and "CHR '','' \<notin> set name"
  shows "ready_to_create healthy example_driver (scenario_controller drv) (NN ns name)
     (makeVG name ns drv label cls MemberReclaimDelete None) (makeVSC cls drv) (map snd vols)
     (scenario_map vols) (scenario_answer name vols)
     (planned (calm healthy example_driver (scenario_controller drv))
        (makeVG name ns drv label cls MemberReclaimDelete None) (makeVSC cls drv) (scenario_map vols) 0
        (res_Snapshots (scenario_answer name vols)))
     (start (newFakeClient (scenario_objects ns name label drv cls vols)) ticks)"
proof -
  let ?v = "makeVG name ns drv label cls MemberReclaimDelete None"
  let ?objs = "scenario_objects ns name label drv cls vols"
  let ?st = "newFakeClient ?objs"
  from assms(1) have d: "distinct (map fst vols)" "distinct (map snd vols)"
    and free: "\<And>x. x \<in> set vols \<Longrightarrow> CHR '','' \<notin> set (fst x)"
    by (auto simp: usable_volumes_def list_all_iff)
  note stored = scenario_stored [OF d(1) refl, of ns name label drv cls]
  have "comma_free ?v (scenario_map vols) (scenario_answer name vols)"
    unfolding comma_free_def
  proof
    fix s assume s: "s \<in> set (res_Snapshots (scenario_answer name vols))"
    then obtain x where "x \<in> set vols" "snap_SourceId s = snd x"
      by (auto simp: scenario_answer_def example_driver_def)
    with free assms(3) claim_of [OF d(2)] scenario_memberName [OF s, of ns drv label cls]
    show "CHR '','' \<notin> set (memberName ?v (scenario_map vols) s)" by simp
  qed
  moreover have "example_driver name (sort (map snd vols)) ps = Inr (scenario_answer name vols)" for ps
    by (simp add: scenario_answer_def example_driver_def)
  moreover have "deletion_is_zero ?v" "status_Status (vg_Status ?v) = []" "spec_PvcList (vg_Spec ?v) = None"
    "spec_Volumesnapshotclass (vg_Spec ?v) = cls"
    by (simp_all add: makeVG_def empty_vg_def deletion_is_zero_def empty_status_def)
  moreover have "uuidCount (start ?st ticks) = 0" by (simp add: start_def)
  ultimately show ?thesis
    using stored scenario_volumes [OF assms(1,2)] scenario_creatable [OF assms(1)]
    by (simp add: ready_to_create_def wf_newFakeClient makeVSC_def scenario_controller_def del: fake_simps)
qed

lemma scenario_some:
  assumes "usable_volumes drv sys vols"
  shows "res_Snapshots (scenario_answer name vols) \<noteq> []"
proof -
  have "length (res_Snapshots (scenario_answer name vols)) = length vols"
    by (simp add: scenario_answer_def example_driver_def)
  moreover have "vols \<noteq> []" using assms by (simp add: usable_volumes_def)
  ultimately show ?thesis by auto
qed

text \<open>The names the group lists.\<close>

lemma scenario_members:
  assumes "usable_volumes drv sys vols" and "CHR '','' \<notin> set name"
    and "comma_free v (scenario_map vols) (scenario_answer name vols)"
    and "v = makeVG name ns drv label cls MemberReclaimDelete None"
  shows "member_names (created v (scenario_map vols) (scenario_answer name vols)) =
    map (\<lambda>h. name @ ''-'' @ claim_of vols h) (sort (map snd vols))"
proof -
  have ids: "map snap_SourceId (res_Snapshots (scenario_answer name vols)) = sort (map snd vols)"
    by (simp add: scenario_answer_def example_driver_def comp_def)
  from created_members [OF scenario_some [OF assms(1)] assms(3)]
  have "member_names (created v (scenario_map vols) (scenario_answer name vols)) =
      map (memberName v (scenario_map vols)) (res_Snapshots (scenario_answer name vols))" .
  also have "\<dots> = map (\<lambda>s. name @ ''-'' @ claim_of vols (snap_SourceId s))
      (res_Snapshots (scenario_answer name vols))"
    using scenario_memberName assms(4) by simp
  finally show ?thesis unfolding ids [symmetric] by (simp add: comp_def)
qed

section \<open>Properties\<close>

text \<open>C13: The happy path of the integration test, for any number of volumes. On a cluster with one
  bound claim and one volume of the driver for each volume, all on one system and with the label
  the group selects, creating the group succeeds and leaves it \<open>Complete\<close> with a member
  "group-claim" for each claim, in the order of the sorted volume ids; deleting it then succeeds
  and leaves no snapshot and no content.\<close>

lemma happy_path:
  assumes "usable_volumes drv sys vols" and "label \<noteq> []" and "CHR '','' \<notin> set name"
  shows "\<exists>w1 u st w2. run_state (reconcile (calm healthy example_driver (scenario_controller drv)) (NN ns name))
         (start (newFakeClient (scenario_objects ns name label drv cls vols)) [Tick]) = (Ret None, w1)
     \<and> stored_groups (cluster w1) (NN ns name) = Some u
     \<and> status_Status (vg_Status u) = EventStatusComplete
     \<and> member_names u = map (\<lambda>h. name @ ''-'' @ claim_of vols h) (sort (map snd vols))
     \<and> setDeletionTimeStamp now u (cluster w1) = (None, st)
     \<and> run_state (reconcile (calm healthy example_driver (scenario_controller drv)) (NN ns name))
         (start st []) = (Ret None, w2)
     \<and> stored_snaps (cluster w2) = (\<lambda>_. None) \<and> stored_contents (cluster w2) = (\<lambda>_. None)"
proof -
  let ?r = "calm healthy example_driver (scenario_controller drv)"
  let ?w = "start (newFakeClient (scenario_objects ns name label drv cls vols)) [Tick]"
  let ?v = "makeVG name ns drv label cls MemberReclaimDelete None"
  let ?u = "created ?v (scenario_map vols) (scenario_answer name vols)"
  note ready = scenario_ready [OF assms, of ns cls "[Tick]"]
  have free: "comma_free ?v (scenario_map vols) (scenario_answer name vols)"
    using ready by (simp add: ready_to_create_def)
  have "sc_DeletionPolicy (makeVSC cls drv) = VolumeSnapshotContentDelete" by (simp add: makeVSC_def)
  from calm_undone [OF ready _ scenario_some [OF assms(1)] this, of "[]" now "[]"] obtain w1 st w2
    where "run_state (reconcile ?r (NN ns name)) ?w = (Ret None, w1)"
      "stored_groups (cluster w1) (NN ns name) = Some ?u"
      "setDeletionTimeStamp now ?u (cluster w1) = (None, st)"
      "run_state (reconcile ?r (NN ns name)) (start st []) = (Ret None, w2)"
      "stored_snaps (cluster w2) = stored_snaps (cluster ?w)"
      "stored_contents (cluster w2) = stored_contents (cluster ?w)" by auto
  moreover have "status_Status (vg_Status ?u) = EventStatusComplete" by (simp add: created_def)
  moreover have "distinct (map fst vols)" using assms(1) by (simp add: usable_volumes_def)
  ultimately show ?thesis
    using scenario_members [OF assms(1,3) free refl] scenario_stored(3,4) [of vols, OF _ refl] by fastforce
qed

lemma happy_path_witness:
  "\<exists>w1. run_state (reconcile (calm healthy example_driver (scenario_controller ''csi-vxflexos'')) (NN ''ns'' ''vg''))
     (start (newFakeClient (scenario_objects ''ns'' ''vg'' ''vg-snap-label'' ''csi-vxflexos'' ''vsclass''
        [(''pvc2'', ''sys-2''), (''pvc1'', ''sys-1'')])) [Tick]) = (Ret None, w1)"
proof -
  have "usable_volumes ''csi-vxflexos'' ''sys'' [(''pvc2'', ''sys-2''), (''pvc1'', ''sys-1'')]"
    by code_simp
  from happy_path [OF this, of "''vg-snap-label''" "''vg''" "''ns''" "''vsclass''" 9] show ?thesis
    by auto
qed

end
