(* ===== verification/Mishaps.thy ===== *)
theory Mishaps
  imports Scenarios
begin

text \<open>
  The scenarios of \<^verbatim>\<open>test/integration-test/features/vg.feature\<close> in which something a group needs is
  not there: no snapshot class, a class of another driver, a label no claim has, a claim without
  its volume, a claim on another system. For any number of volumes, each ends with the error the
  feature expects. Source: the object builders of \<^verbatim>\<open>test/shared/common/common.go\<close> and the switches
  of \<^verbatim>\<open>test/integration-test/steps.go\<close>.
\<close>

section \<open>What is not there\<close>

datatype mishap =
    NoClass
  | OtherDriver string
  | WrongLabel string
  | NoVolume string
  | OtherSystem string string

text \<open>The label the group selects, the classes, the claims with their volume handles, and the
  volumes of a scenario.\<close>

fun selected_label :: "string \<Rightarrow> mishap \<Rightarrow> string" where
  "selected_label label (WrongLabel l) = l"
| "selected_label label m = label"

fun mishap_classes :: "string \<Rightarrow> string \<Rightarrow> mishap \<Rightarrow> vsclass list" where
  "mishap_classes cls drv NoClass = []"
| "mishap_classes cls drv (OtherDriver d) = [makeVSC cls d]"
| "mishap_classes cls drv m = [makeVSC cls drv]"

fun mishap_volumes :: "(string \<times> string) list \<Rightarrow> mishap \<Rightarrow> (string \<times> string) list" where
  "mishap_volumes vols (OtherSystem c h) = vols @ [(c, h)]"
| "mishap_volumes vols m = vols"

fun bound_volumes :: "(string \<times> string) list \<Rightarrow> mishap \<Rightarrow> (string \<times> string) list" where
  "bound_volumes vols (NoVolume c) = filter (\<lambda>x. fst x \<noteq> c) vols"
| "bound_volumes vols m = mishap_volumes vols m"

definition mishap_objects ::
  "string \<Rightarrow> string \<Rightarrow> string \<Rightarrow> string \<Rightarrow> string \<Rightarrow> (string \<times> string) list \<Rightarrow> mishap \<Rightarrow> kobj list" where
  "mishap_objects ns name label drv cls vols m =
     cluster_of (makeVG name ns drv (selected_label label m) cls MemberReclaimDelete None)
       (mishap_classes cls drv m) (makePVs drv (bound_volumes vols m))
       (makePVCs ns label (mishap_volumes vols m))"

fun mishap_possible ::
  "string \<Rightarrow> string \<Rightarrow> string \<Rightarrow> string \<Rightarrow> (string \<times> string) list \<Rightarrow> mishap \<Rightarrow> bool" where
  "mishap_possible drv sys label cls vols NoClass = plain_name cls"
| "mishap_possible drv sys label cls vols (OtherDriver d) = (d \<noteq> drv)"
| "mishap_possible drv sys label cls vols (WrongLabel l) = (l \<noteq> [] \<and> l \<noteq> label)"
| "mishap_possible drv sys label cls vols (NoVolume c) = (c \<in> fst ` set vols)"
| "mishap_possible drv sys label cls vols (OtherSystem c h) =
     (c \<notin> fst ` set vols \<and> parseVolumeHandle drv h \<noteq> sys)"

text \<open>The error of each scenario, and what \<^verbatim>\<open>vg.feature\<close> expects its message to contain.\<close>

fun mishap_error :: "string \<Rightarrow> string \<Rightarrow> mishap \<Rightarrow> error" where
  "mishap_error sys cls NoClass = newNotFound ''snapshot.storage.k8s.io'' ''VolumeSnapshotClass'' cls"
| "mishap_error sys cls (OtherDriver d) = driverMismatchError"
| "mishap_error sys cls (WrongLabel l) = no_label_claims l"
| "mishap_error sys cls (NoVolume c) = no_volume (''pv-'' @ c)"
| "mishap_error sys cls (OtherSystem c h) = different_systems sys"

fun expected_message :: "string \<Rightarrow> mishap \<Rightarrow> string" where
  "expected_message cls NoClass = ''VolumeSnapshotClass.snapshot.storage.k8s.io'' @ '' '' @ cls @ '' not found''"
| "expected_message cls (OtherDriver d) =
     ''VG Snapshotter vg create failed, VolumeSnapshotClass driver name does not match volumegroupsnapshotter''"
| "expected_message cls (WrongLabel l) = ''pvc with label missing''"
| "expected_message cls (NoVolume c) = ''unable to find pv''"
| "expected_message cls (OtherSystem c h) = ''systemIDs are different''"

lemma mishap_message:
  assumes "mishap_possible drv sys label cls vols m"
  shows "theErrorMessageShouldContain (expected_message cls m) [mishap_error sys cls m] = (None, [])"
proof (cases m)
  case NoClass
  have "qualifiedName ''snapshot.storage.k8s.io'' ''VolumeSnapshotClass''
      = ''VolumeSnapshotClass.snapshot.storage.k8s.io''"
    by (simp add: qualifiedName_def)
  moreover have "plain_name cls" using assms by (simp add: NoClass)
  ultimately show ?thesis
    unfolding NoClass mishap_error.simps expected_message.simps newNotFound_def
    by (simp only:) (rule not_found_message; simp)
next
  case (OtherDriver d)
  show ?thesis
    unfolding OtherDriver mishap_error.simps expected_message.simps driverMismatchError_def
    by (rule message_found [where rest = "[]", unfolded append_Nil2]) simp_all
next
  case (WrongLabel l)
  show ?thesis
    unfolding WrongLabel mishap_error.simps expected_message.simps no_label_claims_def
    by (rule message_found) simp_all
next
  case (NoVolume c)
  show ?thesis
    unfolding NoVolume mishap_error.simps expected_message.simps no_volume_def
    by (rule message_found) simp_all
next
  case (OtherSystem c h)
  show ?thesis
    unfolding OtherSystem mishap_error.simps expected_message.simps different_systems_def
    by (rule message_found) simp_all
qed

section \<open>Why each is refused\<close>

lemma mishap_names:
  assumes "distinct (map fst vols)" and "mishap_possible drv sys label cls' vols m"
  shows "distinct_names (mishap_classes cls drv m) (makePVs drv (bound_volumes vols m))
    (makePVCs ns label (mishap_volumes vols m))"
proof -
  have claims: "distinct (map fst (mishap_volumes vols m))" "distinct (map fst (bound_volumes vols m))"
    using assms by (cases m; auto simp: distinct_map_filter)+
  have "distinct (map sc_Name (mishap_classes cls drv m))" by (cases m) simp_all
  moreover have "distinct (map pv_Name (makePVs drv (bound_volumes vols m)))"
    using claims(2) by (simp add: makePVs_def makePV_def comp_def distinct_map inj_on_def)
  moreover have "distinct (map (\<lambda>c. (pvc_Namespace c, pvc_Name c)) (makePVCs ns label (mishap_volumes vols m)))"
    using claims(1) by (simp add: makePVCs_def makePVC_def comp_def distinct_map inj_on_def)
  ultimately show ?thesis by (simp add: distinct_names_def)
qed

text \<open>The first claim with a problem decides.\<close>

lemma problem_decides:
  assumes "\<And>x. x \<in> set xs \<Longrightarrow> tab (NN [] (''pv-'' @ fst x)) = Inr (makePV (''pv-'' @ fst x) drv (snd x))
      \<and> parseVolumeHandle drv (snd x) = sys"
    and "xs = [] \<Longrightarrow> (\<And>sys'. claim_problem tab sys' c = Some p)" and "claim_problem tab sys c = Some p"
  shows "select_sources tab (makePVCs ns label xs @ c # cs) = p"
proof (cases xs)
  case Nil
  with assms(2) show ?thesis by (simp add: select_sources_def makePVCs_def)
next
  case (Cons x ys)
  have "reference_system tab (makePVCs ns label xs @ c # cs) = sys"
    using assms(1) [of x] present_claim(2) by (simp add: Cons makePVCs_def)
  moreover have "first_problem tab sys (makePVCs ns label zs @ c # cs) = Some p"
    if "set zs \<subseteq> set xs" for zs
    using that
  proof (induction zs)
    case Nil
    then show ?case using assms(3) by (simp add: makePVCs_def)
  next
    case (Cons z zs)
    then have "claim_problem tab sys (makePVC (fst z) ns (''pv-'' @ fst z) [(''volume-group'', label)]) = None"
      using present_claim(1) [of tab "fst z" drv "snd z" sys ns] assms(1) [of z] by simp
    with Cons show ?case by (simp add: makePVCs_def)
  qed
  ultimately show ?thesis by (simp add: select_sources_def)
qed

lemma mishap_refused:
  assumes "usable_volumes drv sys vols" and "label \<noteq> []" and "mishap_possible drv sys label cls vols m"
    and "documented cfg"
    and "v = makeVG name ns drv (selected_label label m) cls MemberReclaimDelete None"
  shows "refusal cfg driver drv nm v (newFakeClient (mishap_objects ns name label drv cls vols m)) =
    Some (mishap_error sys cls m)"
proof -
  let ?scs = "mishap_classes cls drv m"
  let ?pvs = "makePVs drv (bound_volumes vols m)"
  let ?pvcs = "makePVCs ns label (mishap_volumes vols m)"
  let ?st = "newFakeClient (mishap_objects ns name label drv cls vols m)"
  let ?tab = "volume_table cfg ?st"
  from assms(1) have d: "distinct (map fst vols)" "vols \<noteq> []"
    and sys: "\<And>x. x \<in> set vols \<Longrightarrow> parseVolumeHandle drv (snd x) = sys"
    by (auto simp: usable_volumes_def list_all_iff)
  note names = mishap_names [OF d(1) assms(3), of cls ns]
  have st: "?st = newFakeClient (cluster_of v ?scs ?pvs ?pvcs)"
    by (simp add: mishap_objects_def assms(5))
  have cls: "spec_Volumesnapshotclass (vg_Spec v) = cls" by (simp add: assms(5) makeVG_def)
  have claims: "chosen_claims cfg ?st v =
      (if selected_label label m = label then Inr ?pvcs else Inl (no_label_claims (selected_label label m)))"
  proof -
    have ne: "selected_label label m \<noteq> []" "?pvcs \<noteq> []"
      using assms(2,3) d(2) by (cases m; simp add: makePVCs_def)+
    have "claim_lists cfg ?st \<lparr>lo_Namespace = ns, lo_Labels = Some [(''volume-group'', selected_label label m)]\<rparr>
        = Inr (if selected_label label m = label then ?pvcs else [])"
      unfolding st by (rule cluster_listed [OF names assms(4)]) (auto simp: makePVCs_def makePVC_def)
    with ne show ?thesis
      by (simp add: chosen_claims_def wanted_claims_def assms(5) makeVG_def listed_def empty_vg_def)
  qed
  have found: "class_table cfg ?st (NN [] cls) = Inr (makeVSC cls d)" if "makeVSC cls d \<in> set ?scs" for d
    using cluster_class(1) [OF names that] unfolding st by (simp add: makeVSC_def)
  have volume: "?tab (NN [] (''pv-'' @ fst x)) = Inr (makePV (''pv-'' @ fst x) drv (snd x))"
    if "x \<in> set (bound_volumes vols m)" for x
    using cluster_volume(1) [OF names, of "makePV (''pv-'' @ fst x) drv (snd x)" cfg v] that
    unfolding st by (force simp: makePVs_def makePV_def)
  show ?thesis
  proof (cases m)
    case NoClass
    then show ?thesis
      using cluster_class(2) [OF names, of cls cfg v] assms(3,4)
      unfolding st [symmetric] by (simp add: refusal_def cls documented_def)
  next
    case (OtherDriver d)
    then show ?thesis
      using found [of d] assms(3) by (simp add: refusal_def cls) (simp add: makeVSC_def)
  next
    case (WrongLabel l)
    then have "chosen_volumes cfg ?st v = Ret (Inl (no_label_claims l))"
      using claims assms(3) by (simp add: chosen_volumes_def)
    with WrongLabel show ?thesis
      using found [of drv] by (simp add: refusal_def cls) (simp add: makeVSC_def)
  next
    case (NoVolume c)
    with assms(3) obtain x where "x \<in> set vols" "fst x = c" by auto
    then obtain xs ys where split: "vols = xs @ x # ys" by (meson split_list)
    have c: "c \<notin> fst ` set xs" using d(1) \<open>fst x = c\<close> unfolding split by auto
    have before: "y \<in> set (bound_volumes vols m)" if "y \<in> set xs" for y
    proof -
      from that have "fst y \<in> fst ` set xs" by (rule imageI)
      with c have "fst y \<noteq> c" by metis
      with that show ?thesis by (simp add: NoVolume split)
    qed
    have "''pv-'' @ c \<notin> pv_Name ` set ?pvs" by (auto simp: NoVolume makePVs_def makePV_def)
    from cluster_volume(2) [OF names this, of cfg v]
    have gone: "claim_problem ?tab s (makePVC c ns (''pv-'' @ c) lbl) = Some (Ret (Inl (no_volume (''pv-'' @ c))))" for s lbl
      unfolding st [symmetric] by (simp add: claim_problem_def makePVC_def)
    have parts: "?pvcs = makePVCs ns label xs @
        makePVC c ns (''pv-'' @ c) [(''volume-group'', label)] # makePVCs ns label ys"
      by (simp add: NoVolume split makePVCs_def \<open>fst x = c\<close>)
    have "y \<in> set xs \<Longrightarrow> ?tab (NN [] (''pv-'' @ fst y)) = Inr (makePV (''pv-'' @ fst y) drv (snd y))
        \<and> parseVolumeHandle drv (snd y) = sys" for y
      using volume [OF before] sys [of y] by (simp add: split)
    from problem_decides [of xs ?tab drv sys, OF this gone gone]
    have "select_sources ?tab ?pvcs = Ret (Inl (no_volume (''pv-'' @ c)))"
      unfolding parts by blast
    then have "chosen_volumes cfg ?st v = Ret (Inl (no_volume (''pv-'' @ c)))"
      using claims by (simp add: chosen_volumes_def NoVolume)
    with NoVolume show ?thesis
      using found [of drv] by (simp add: refusal_def cls) (simp add: makeVSC_def)
  next
    case (OtherSystem c h)
    let ?c = "makePVC c ns (''pv-'' @ c) [(''volume-group'', label)]"
    have "?tab (NN [] (''pv-'' @ c)) = Inr (makePV (''pv-'' @ c) drv h)"
      using volume [of "(c, h)"] by (simp add: OtherSystem)
    with present_claim(1) [of ?tab c drv h sys ns] assms(3)
    have "claim_problem ?tab sys ?c = Some (Ret (Inl (different_systems sys)))"
      by (simp add: OtherSystem)
    moreover have "\<And>x. x \<in> set vols \<Longrightarrow> ?tab (NN [] (''pv-'' @ fst x)) = Inr (makePV (''pv-'' @ fst x) drv (snd x))"
      using volume by (simp add: OtherSystem)
    ultimately have "select_sources ?tab ?pvcs = Ret (Inl (different_systems sys))"
      using problem_decides [of vols ?tab drv sys ?c "Ret (Inl (different_systems sys))" ns label "[]"]
        sys d(2) by (simp add: OtherSystem makePVCs_def)
    then have "chosen_volumes cfg ?st v = Ret (Inl (different_systems sys))"
      using claims by (simp add: chosen_volumes_def OtherSystem)
    with OtherSystem show ?thesis
      using found [of drv] by (simp add: refusal_def cls) (simp add: makeVSC_def)
  qed
qed

section \<open>The retry scenarios\<close>

text \<open>The object behind a claim in the plan of a scenario.\<close>

lemma scenario_member:
  assumes "distinct (map snd vols)" and "x \<in> set vols"
    and "plan = planned (calm healthy example_driver (scenario_controller drv))
      (makeVG name ns drv label cls MemberReclaimDelete None) sc (scenario_map vols) k
      (res_Snapshots (scenario_answer name vols))"
  shows "\<exists>p \<in> set plan. snap_key (fst p) = NN ns (name @ ''-'' @ fst x)"
proof -
  let ?v = "makeVG name ns drv label cls MemberReclaimDelete None"
  have "snd x \<in> set (map snap_SourceId (res_Snapshots (scenario_answer name vols)))"
    using assms(2) by (simp add: scenario_answer_def example_driver_def comp_def)
  then obtain s where s: "s \<in> set (res_Snapshots (scenario_answer name vols))" "snap_SourceId s = snd x" by auto
  have "vg_Namespace ?v = ns" by (simp add: makeVG_def)
  with scenario_memberName [OF s(1), of ns drv label cls] s(2) claim_of [OF assms(1,2)]
  have "NN (vg_Namespace ?v) (memberName ?v (scenario_map vols) s) = NN ns (name @ ''-'' @ fst x)"
    by (simp only:)
  with s(1) have "NN ns (name @ ''-'' @ fst x) \<in> set (map (snap_key \<circ> fst) plan)"
    unfolding assms(3) planned_keys by force
  then obtain p where "p \<in> set plan" "NN ns (name @ ''-'' @ fst x) = (snap_key \<circ> fst) p"
    unfolding set_map by (rule imageE)
  then show ?thesis by (intro bexI [of _ p]) simp_all
qed

lemma planned_reference:
  assumes "p \<in> set (planned r v sc vm k ss)"
    and "\<not> isl (GetReference r (snap_obj (fst p)))"
  shows "or_Name (vc_SnapshotRef (snd p)) = vs_Name (fst p)"
  using assms
  by (induction ss arbitrary: k)
    (auto simp: Let_def makeVolSnapContent_def GetReference_def snap_obj_def split: sum.splits)

text \<open>
  The scenarios "reconcile retry VS error" and "reconcile retry VC error": with one of the two
  switches on, the first reconciliation fails and the second one, with the switches off, succeeds.
  They pass although the member the switch stands for is listed and was never made.
\<close>

lemma retry_scenarios:
  assumes "usable_volumes drv sys vols" and "label \<noteq> []" and "CHR '','' \<notin> set name"
    and "x \<in> set vols" and "str_contains (name @ ''-'' @ fst x) ''-1-''"
    and "createVcError sw \<or> createVsError sw" and "\<not> updateVcError sw" and "\<not> updateVgError sw"
  defines "off \<equiv> \<lparr>createVcError = False, createVsError = False, updateVcError = False, updateVgError = False\<rparr>"
  shows "\<exists>e w1 w2 u. run_state (reconcile
         (fake_reconciler (suite_client sw) example_driver (scenario_controller drv)) (NN ns name))
         (start (newFakeClient (scenario_objects ns name label drv cls vols)) [Tick]) = (Ret (Some e), w1)
     \<and> run_state (reconcile
         (fake_reconciler (suite_client off) example_driver (scenario_controller drv)) (NN ns name))
         (start (cluster w1) ticks) = (Ret None, w2)
     \<and> stored_groups (cluster w2) (NN ns name) = Some u \<and> status_Status (vg_Status u) = EventStatusComplete
     \<and> name @ ''-'' @ fst x \<in> set (member_names u)
     \<and> stored_snaps (cluster w2) (NN ns (name @ ''-'' @ fst x)) = None"
proof -
  let ?fail = "suiteShouldFail sw ''Create''"
  let ?w = "start (newFakeClient (scenario_objects ns name label drv cls vols)) [Tick]"
  let ?v = "makeVG name ns drv label cls MemberReclaimDelete None"
  let ?u = "created ?v (scenario_map vols) (scenario_answer name vols)"
  define plan where "plan = planned (calm healthy example_driver (scenario_controller drv)) ?v
    (makeVSC cls drv) (scenario_map vols) 0 (res_Snapshots (scenario_answer name vols))"
  note ready = scenario_ready [OF assms(1-3), of ns cls "[Tick]", folded plan_def]
  have d: "distinct (map snd vols)" using assms(1) by (simp add: usable_volumes_def)
  from scenario_member [OF d assms(4) plan_def] obtain p
    where p: "p \<in> set plan" "snap_key (fst p) = NN ns (name @ ''-'' @ fst x)" by blast
  have name: "vs_Name (fst p) = name @ ''-'' @ fst x" using p(2) by (simp add: snap_key_def)
  have ref: "or_Name (vc_SnapshotRef (snd p)) = vs_Name (fst p)"
    by (rule planned_reference [OF p(1) [unfolded plan_def] scenario_reference])
  have unmade: "\<not> member_made ?fail p"
    using assms(5,6) unfolding member_made_def content_made_def suiteShouldFail_def
    by (simp add: ref name del: append_Cons str_contains.simps) blast
  then have refused: "\<not> list_all (member_made ?fail) plan" using p(1) by (auto simp: list_all_iff)
  have "res_SnapshotGroupID (scenario_answer name vols) \<noteq> []"
    by (simp add: scenario_answer_def example_driver_def)
  from grudging_then_settled [OF ready _ refused this, of "[]" ticks] obtain e w1 w2
    where 1: "run_state (reconcile (fake_reconciler (refusing ?fail healthy) example_driver
        (scenario_controller drv)) (NN ns name)) ?w = (Ret (Some e), w1)"
      and 2: "run_state (reconcile (calm healthy example_driver (scenario_controller drv)) (NN ns name))
        (start (cluster w1) ticks) = (Ret None, w2)"
      and w1: "stored_groups (cluster w1) (NN ns name) = Some ?u" "cluster w2 = cluster w1"
      and gone: "\<forall>p \<in> set plan. stored_snaps (cluster w1) (snap_key (fst p)) =
        (if member_made ?fail p then Some (fst p) else None)"
    by auto
  have free: "comma_free ?v (scenario_map vols) (scenario_answer name vols)"
    using ready by (simp add: ready_to_create_def)
  have "name @ ''-'' @ claim_of vols (snd x) \<in> set (member_names ?u)"
    unfolding scenario_members [OF assms(1,3) free refl] using assms(4) by simp
  then have listed: "name @ ''-'' @ fst x \<in> set (member_names ?u)"
    unfolding claim_of [OF d assms(4)] .
  have lost: "stored_snaps (cluster w2) (NN ns (name @ ''-'' @ fst x)) = None"
    using bspec [OF gone p(1)] unmade unfolding p(2) w1(2) by simp
  have complete: "status_Status (vg_Status ?u) = EventStatusComplete" by (simp add: created_def)
  have off: "suite_client off = no_failures healthy" by (rule suite_calm) (simp_all add: off_def)
  show ?thesis
    unfolding suite_refuses [OF assms(7,8)] off
    using 1 2 w1(1) [folded w1(2)] complete listed lost by blast
qed

section \<open>Properties\<close>

text \<open>C12: The error scenarios of the integration test, for any number of volumes and any client that
  behaves as documented: when the snapshot class is missing or another driver's, no claim has the
  label the group selects, a claim's volume is gone, or a claim lies on another system than those
  before it, creating the group fails with the error of that scenario, and the step of
  \<open>vg.feature\<close> that looks for the expected message in that error passes; the group is stored with
  status \<open>Error\<close> and no snapshot and no content was made, whatever the driver would have answered.\<close>

lemma error_scenarios:
  assumes "usable_volumes drv sys vols" and "label \<noteq> []" and "mishap_possible drv sys label cls vols m"
    and "documented cfg"
  shows "\<exists>w' u. run_state (reconcile (calm cfg driver (scenario_controller drv)) (NN ns name))
         (start (newFakeClient (mishap_objects ns name label drv cls vols m)) ticks)
         = (Ret (Some (mishap_error sys cls m)), w')
     \<and> theErrorMessageShouldContain (expected_message cls m) [mishap_error sys cls m] = (None, [])
     \<and> stored_groups (cluster w') (NN ns name) = Some u \<and> status_Status (vg_Status u) = EventStatusError
     \<and> stored_snaps (cluster w') = (\<lambda>_. None) \<and> stored_contents (cluster w') = (\<lambda>_. None)"
proof -
  let ?v = "makeVG name ns drv (selected_label label m) cls MemberReclaimDelete None"
  let ?w = "start (newFakeClient (mishap_objects ns name label drv cls vols m)) ticks"
  have "distinct (map fst vols)" using assms(1) by (simp add: usable_volumes_def)
  note names = mishap_names [OF this assms(3), of cls ns]
  have "wf_store (cluster ?w)" by (simp add: wf_newFakeClient)
  moreover have "stored_groups (cluster ?w) (NN ns name) = Some ?v"
    using cluster_group [OF names, of ?v] by (simp add: mishap_objects_def makeVG_def)
  moreover have "deletion_is_zero ?v" "status_Status (vg_Status ?v) = []" "spec_PvcList (vg_Spec ?v) = None"
    by (simp_all add: makeVG_def empty_vg_def deletion_is_zero_def empty_status_def)
  moreover have "refusal cfg driver (r_DriverName (scenario_controller drv)) (nnName (NN ns name)) ?v (cluster ?w)
      = Some (mishap_error sys cls m)"
    using mishap_refused [OF assms refl] by (simp add: scenario_controller_def)
  ultimately show ?thesis
    using calm_refuses [of ?w "NN ns name" ?v cfg driver "scenario_controller drv" "mishap_error sys cls m"]
      cluster_empty [OF names, of ?v] mishap_message [OF assms(3)]
    by (auto simp: mishap_objects_def set_status_def simp del: fake_simps)
qed

lemma error_scenarios_witness:
  "fst (run_state (reconcile (calm healthy example_driver (scenario_controller ''csi-vxflexos'')) (NN ''ns'' ''vg''))
     (start (newFakeClient (mishap_objects ''ns'' ''vg'' ''vg-snap-label'' ''csi-vxflexos'' ''no-vsc-for-vg''
        [(''pvc2'', ''sys-2''), (''pvc1'', ''sys-1'')] NoClass)) []))
   = Ret (Some (Error ''NotFound'' (''VolumeSnapshotClass.snapshot.storage.k8s.io '' @ quotedName ''no-vsc-for-vg''
       @ '' not found'')))"
proof -
  have "usable_volumes ''csi-vxflexos'' ''sys'' [(''pvc2'', ''sys-2''), (''pvc1'', ''sys-1'')]"
    "mishap_possible ''csi-vxflexos'' ''sys'' ''vg-snap-label'' ''no-vsc-for-vg''
       [(''pvc2'', ''sys-2''), (''pvc1'', ''sys-1'')] NoClass"
    by code_simp+
  from error_scenarios [OF this(1) _ this(2) documented_healthy, of example_driver "''ns''" "''vg''" "[]"] show ?thesis
    by (auto simp: newNotFound_def qualifiedName_def)
qed

end
