(* ===== verification/Retries.thy ===== *)
theory Retries
  imports Refusal
begin

text \<open>
  Attempts to create a group that cannot be written. The controller marks a group \<open>Pending\<close> so that
  a second reconciliation does not take another snapshot, but only logs that the mark was not
  stored. Source: the creation path of \<open>Reconcile\<close> up to the first write after the driver's answer.
\<close>

section \<open>A store that takes no write of a group\<close>

definition unwritable :: "error \<Rightarrow> fakecfg \<Rightarrow> fakecfg" where
  "unwritable e cfg = cfg\<lparr>fc_ShouldFail :=
     (\<lambda>op ob. case ob of KVG v \<Rightarrow> if op = ''Update'' then Some e else None | _ \<Rightarrow> None)\<rparr>"

abbreviation sealed ::
  "error \<Rightarrow> fakecfg \<Rightarrow> (string \<Rightarrow> string list \<Rightarrow> (string \<times> string) list \<Rightarrow> error + vgsresponse)
     \<Rightarrow> store reconciler \<Rightarrow> store reconciler" where
  "sealed e cfg driver r \<equiv> fake_reconciler (unwritable e cfg) driver r"

text \<open>What it answers to reads is what a calm store answers.\<close>

lemma unwritable_reads:
  "fakeGet (unwritable e cfg\<lparr>fc_Recode := Inr\<rparr>) ob proj k st =
     fakeGet (no_failures cfg\<lparr>fc_Recode := Inr\<rparr>) ob proj k st"
  "fakeList (unwritable e cfg\<lparr>fc_Recode := Inr\<rparr>) kind items =
     fakeList (no_failures cfg\<lparr>fc_Recode := Inr\<rparr>) kind items"
  by (cases ob; simp add: fakeGet_def unwritable_def no_failures_def cong: option.case_cong)
    (simp add: fakeList_def unwritable_def no_failures_def)

lemma unwritable_list:
  "listPersistentVolumeClaim (unwritable e cfg\<lparr>fc_Recode := Inr\<rparr>) =
     listPersistentVolumeClaim (no_failures cfg\<lparr>fc_Recode := Inr\<rparr>)"
proof -
  have "fc_SelectorString (unwritable e cfg\<lparr>fc_Recode := Inr\<rparr>) =
      fc_SelectorString (no_failures cfg\<lparr>fc_Recode := Inr\<rparr>)"
    by (simp add: unwritable_def no_failures_def)
  then show ?thesis
    unfolding listPersistentVolumeClaim_def fun_eq_iff by (simp only:) simp
qed

lemma sealed_reads:
  "cl_GetPV (r_Client (sealed e cfg driver r)) k st = (volume_table cfg st k, st)"
  "cl_GetPVC (r_Client (sealed e cfg driver r)) k st = (claim_table cfg st k, st)"
  "cl_ListPVC (r_Client (sealed e cfg driver r)) lo st = (claim_lists cfg st lo, st)"
  "cl_GetClass (r_Client (sealed e cfg driver r)) k st = (class_table cfg st k, st)"
  "stored_groups st req = Some v \<Longrightarrow> cl_GetVG (r_Client (sealed e cfg driver r)) req st = (Inr v, st)"
proof -
  show "cl_GetPV (r_Client (sealed e cfg driver r)) k st = (volume_table cfg st k, st)"
    "cl_GetPVC (r_Client (sealed e cfg driver r)) k st = (claim_table cfg st k, st)"
    "cl_ListPVC (r_Client (sealed e cfg driver r)) lo st = (claim_lists cfg st lo, st)"
    "cl_GetClass (r_Client (sealed e cfg driver r)) k st = (class_table cfg st k, st)"
    by (simp_all add: fake_client_def volume_table_def claim_table_def claim_lists_def class_table_def
        unwritable_reads unwritable_list)
  have "cl_GetVG (r_Client (sealed e cfg driver r)) req st = cl_GetVG (r_Client (calm cfg driver r)) req st"
    by (simp add: fake_client_def unwritable_reads)
  with calm_gets(1) [of st req v cfg driver r]
  show "stored_groups st req = Some v \<Longrightarrow> cl_GetVG (r_Client (sealed e cfg driver r)) req st = (Inr v, st)"
    by simp
qed

lemma sealed_writes:
  "cl_UpdateVG (r_Client (sealed e cfg driver r)) v st = (Inl e, st)"
  "cl_StatusUpdateVG (r_Client (sealed e cfg driver r)) v st = (Inl e, st)"
  by (simp_all add: fake_client_def fakeUpdate_def unwritable_def written_def)

section \<open>One attempt\<close>

definition driver_calls :: "'s world \<Rightarrow> effect list" where
  "driver_calls w = filter is_driver_call (trace w)"

lemma sealed_search:
  "\<exists>w'. run_state (findSources (sealed e cfg driver r) v) w = (chosen_volumes cfg (cluster w) v, w')
     \<and> cluster w' = cluster w \<and> driver_calls w' = driver_calls w"
proof -
  let ?r = "sealed e cfg driver r"
  have "reads_volumes ?r (cluster w) (volume_table cfg (cluster w))"
    by (simp add: reads_volumes_def sealed_reads del: fake_simps)
  then obtain w' where w': "cluster w' = cluster w"
      "run_state (findSources ?r v) w = (chosen_volumes cfg (cluster w) v, w')"
    using find_sources_runs [of ?r w "volume_table cfg (cluster w)" "claim_table cfg (cluster w)"
        "claim_lists cfg (cluster w)" v]
    by (auto simp: sealed_reads chosen_claims_def chosen_volumes_def simp del: fake_simps)
  obtain ts where "trace w' = trace w @ ts" "\<forall>e \<in> set ts. is_read e"
    using emitsD [OF emits_findSources w'(2)] by blast
  moreover from this(2) have "filter is_driver_call ts = []"
    by (auto simp: filter_empty_conv) (metis is_driver_call.elims(2) is_read.simps)
  ultimately show ?thesis using w' by (auto simp: driver_calls_def)
qed

text \<open>A new group for which the driver will be asked.\<close>

definition asks_driver ::
  "fakecfg \<Rightarrow> store reconciler \<Rightarrow> nname \<Rightarrow> vg \<Rightarrow> string list \<Rightarrow> volmap \<Rightarrow> store \<Rightarrow> bool" where
  "asks_driver cfg r req v ids vm st \<longleftrightarrow>
     stored_groups st req = Some v \<and> deletion_is_zero v
   \<and> \<not> (status_SnapshotGroupID (vg_Status v) \<noteq> [] \<and> status_Status (vg_Status v) = EventStatusComplete)
   \<and> status_Status (vg_Status v) \<noteq> EventStatusPending \<and> FinalizerName \<notin> set (vg_Finalizers v)
   \<and> (spec_PvcLabel (vg_Spec v) = [] \<or> spec_PvcList (vg_Spec v) = None)
   \<and> (case class_table cfg st (NN [] (spec_Volumesnapshotclass (vg_Spec v))) of
        Inl _ \<Rightarrow> False | Inr sc \<Rightarrow> sc_Driver sc = r_DriverName r)
   \<and> chosen_volumes cfg st v = Ret (Inr (ids, vm))"

lemma sealed_attempt:
  assumes "asks_driver cfg r req v ids vm (cluster w)"
    and answer: "driver (nnName req) (sort ids) (groupParams v) = Inr res"
  shows "\<exists>w'. run_state (reconcile (sealed e cfg driver r) req) w = (Ret (Some e), w')
     \<and> cluster w' = cluster w
     \<and> driver_calls w' = driver_calls w @ [CreateVGS (nnName req) (sort ids) (groupParams v)]"
proof -
  let ?r = "sealed e cfg driver r"
  from assms(1) obtain sc where v: "stored_groups (cluster w) req = Some v" and zero: "deletion_is_zero v"
    and new: "\<not> (status_SnapshotGroupID (vg_Status v) \<noteq> [] \<and> status_Status (vg_Status v) = EventStatusComplete)"
      "status_Status (vg_Status v) \<noteq> EventStatusPending"
    and fin: "FinalizerName \<notin> set (vg_Finalizers v)"
    and one: "spec_PvcLabel (vg_Spec v) = [] \<or> spec_PvcList (vg_Spec v) = None"
    and cls: "class_table cfg (cluster w) (NN [] (spec_Volumesnapshotclass (vg_Spec v))) = Inr sc"
      "sc_Driver sc = r_DriverName r"
    and vols: "chosen_volumes cfg (cluster w) v = Ret (Inr (ids, vm))"
    unfolding asks_driver_def by (auto split: sum.splits)
  let ?v = "set_status EventStatusPending v"
  let ?w1 = "w\<lparr>trace := trace w @ [GetVG req, StatusUpdateVG ?v]\<rparr>"
  let ?w2 = "?w1\<lparr>trace := trace ?w1 @ [GetClass (NN [] (spec_Volumesnapshotclass (vg_Spec v)))]\<rparr>"
  have 1: "run_state (reconcile ?r req) w = run_state (createFromClass ?r req ?v) ?w1"
    using zero new one sealed_reads(5) [OF v, of e cfg driver r] sealed_writes(2) [of e cfg driver r ?v]
    by (auto simp: reconcile_def reconcileCreate_def createChecked_def getVG_def statusUpdateVG_def
        run_call Let_def simp del: fake_simps split: option.split bool.split)
  have "chosen_volumes cfg (cluster w) ?v = Ret (Inr (ids, vm))"
    using vols by (simp add: chosen_volumes_def chosen_claims_def wanted_claims_def set_status_def)
  with sealed_search [of e cfg driver r ?v ?w2] obtain w3
    where src: "run_state (findSources ?r ?v) ?w2 = (Ret (Inr (ids, vm)), w3)"
      and w3: "cluster w3 = cluster w" "driver_calls w3 = driver_calls ?w2" by auto
  let ?call = "CreateVGS (nnName req) (sort ids) (groupParams v)"
  let ?w4 = "w3\<lparr>trace := trace w3 @ [?call]\<rparr>"
  have params: "groupParams ?v = groupParams v" by (simp add: groupParams_def)
  have own: "r_DriverName ?r = r_DriverName r" by simp
  have 2: "run_state (createFromClass ?r req ?v) ?w1 = run_state (finishCreate ?r req ?v sc vm res) ?w4"
    using cls own src answer params w3(1) sealed_reads(4) [of e cfg driver r]
    by (simp add: createFromClass_def createGroup_def getClass_def createVGS_def driverVerification_def
        run_call run_andThen Let_def)
  let ?u = "?v\<lparr>vg_Finalizers := r_AddFinalizer ?r (vg_Finalizers ?v) FinalizerName\<rparr>"
  let ?w5 = "?w4\<lparr>trace := trace ?w4 @ [Event (OnVG (vg_key ?v)) EventTypeNormal EventReasonUpdated
      (''Created snapshot consistency group on array with id: '' @ res_SnapshotGroupID res), UpdateVG ?u]\<rparr>"
  have 3: "run_state (finishCreate ?r req ?v sc vm res) ?w4 = (Ret (Some e), ?w5)"
    using fin sealed_writes(1) [of e cfg driver r]
    by (simp add: finishCreate_def ensureFinalizer_def updateVG_def run_call Let_def set_status_def
        del: fake_simps)
  have "driver_calls ?w5 = driver_calls w @ [?call]"
    using w3(2) by (simp add: driver_calls_def)
  with 1 2 3 w3(1) show ?thesis by (intro exI [of _ ?w5]) simp
qed

section \<open>Properties\<close>

text \<open>The results of a number of attempts in a row, and the world after them.\<close>

primrec attempts ::
  "'s reconciler \<Rightarrow> nname \<Rightarrow> nat \<Rightarrow> 's world \<Rightarrow> error option outcome list \<times> 's world" where
  "attempts r req 0 w = ([], w)"
| "attempts r req (Suc n) w =
     (let (x, w1) = run_state (reconcile r req) w; (xs, w2) = attempts r req n w1 in (x # xs, w2))"

text \<open>C11: While a new group cannot be written, every attempt to create it takes another snapshot on
  the array: the failure to store \<open>Pending\<close> is only logged, the driver is called, and the attempt
  ends with the error of the next write of the group. After any number of attempts the driver was
  called that many times with the same arguments, and the store is as before, so that no snapshot
  of the array is recorded anywhere.\<close>

lemma unwritable_group_snapshots_again:
  assumes "asks_driver cfg r req v ids vm (cluster w)"
    and "driver (nnName req) (sort ids) (groupParams v) = Inr res"
  shows "\<exists>w'. attempts (sealed e cfg driver r) req n w = (replicate n (Ret (Some e)), w')
     \<and> cluster w' = cluster w
     \<and> driver_calls w' = driver_calls w @ replicate n (CreateVGS (nnName req) (sort ids) (groupParams v))"
  using assms(1)
proof (induction n arbitrary: w)
  case 0
  then show ?case by simp
next
  case (Suc n)
  from sealed_attempt [where driver = driver and req = req and ids = ids, OF Suc.prems assms(2), of e] obtain w1
    where 1: "run_state (reconcile (sealed e cfg driver r) req) w = (Ret (Some e), w1)" "cluster w1 = cluster w"
      "driver_calls w1 = driver_calls w @ [CreateVGS (nnName req) (sort ids) (groupParams v)]" by blast
  with Suc.IH [of w1] Suc.prems show ?case by (auto simp del: fake_simps)
qed

lemma unwritable_group_snapshots_again_witness:
  "\<exists>w'. attempts (sealed (errorf ''unable to update VG'') healthy example_driver (controller healthy))
        (NN ''ns'' ''vg'') 3 (start (example_store new_group) []) =
      (replicate 3 (Ret (Some (errorf ''unable to update VG''))), w')
     \<and> length (driver_calls w') = 3"
proof -
  have "asks_driver healthy (controller healthy) (NN ''ns'' ''vg'') new_group [''v1/array/scsi'']
      [(''v1/array/scsi'', ''a'')] (cluster (start (example_store new_group) []))"
    "example_driver (nnName (NN ''ns'' ''vg'')) (sort [''v1/array/scsi'']) (groupParams new_group)
      = Inr example_answer"
    by code_simp+
  from unwritable_group_snapshots_again [where driver = example_driver and req = "NN ''ns'' ''vg''" and n = 3
      and ids = "[''v1/array/scsi'']" and e = "errorf ''unable to update VG''", OF this]
  show ?thesis
    by (fastforce simp: driver_calls_def start_def simp del: fake_simps)
qed

end
