(* ===== verification/Progress.thy ===== *)
theory Progress
  imports Watch
begin

text \<open>
  The controller comes back. The only wait of the program is the \<open>select\<close> of
  \<open>checkSnapshotStatus\<close>; everything before it leaves the timer alone, and nothing after it
  waits. So a reconciliation returns (or panics) whenever the timer is going to fire, whatever
  the cluster, the driver and the ticker do.
\<close>

section \<open>Programs that never wait\<close>

definition quick :: "('w, 'a outcome) state \<Rightarrow> bool" where
  "quick m \<longleftrightarrow> (\<forall>w. fst (run_state m w) \<noteq> Hang)"

named_theorems quick_intros \<open>programs that never wait\<close>

lemma quick_ret [quick_intros]: "quick (ret v)" "quick panic"
  by (simp_all add: quick_def)

lemma quick_bind [quick_intros]: "(\<And>x. quick (f x)) \<Longrightarrow> quick (State_Monad.bind m f)"
  by (simp add: quick_def split: prod.split)

lemma hang_andThen:
  assumes "fst (run_state (andThen m f) w) = Hang"
  obtains (first) "fst (run_state m w) = Hang"
  | (rest) v w' where "run_state m w = (Ret v, w')" "fst (run_state (f v) w') = Hang"
proof (cases "run_state m w")
  case (Pair x w')
  with assms show thesis
    by (cases x) (auto simp: run_andThen intro: first rest)
qed

lemma quick_andThen [quick_intros]: "quick m \<Longrightarrow> (\<And>v. quick (f v)) \<Longrightarrow> quick (andThen m f)"
  unfolding quick_def by (metis hang_andThen)

lemma quick_mapVolIDToPvcName [quick_intros]: "quick (mapVolIDToPvcName r cs)"
proof -
  have "quick (mapLoop r k sys ids m cs)" for k sys ids m
    by (induction cs arbitrary: k sys ids m)
      (auto simp: Let_def intro!: quick_intros split: sum.split option.split)
  then show ?thesis
    unfolding mapVolIDToPvcName_def by (auto intro!: quick_intros split: sum.split)
qed

lemma quick_findSources [quick_intros]: "quick (findSources r v)"
  unfolding findSources_def getSourceVolIDsFromLabel_def getSourceVolIDsFromPvcName_def
    getSourceVolIDsFromNs_def
  by (auto intro!: quick_intros split: option.split sum.split)

lemma quick_createVolumeSnapshot [quick_intros]: "quick (createVolumeSnapshot r n cn v s sc)"
  unfolding createVolumeSnapshot_def createContentAndSnap_def checkExistingVolSnapshot_def
    checkExistingVolsnapcontent_def validateExistingVolSnapcontent_def Let_def
  by (auto intro!: quick_intros split: option.split sum.split bool.split)

lemma quick_processSnapshots [quick_intros]: "quick (processSnapshots r vm v sc names errs ss)"
  by (induction ss arbitrary: names errs) (auto simp: Let_def intro!: quick_intros)

lemma quick_failCreate [quick_intros]: "quick (failCreate r v msg err)"
  unfolding failCreate_def by (auto intro!: quick_intros)

section \<open>Programs that leave the timer alone\<close>

definition timed :: "'s world \<Rightarrow> bool" where
  "timed w \<longleftrightarrow> Timeout \<in> set (sched w)"

named_theorems timed_intros \<open>programs that leave the timer alone\<close>

lemmas timed_composition [timed_intros] =
  keeps_return [of timed] keeps_ret [of timed] keeps_panic [of timed]
  keeps_bind [of timed] keeps_andThen [of timed]

lemma timed_call: "keeps timed (call e f)"
  by (auto simp: keeps_def triple_def run_call timed_def)

lemma timed_api [timed_intros]:
  "keeps timed (getVG r k)" "keeps timed (getClass r k)" "keeps timed (getSnap r k)"
  "keeps timed (getContent r k)" "keeps timed (getPVC r k)" "keeps timed (getPV r k)"
  "keeps timed (listPVC r lo)" "keeps timed (listContent r)" "keeps timed (createContent r c)"
  "keeps timed (createSnap r s)" "keeps timed (statusUpdateContent r c)" "keeps timed (deleteSnap r s)"
  "keeps timed (deleteVG r v)" "keeps timed (createVGS r n ids ps)" "keeps timed (eventf obj ty msg)"
  "keeps timed (emit e)"
  by (simp_all add: api_defs timed_call)

lemma timed_updates [timed_intros]:
  "keeps timed (updateVG r v)" "keeps timed (statusUpdateVG r v)"
  unfolding updateVG_def statusUpdateVG_def by (auto intro!: timed_intros timed_call)

lemma timed_locals [timed_intros]:
  "keeps timed resetFailed" "keeps timed (setFailed k x)" "keeps timed (appendFailed k x)"
  "keeps timed (newUUID r)" "keeps timed getSched"
  by (simp_all add: keeps_def triple_def timed_def)

lemma timed_mapVolIDToPvcName [timed_intros]: "keeps timed (mapVolIDToPvcName r cs)"
proof -
  have "keeps timed (mapLoop r k sys ids m cs)" for k sys ids m
    by (induction cs arbitrary: k sys ids m)
      (auto simp: Let_def intro!: timed_intros split: sum.split option.split)
  then show ?thesis
    unfolding mapVolIDToPvcName_def by (auto intro!: timed_intros split: sum.split)
qed

lemma timed_pvcNameLoop [timed_intros]: "keeps timed (pvcNameLoop r ns dup cs names)"
  by (induction names arbitrary: dup cs) (auto intro!: timed_intros split: sum.split)

lemma timed_findSources [timed_intros]: "keeps timed (findSources r v)"
  unfolding findSources_def getSourceVolIDsFromLabel_def getSourceVolIDsFromPvcName_def
    getSourceVolIDsFromNs_def
  by (auto intro!: timed_intros split: option.split sum.split)

lemma timed_createVolumeSnapshot [timed_intros]: "keeps timed (createVolumeSnapshot r n cn v s sc)"
  unfolding createVolumeSnapshot_def createContentAndSnap_def checkExistingVolSnapshot_def
    checkExistingVolsnapcontent_def validateExistingVolSnapcontent_def Let_def
  by (auto intro!: timed_intros split: option.split sum.split bool.split)

lemma timed_updateContent [timed_intros]:
  "keeps timed (updateVolumeSnapshotContentStatus r cn u s g)"
  unfolding updateVolumeSnapshotContentStatus_def Let_def
  by (auto intro!: timed_intros split: sum.split)

lemma timed_processSnapshots [timed_intros]:
  "keeps timed (processSnapshots r vm v sc names errs ss)"
  by (induction ss arbitrary: names errs)
    (auto simp: Let_def intro!: timed_intros split: option.split)

lemma timed_group_writes [timed_intros]:
  "keeps timed (ensureFinalizer r v)" "keeps timed (recordGroupID r v res)"
  by (simp_all add: ensureFinalizer_def recordGroupID_def timed_intros)

section \<open>Programs that come back when the timer fires\<close>

definition ends :: "('s world, 'a outcome) state \<Rightarrow> bool" where
  "ends m \<longleftrightarrow> (\<forall>w. timed w \<longrightarrow> fst (run_state m w) \<noteq> Hang)"

lemma quick_ends: "quick m \<Longrightarrow> ends m"
  by (simp add: quick_def ends_def)

lemma ends_seq: "keeps timed m \<Longrightarrow> (\<And>x. ends (f x)) \<Longrightarrow> ends (State_Monad.bind m f)"
  by (auto simp: ends_def split: prod.split dest: keepsD)

lemma ends_then:
  assumes "keeps timed m" "quick m" "\<And>v. ends (f v)"
  shows "ends (andThen m f)"
  unfolding ends_def
proof (intro allI impI notI)
  fix w
  assume w: "timed w" and "fst (run_state (andThen m f) w) = Hang"
  from this(2) show False
    by (cases rule: hang_andThen)
      (use assms keepsD [OF assms(1) w] in \<open>auto simp: quick_def ends_def\<close>)
qed

lemma ends_after_wait:
  assumes "ends m" "\<And>v. quick (f v)"
  shows "ends (andThen m f)"
  unfolding ends_def
proof (intro allI impI notI)
  fix w
  assume "timed w" and "fst (run_state (andThen m f) w) = Hang"
  from this(2) show False
    by (cases rule: hang_andThen) (use assms \<open>timed w\<close> in \<open>auto simp: quick_def ends_def\<close>)
qed

lemma ends_checkSnapshotStatus: "ends (checkSnapshotStatus r ns names t)"
  by (simp add: ends_def timed_def run_checkSnapshotStatus pollLoop_no_hang)

lemma ends_processResponse: "ends (processResponse r res vm v sc g)"
  unfolding processResponse_def Let_def
  by (auto intro!: ends_seq [OF timed_locals(1)] ends_seq [OF timed_api(16)]
      ends_then [OF timed_processSnapshots quick_processSnapshots]
      ends_after_wait [OF ends_checkSnapshotStatus] quick_intros)

lemma ends_finishCreate: "ends (finishCreate r req v sc vm res)"
  unfolding finishCreate_def Let_def
  by (auto intro!: ends_seq [OF timed_api(15)] ends_seq [OF timed_group_writes(1)]
      ends_seq [OF timed_group_writes(2)] ends_after_wait [OF ends_processResponse]
      quick_ends [OF quick_ret(1)] quick_intros split: option.split)

lemma ends_createChecked: "ends (createChecked r req v)"
  unfolding createChecked_def createFromClass_def createGroup_def Let_def
  by (auto intro!: ends_seq [OF timed_api(15)] ends_seq [OF timed_api(2)] ends_seq [OF timed_api(14)]
      ends_then [OF timed_findSources quick_findSources] ends_finishCreate
      quick_ends [OF quick_failCreate] quick_ends [OF quick_ret(1)]
      split: option.split sum.split bool.split)

lemma ends_reconcile: "ends (reconcile r req)"
proof -
  have "ends (reconcileCreate r req v)" for v
    unfolding reconcileCreate_def
    by (auto intro!: ends_seq [OF timed_updates(2)] ends_createChecked)
  moreover have "ends (do { x \<leftarrow> m; ret (f x) })" "ends (ret y)" for m :: "('a world, 'b) state" and f and y :: 'c
    by (rule quick_ends, auto intro!: quick_intros)+
  ultimately show ?thesis
    unfolding reconcile_def
    by (auto simp: Let_def intro!: ends_seq [OF timed_api(1)] ends_seq [OF timed_api(15)]
        split: sum.split)
qed

lemma quick_snapshot_callbacks [quick_intros]:
  "quick (handleSnapCreate r obj)" "quick (handleSnapUpdate r obj)"
  unfolding handleSnapCreate_def handleSnapUpdate_def Let_def
  by (auto intro!: quick_intros split: watchobj.split sum.split option.split)

section \<open>Properties\<close>

text \<open>C18: A reconciliation comes back, with an error, with success or with a panic, whenever the timer
  of its wait is going to fire, whatever the cluster and the driver answer and however the ticks
  are interleaved; the callbacks for snapshots never wait at all.\<close>

lemma reconcile_comes_back:
  assumes "Timeout \<in> set (sched w)"
  shows "fst (run_state (reconcile r req) w) \<noteq> Hang
     \<and> fst (run_state (handleSnapCreate r obj) w) \<noteq> Hang
     \<and> fst (run_state (handleSnapUpdate r obj) w) \<noteq> Hang"
  using assms ends_reconcile [of r req, unfolded ends_def timed_def]
    quick_snapshot_callbacks [of r obj, unfolded quick_def] by blast

lemma reconcile_comes_back_witness:
  "fst (run_state (reconcile (group_reconciler example_group) (NN ''ns'' ''vg'')) (start () [Tick, Timeout]))
     \<noteq> Hang"
  using reconcile_comes_back [of "start () [Tick, Timeout]" "group_reconciler example_group"] by simp

end
