(* ===== verification/Safety.thy ===== *)
theory Safety
  imports Progress
begin

text \<open>
  When the controller does not crash. Its panics are all nil dereferences of optional fields of
  objects it was given: the CSI source of a volume, the content name, class and status flags of
  a snapshot, the handle and class of a content. This theory states which objects are sound and
  shows that with sound objects no reconciliation and no callback panics, so that together with
  \<open>Progress\<close> a reconciliation returns a result.
\<close>

section \<open>Sound objects and answers\<close>

definition sound_pv :: "pv \<Rightarrow> bool" where
  "sound_pv v \<longleftrightarrow> pv_CSI v \<noteq> None"

definition sound_snap :: "volsnap \<Rightarrow> bool" where
  "sound_snap x \<longleftrightarrow> vs_SourceContentName x \<noteq> None \<and> vs_ClassName x \<noteq> None
     \<and> (case vs_Status x of None \<Rightarrow> True
        | Some st \<Rightarrow> ss_ReadyToUse st \<noteq> None \<and> ss_BoundContentName st \<noteq> None)"

definition sound_content :: "content \<Rightarrow> bool" where
  "sound_content c \<longleftrightarrow> vc_SnapshotHandle c \<noteq> None \<and> vc_ClassName c \<noteq> None"

text \<open>A cluster that answers with sound objects, and that can read the content of a snapshot it
  has just handed out.\<close>

definition sound_cluster :: "'s reconciler \<Rightarrow> bool" where
  "sound_cluster r \<longleftrightarrow>
     (\<forall>k s v s'. cl_GetPV (r_Client r) k s = (Inr v, s') \<longrightarrow> sound_pv v)
     \<and> (\<forall>k s x s'. cl_GetSnap (r_Client r) k s = (Inr x, s') \<longrightarrow> sound_snap x
          \<and> (\<forall>n. vs_SourceContentName x = Some n \<longrightarrow>
               (\<exists>c s''. cl_GetContent (r_Client r) (NN [] n) s' = (Inr c, s'') \<and> sound_content c)))
     \<and> (\<forall>s cs s'. cl_ListContent (r_Client r) s = (Inr cs, s') \<longrightarrow> list_all sound_content cs)"

section \<open>Programs that never panic\<close>

definition fearless :: "('w, 'a outcome) state \<Rightarrow> bool" where
  "fearless m \<longleftrightarrow> (\<forall>w. fst (run_state m w) \<noteq> Panic)"

named_theorems fearless_intros \<open>programs that never panic\<close>

lemma fearless_ret [fearless_intros]: "fearless (ret v)" "fearless (State_Monad.return Hang)"
  by (simp_all add: fearless_def)

lemma fearless_bind [fearless_intros]:
  "(\<And>x. fearless (f x)) \<Longrightarrow> fearless (State_Monad.bind m f)"
  by (simp add: fearless_def split: prod.split)

lemma fearless_bind_result:
  "(\<And>x w w'. run_state m w = (x, w') \<Longrightarrow> fearless (f x)) \<Longrightarrow> fearless (State_Monad.bind m f)"
  by (simp add: fearless_def split: prod.split)

lemma fearless_andThen [fearless_intros]:
  "fearless m \<Longrightarrow> (\<And>v. fearless (f v)) \<Longrightarrow> fearless (andThen m f)"
  by (auto simp: fearless_def run_andThen split: prod.split outcome.split) (metis fst_conv)

lemma andThen_no_panic:
  "fst (run_state m w) \<noteq> Panic \<Longrightarrow> (\<And>v. fearless (f v)) \<Longrightarrow> fst (run_state (andThen m f) w) \<noteq> Panic"
  by (auto simp: fearless_def run_andThen split: prod.split outcome.split)

text \<open>The answers of a sound cluster, as a program sees them.\<close>

lemma sound_gets:
  assumes "sound_cluster r"
  shows "run_state (getPV r k) w = (Inr v, w') \<Longrightarrow> sound_pv v"
    "run_state (getSnap r k) w = (Inr x, w') \<Longrightarrow> sound_snap x"
    "run_state (listContent r) w = (Inr cs, w') \<Longrightarrow> list_all sound_content cs"
    "run_state (getSnap r k) w = (Inr x, w') \<Longrightarrow> vs_SourceContentName x = Some n \<Longrightarrow>
       \<exists>c w''. run_state (getContent r (NN [] n)) w' = (Inr c, w'') \<and> sound_content c"
  using assms unfolding sound_cluster_def
  by (auto simp: getPV_def getSnap_def listContent_def getContent_def run_call)
    (metis prod.collapse fst_conv)+

lemma fearless_mapVolIDToPvcName [fearless_intros]:
  assumes "sound_cluster r"
  shows "fearless (mapVolIDToPvcName r cs)"
proof -
  have "fearless (mapLoop r k sys ids m cs)" for k sys ids m
  proof (induction cs arbitrary: k sys ids m)
    case (Cons c cs)
    show ?case
      by (simp add: Let_def, rule fearless_bind_result)
        (auto simp: sound_pv_def Let_def intro!: fearless_intros Cons.IH split: sum.split option.split
          dest!: sound_gets(1) [OF assms])
  qed (simp add: fearless_intros)
  then show ?thesis
    unfolding mapVolIDToPvcName_def by (auto intro!: fearless_intros split: sum.split)
qed

lemma fearless_findSources [fearless_intros]: "sound_cluster r \<Longrightarrow> fearless (findSources r v)"
  unfolding findSources_def getSourceVolIDsFromLabel_def getSourceVolIDsFromPvcName_def
    getSourceVolIDsFromNs_def
  by (auto intro!: fearless_intros split: option.split sum.split)

lemma fearless_checkExistingVolsnapcontent:
  assumes "sound_cluster r" and "sound_snap x"
  shows "fearless (checkExistingVolsnapcontent r x v i)"
proof -
  have check: "fearless (validateExistingVolSnapcontent c x v i)" if "sound_content c" for c
    using that assms(2)
    by (auto simp: validateExistingVolSnapcontent_def sound_content_def sound_snap_def Let_def
        intro!: fearless_intros split: option.split)
  show ?thesis
    unfolding checkExistingVolsnapcontent_def
    by (intro fearless_bind_result)
      (auto intro!: fearless_intros check split: sum.split option.split
        dest!: sound_gets(3) [OF assms(1)] simp: find_Some_iff list_all_length)
qed

text \<open>With a readable content the check of an existing snapshot finds every pointer it follows.\<close>

lemma sound_existingSnapErrors:
  "sound_snap x \<Longrightarrow> sound_content c \<Longrightarrow> existingSnapErrors n e c x v \<noteq> None"
  by (auto simp: existingSnapErrors_def sound_snap_def sound_content_def Let_def
      split: option.splits if_splits)

lemma checkExistingVolSnapshot_no_panic:
  assumes "sound_snap x" "vs_SourceContentName x = Some n"
    and "run_state (getContent r (NN [] n)) w = (Inr c, w')" "sound_content c"
  shows "fst (run_state (checkExistingVolSnapshot r x v i) w) \<noteq> Panic"
  using assms sound_existingSnapErrors [OF assms(1,4), of n None v]
  by (auto simp: checkExistingVolSnapshot_def split: option.split prod.split bool.split)

lemma fearless_createVolumeSnapshot [fearless_intros]:
  assumes "sound_cluster r"
  shows "fearless (createVolumeSnapshot r n cn v s sc)"
  unfolding fearless_def
proof
  fix w
  have create: "fearless (createContentAndSnap r n cn v s sc x ref)" for x ref
    unfolding createContentAndSnap_def by (auto intro!: fearless_intros split: sum.split)
  have check: "fearless (checkExistingVolsnapcontent r x v i)" if "sound_snap x" for x i
    using fearless_checkExistingVolsnapcontent [OF assms that] .
  obtain res w1 where get: "run_state (getSnap r (NN (vg_Namespace v) n)) w = (res, w1)" by force
  show "fst (run_state (createVolumeSnapshot r n cn v s sc) w) \<noteq> Panic"
  proof (cases "\<exists>x. res = Inr x \<and> vs_Name x \<noteq> []")
    case True
    then obtain x where x: "res = Inr x" "vs_Name x \<noteq> []" by blast
    have sound: "sound_snap x" using sound_gets(2) [OF assms] get x(1) by simp
    then obtain m where m: "vs_SourceContentName x = Some m" by (auto simp: sound_snap_def)
    obtain c w2 where "run_state (getContent r (NN [] m)) w1 = (Inr c, w2)" "sound_content c"
      using sound_gets(4) [OF assms] get x(1) m by blast
    from checkExistingVolSnapshot_no_panic [OF sound m this]
    have "fst (run_state (checkExistingVolSnapshot r x v (snap_SnapId s)) w1) \<noteq> Panic" .
    then show ?thesis
      using x
      by (simp add: createVolumeSnapshot_def get Let_def)
        (rule andThen_no_panic, auto intro!: fearless_intros check [OF sound] split: sum.split option.split)
  next
    case False
    then have "vs_Name (case res of Inl _ \<Rightarrow> empty_snap | Inr x \<Rightarrow> x) = []"
      by (auto simp: empty_snap_def split: sum.split)
    then show ?thesis
      using create [unfolded fearless_def]
      by (auto simp: createVolumeSnapshot_def get Let_def split: sum.split)
  qed
qed

lemma fearless_readyLoop [fearless_intros]:
  assumes "sound_cluster r"
  shows "fearless (readyLoop r ns names)"
proof (induction names)
  case (Cons n names)
  have "fearless (case (vs_Name (case res of Inl _ \<Rightarrow> empty_snap | Inr x \<Rightarrow> x) \<noteq> [],
        vs_Status (case res of Inl _ \<Rightarrow> empty_snap | Inr x \<Rightarrow> x)) of
      (True, Some st) \<Rightarrow> (case ss_ReadyToUse st of None \<Rightarrow> panic
        | Some status \<Rightarrow> if \<not> status then ret (False, None) else readyLoop r ns names)
    | _ \<Rightarrow> readyLoop r ns names)"
    if "run_state (getSnap r (NN ns n)) w = (res, w')" for res w w'
    using that sound_gets(2) [OF assms, of "NN ns n" w _ w']
    by (cases res) (auto simp: empty_snap_def sound_snap_def intro!: fearless_intros Cons.IH
        split: option.split bool.split)
  then show ?case by (auto simp: Let_def intro!: fearless_bind_result)
qed (simp add: fearless_intros)

lemma fearless_checkSnapshotStatus [fearless_intros]:
  assumes "sound_cluster r"
  shows "fearless (checkSnapshotStatus r ns names t)"
proof -
  have "fearless (pollLoop r ns names ts)" for ts
    using assms
    by (induction ts) (auto simp: checkReadyToUse_def intro!: fearless_intros split: tick.split option.split)
  then show ?thesis unfolding checkSnapshotStatus_def by (auto intro!: fearless_intros)
qed

lemma fearless_processResponse [fearless_intros]:
  assumes "sound_cluster r"
  shows "fearless (processResponse r res vm v sc g)"
proof -
  have "fearless (processSnapshots r vm v sc names errs ss)" for names errs ss
    using assms by (induction ss arbitrary: names errs) (auto simp: Let_def intro!: fearless_intros)
  with assms show ?thesis
    unfolding processResponse_def Let_def by (auto intro!: fearless_intros)
qed

lemma fearless_reconcile:
  assumes "sound_cluster r"
  shows "fearless (reconcile r req)"
  using assms
  unfolding reconcile_def reconcileCreate_def createChecked_def createFromClass_def createGroup_def
    finishCreate_def failCreate_def Let_def
  by (auto intro!: fearless_intros split: sum.split option.split bool.split)

section \<open>Properties\<close>

text \<open>C19: In a cluster that answers with sound objects (volumes with a CSI source, snapshots bound to a
  content that can be read and with their status flags set, contents with handle and class), no
  reconciliation panics, whatever calls fail otherwise; and as its wait ends when the timer
  fires, it returns a result to the work queue. The callbacks do not panic on sound snapshots
  either.\<close>

lemma sound_cluster_no_panic:
  assumes "sound_cluster r" and "Timeout \<in> set (sched w)" and "sound_snap x"
  shows "(\<exists>res. fst (run_state (reconcile r req) w) = Ret res)
     \<and> (\<exists>u. fst (run_state (handleSnapCreate r (WSnap x)) w) = Ret u)
     \<and> (\<exists>u. fst (run_state (handleSnapUpdate r (WSnap x)) w) = Ret u)"
proof -
  have returns: "\<exists>res. y = Ret res" if "y \<noteq> Panic" "y \<noteq> Hang" for y :: "'b outcome"
    using that by (cases y) auto
  have "fearless (handleSnapCreate r (WSnap x))" "fearless (handleSnapUpdate r (WSnap x))"
    using assms(3) unfolding handleSnapCreate_def handleSnapUpdate_def Let_def
    by (auto simp: sound_snap_def intro!: fearless_intros split: sum.split option.split)
  then show ?thesis
    using fearless_reconcile [OF assms(1), of req] ends_reconcile [of r req] assms(2)
      quick_snapshot_callbacks [of r "WSnap x"]
    unfolding fearless_def ends_def timed_def quick_def by (blast intro: returns)
qed

text \<open>A group of one claim whose member exists already, in a cluster whose writes all succeed.\<close>

definition sound_reconciler :: "unit reconciler" where
  "sound_reconciler = (example_reconciler ((failing_client (errorf ''down''))
     \<lparr>cl_GetVG := (\<lambda>k s. (Inr (example_group\<lparr>vg_Status := empty_status,
          vg_Spec := empty_spec\<lparr>spec_PvcList := Some [''a'']\<rparr>\<rparr>), s)),
      cl_UpdateVG := (\<lambda>v s. (Inr v, s)), cl_StatusUpdateVG := (\<lambda>v s. (Inr v, s)),
      cl_GetClass := (\<lambda>k s. (Inr example_class, s)),
      cl_GetPVC := (\<lambda>k s. (Inr (example_claim ''a'' ''v1'' ClaimBound), s)),
      cl_GetPV := (\<lambda>k s. (Inr (example_volume ''v1/array/scsi''), s)),
      cl_GetSnap := (\<lambda>k s. (Inr example_snap, s)),
      cl_GetContent := (\<lambda>k s. (Inr example_content, s)),
      cl_ListContent := (\<lambda>s. (Inr [example_content], s))\<rparr>))
     \<lparr>r_VGClient := (\<lambda>n ids ps s. (Inr \<lparr>res_SnapshotGroupID = ''array-7'',
        res_Snapshots = [example_csisnap], res_CreationTime = 5\<rparr>, s))\<rparr>"

lemma sound_cluster_no_panic_witness:
  "\<exists>res. fst (run_state (reconcile sound_reconciler (NN ''ns'' ''vg'')) (start () [Tick, Timeout])) = Ret res"
proof -
  have "sound_snap example_snap" "sound_content example_content" "sound_pv (example_volume ''v1/array/scsi'')"
    by (simp_all add: sound_snap_def example_snap_def makeVolSnap_def sound_content_def
        example_content_def sound_pv_def example_volume_def)
  moreover from this have "sound_cluster sound_reconciler"
    by (simp add: sound_cluster_def sound_reconciler_def example_reconciler_def failing_client_def)
  ultimately show ?thesis
    using sound_cluster_no_panic [of sound_reconciler "start () [Tick, Timeout]" example_snap] by simp
qed

end
