(* ===== verification/GoFlag.thy ===== *)
theory GoFlag
  imports GoLib
begin

text \<open>
  Go's \<open>flag\<close> package as \<^verbatim>\<open>main.go\<close> uses it: the flags of the command line, the values of the
  variables behind them, and \<open>Parse\<close>; with the readers of \<open>strconv\<close> and \<open>time\<close> that the values of
  integer, boolean and duration flags go through. Strings are bytes. The one floating-point step
  of \<open>time.ParseDuration\<close> (a fraction of a unit) is a parameter.
\<close>

section \<open>Numbers\<close>

definition is_digit :: "char \<Rightarrow> bool" where
  "is_digit c \<longleftrightarrow> 48 \<le> (of_char c :: nat) \<and> (of_char c :: nat) \<le> 57"

definition digit :: "char \<Rightarrow> nat" where
  "digit c = of_char c - 48"

text \<open>\<open>lower(c)\<close> of \<open>strconv\<close>, on letters.\<close>

definition lower :: "char \<Rightarrow> char" where
  "lower c = (if 65 \<le> (of_char c :: nat) \<and> (of_char c :: nat) \<le> 90 then char_of (of_char c + (32 :: nat)) else c)"

definition digitVal :: "char \<Rightarrow> nat option" where
  "digitVal c =
     (if is_digit c then Some (digit c)
      else if 97 \<le> (of_char (lower c) :: nat) \<and> (of_char (lower c) :: nat) \<le> 122
      then Some (of_char (lower c) - 87)
      else None)"

text \<open>The digit loop of \<open>strconv.ParseUint\<close> for base prefix 0: underscores are skipped here and
  their placement is checked afterwards; \<open>None\<close> is a syntax or range error.\<close>

primrec readDigits :: "nat \<Rightarrow> nat \<Rightarrow> string \<Rightarrow> nat option" where
  "readDigits base n [] = Some n"
| "readDigits base n (c # cs) =
     (if c = CHR ''_'' then readDigits base n cs
      else (case digitVal c of
              None \<Rightarrow> None
            | Some d \<Rightarrow>
                if d \<ge> base \<or> n * base + d \<ge> 2 ^ 64 then None
                else readDigits base (n * base + d) cs))"

primrec underscoreLoop :: "bool \<Rightarrow> char \<Rightarrow> string \<Rightarrow> bool" where
  "underscoreLoop hex saw [] \<longleftrightarrow> saw \<noteq> CHR ''_''"
| "underscoreLoop hex saw (c # cs) \<longleftrightarrow>
     (if is_digit c \<or> hex \<and> lower c \<in> set ''abcdef'' then underscoreLoop hex (CHR ''0'') cs
      else if c = CHR ''_'' then saw = CHR ''0'' \<and> underscoreLoop hex (CHR ''_'') cs
      else saw \<noteq> CHR ''_'' \<and> underscoreLoop hex (CHR ''!'') cs)"

definition basePrefix :: "string \<Rightarrow> (nat \<times> string) option" where
  "basePrefix s =
     (case s of
        z # b # c # rest \<Rightarrow>
          if z \<noteq> CHR ''0'' then None
          else if lower b = CHR ''b'' then Some (2, c # rest)
          else if lower b = CHR ''o'' then Some (8, c # rest)
          else if lower b = CHR ''x'' then Some (16, c # rest)
          else None
      | _ \<Rightarrow> None)"

definition underscoreOK :: "string \<Rightarrow> bool" where
  "underscoreOK s =
     (case basePrefix (s @ ''0'') of
        Some (base, _) \<Rightarrow> underscoreLoop (base = 16) (CHR ''0'') (drop 2 s)
      | None \<Rightarrow> underscoreLoop False (CHR ''^'') s)"

definition parseUint :: "string \<Rightarrow> nat option" where
  "parseUint s =
     (if s = [] then None
      else (let (base, digits) =
              (case basePrefix s of
                 Some p \<Rightarrow> p
               | None \<Rightarrow> if hd s = CHR ''0'' then (8, tl s) else (10, s))
            in if CHR ''_'' \<in> set digits \<and> \<not> underscoreOK s then None
               else readDigits base 0 digits))"

text \<open>\<open>strconv.ParseInt(s, 0, 64)\<close>.\<close>

definition parseInt :: "string \<Rightarrow> int64 option" where
  "parseInt s =
     (case s of
        [] \<Rightarrow> None
      | c # cs \<Rightarrow>
          let neg = (c = CHR ''-'');
              un = parseUint (if neg \<or> c = CHR ''+'' then cs else s)
          in (case un of
                None \<Rightarrow> None
              | Some n \<Rightarrow>
                  if neg then (if n \<le> 2 ^ 63 then Some (- of_nat n) else None)
                  else (if n < 2 ^ 63 then Some (of_nat n) else None)))"

text \<open>\<open>strconv.ParseBool\<close>.\<close>

definition parseBool :: "string \<Rightarrow> bool option" where
  "parseBool s =
     (if s \<in> {''1'', ''t'', ''T'', ''TRUE'', ''true'', ''True''} then Some True
      else if s \<in> {''0'', ''f'', ''F'', ''FALSE'', ''false'', ''False''} then Some False
      else None)"

section \<open>Durations\<close>

text \<open>\<open>time.unitMap\<close> in nanoseconds; the micro sign has two spellings in UTF-8.\<close>

definition unitMap :: "string \<rightharpoonup> nat" where
  "unitMap = map_of [(''ns'', 1), (''us'', 1000), ([CHR 0xC2, CHR 0xB5, CHR ''s''], 1000),
     ([CHR 0xCE, CHR 0xBC, CHR ''s''], 1000), (''ms'', 1000000), (''s'', 1000000000),
     (''m'', 60000000000), (''h'', 3600000000000)]"

definition decimal :: "string \<Rightarrow> nat" where
  "decimal s = foldl (\<lambda>x c. x * 10 + digit c) 0 s"

text \<open>\<open>leadingFraction\<close>: the digits as a number and their scale; digits that would overflow are
  dropped.\<close>

primrec leadingFraction :: "nat \<Rightarrow> nat \<Rightarrow> bool \<Rightarrow> string \<Rightarrow> nat \<times> nat" where
  "leadingFraction x scale overflow [] = (x, scale)"
| "leadingFraction x scale overflow (c # cs) =
     (if overflow then leadingFraction x scale True cs
      else if x > (2 ^ 63 - 1) div 10 then leadingFraction x scale True cs
      else if x * 10 + digit c > 2 ^ 63 then leadingFraction x scale True cs
      else leadingFraction (x * 10 + digit c) (scale * 10) False cs)"

text \<open>The loop of \<open>time.ParseDuration\<close> over groups of digits and unit; \<open>frac f scale unit\<close> is
  \<open>uint64(float64(f) * (float64(unit) / scale))\<close>.\<close>

function durationLoop :: "(nat \<Rightarrow> nat \<Rightarrow> nat \<Rightarrow> nat) \<Rightarrow> nat \<Rightarrow> string \<Rightarrow> nat option" where
  "durationLoop frac d s =
     (if s = [] then Some d
      else
        let pre = takeWhile is_digit s;
            s1 = dropWhile is_digit s;
            dot = (s1 \<noteq> [] \<and> hd s1 = CHR ''.'');
            post = (if dot then takeWhile is_digit (tl s1) else []);
            s2 = (if dot then dropWhile is_digit (tl s1) else s1);
            u = takeWhile (\<lambda>c. \<not> (c = CHR ''.'' \<or> is_digit c)) s2;
            s3 = dropWhile (\<lambda>c. \<not> (c = CHR ''.'' \<or> is_digit c)) s2;
            v = decimal pre;
            (f, scale) = leadingFraction 0 1 False post
        in if v > 2 ^ 63 \<or> pre = [] \<and> post = [] \<or> u = [] then None
           else (case unitMap u of
                   None \<Rightarrow> None
                 | Some unit \<Rightarrow>
                     if v > 2 ^ 63 div unit then None
                     else let v' = v * unit + (if f > 0 then frac f scale unit else 0)
                          in if v' > 2 ^ 63 \<or> d + v' > 2 ^ 63 then None
                             else durationLoop frac (d + v') s3))"
  by pat_completeness auto

termination durationLoop
proof (relation "measure (\<lambda>(frac, d, s). length s)", goal_cases)
  case (2 frac d s pre s1 dot post s2 u s3 v fs f scale unit v')
  have "length s1 \<le> length s" using 2(3) by (simp add: length_dropWhile_le)
  moreover have "length s2 \<le> length s1"
    using 2(6) by (auto simp: length_dropWhile_le intro: order_trans [OF length_dropWhile_le])
  moreover have "length s2 = length u + length s3"
    using 2(7,8) by (metis length_append takeWhile_dropWhile_id)
  moreover have "u \<noteq> []" using 2(12) by simp
  ultimately show ?case by (cases u) simp_all
qed simp

declare durationLoop.simps [simp del]

text \<open>\<open>time.ParseDuration\<close>.\<close>

definition parseDuration :: "(nat \<Rightarrow> nat \<Rightarrow> nat \<Rightarrow> nat) \<Rightarrow> string \<Rightarrow> int64 option" where
  "parseDuration frac s =
     (let neg = (s \<noteq> [] \<and> hd s = CHR ''-'');
          s' = (if s \<noteq> [] \<and> (hd s = CHR ''-'' \<or> hd s = CHR ''+'') then tl s else s)
      in if s' = ''0'' then Some 0
         else if s' = [] then None
         else (case durationLoop frac 0 s' of
                 None \<Rightarrow> None
               | Some d \<Rightarrow>
                   if neg then Some (- of_nat d)
                   else if d > 2 ^ 63 - 1 then None else Some (of_nat d)))"

section \<open>Flags\<close>

datatype flagval =
  StringVal string | BoolVal bool | IntVal int64 | DurationVal int64 | ForeignVal string

text \<open>A flag: whether it is a boolean flag, and its \<open>Set\<close> (\<open>None\<close> for an error).\<close>

record flagdef =
  fd_IsBool :: bool
  fd_Set :: "string \<Rightarrow> flagval option"

record flagset =
  formal :: "string \<rightharpoonup> flagdef"
  vals :: "string \<rightharpoonup> flagval"

text \<open>\<open>StringVar\<close>, \<open>BoolVar\<close>, ...: name, definition and default. Defining a name twice panics.\<close>

type_synonym flagvar = "string \<times> flagdef \<times> flagval"

definition defineFlag :: "flagset \<Rightarrow> flagvar \<Rightarrow> flagset option" where
  "defineFlag fs x =
     (case x of (name, def, val) \<Rightarrow>
        if formal fs name \<noteq> None then None
        else Some \<lparr>formal = (formal fs)(name \<mapsto> def), vals = (vals fs)(name \<mapsto> val)\<rparr>)"

primrec defineFlags :: "flagset \<Rightarrow> flagvar list \<Rightarrow> flagset option" where
  "defineFlags fs [] = Some fs"
| "defineFlags fs (x # xs) =
     (case defineFlag fs x of None \<Rightarrow> None | Some fs' \<Rightarrow> defineFlags fs' xs)"

definition stringVar :: "string \<Rightarrow> string \<Rightarrow> flagvar" where
  "stringVar name dflt = (name, \<lparr>fd_IsBool = False, fd_Set = \<lambda>s. Some (StringVal s)\<rparr>, StringVal dflt)"

definition boolVar :: "string \<Rightarrow> bool \<Rightarrow> flagvar" where
  "boolVar name dflt =
     (name, \<lparr>fd_IsBool = True, fd_Set = \<lambda>s. map_option BoolVal (parseBool s)\<rparr>, BoolVal dflt)"

definition intVar :: "string \<Rightarrow> int64 \<Rightarrow> flagvar" where
  "intVar name dflt =
     (name, \<lparr>fd_IsBool = False, fd_Set = \<lambda>s. map_option IntVal (parseInt s)\<rparr>, IntVal dflt)"

definition durationVar :: "(nat \<Rightarrow> nat \<Rightarrow> nat \<Rightarrow> nat) \<Rightarrow> string \<Rightarrow> int64 \<Rightarrow> flagvar" where
  "durationVar frac name dflt =
     (name, \<lparr>fd_IsBool = False, fd_Set = \<lambda>s. map_option DurationVal (parseDuration frac s)\<rparr>,
      DurationVal dflt)"

text \<open>The variable behind a flag.\<close>

definition the_string :: "flagset \<Rightarrow> string \<Rightarrow> string" where
  "the_string fs n = (case vals fs n of Some (StringVal s) \<Rightarrow> s | _ \<Rightarrow> [])"

definition the_bool :: "flagset \<Rightarrow> string \<Rightarrow> bool" where
  "the_bool fs n = (case vals fs n of Some (BoolVal b) \<Rightarrow> b | _ \<Rightarrow> False)"

definition the_int :: "flagset \<Rightarrow> string \<Rightarrow> int64" where
  "the_int fs n = (case vals fs n of Some (IntVal i) \<Rightarrow> i | _ \<Rightarrow> 0)"

definition the_duration :: "flagset \<Rightarrow> string \<Rightarrow> int64" where
  "the_duration fs n = (case vals fs n of Some (DurationVal i) \<Rightarrow> i | _ \<Rightarrow> 0)"

lemmas the_value_defs = the_string_def the_bool_def the_int_def the_duration_def

section \<open>Parsing the command line\<close>

text \<open>One argument: not a flag, the terminator \<open>--\<close>, bad syntax, or a name with or without
  \<open>=val\<close>.\<close>

datatype token = Plain | Terminator | Malformed | Flag string "string option"

definition flagToken :: "string \<Rightarrow> token" where
  "flagToken s =
     (if length s < 2 \<or> hd s \<noteq> CHR ''-'' then Plain
      else if s = ''--'' then Terminator
      else let name = (if s ! 1 = CHR ''-'' then drop 2 s else drop 1 s)
           in if hd name = CHR ''-'' \<or> hd name = CHR ''='' then Malformed
              else Flag (takeWhile (\<lambda>c. c \<noteq> CHR ''='') name)
                (if CHR ''='' \<in> set name then Some (tl (dropWhile (\<lambda>c. c \<noteq> CHR ''='') name)) else None))"

text \<open>\<open>Parse\<close> of a flag set with \<open>ExitOnError\<close>: the exit status (2 for an error, 0 after printing
  the help) or the assignments made, in order.\<close>

definition unknownFlag :: "string \<Rightarrow> nat" where
  "unknownFlag name = (if name = ''help'' \<or> name = ''h'' then 0 else 2)"

definition assign :: "flagdef \<Rightarrow> string \<Rightarrow> string \<Rightarrow> nat + (string \<times> flagval) list
    \<Rightarrow> nat + (string \<times> flagval) list" where
  "assign fl name val rest =
     (case fd_Set fl val of
        None \<Rightarrow> Inl 2
      | Some x \<Rightarrow> (case rest of Inl code \<Rightarrow> Inl code | Inr as \<Rightarrow> Inr ((name, x) # as)))"

fun parseArgs :: "(string \<rightharpoonup> flagdef) \<Rightarrow> string list \<Rightarrow> nat + (string \<times> flagval) list" where
  "parseArgs fs [] = Inr []"
| "parseArgs fs (s # args) =
     (case flagToken s of
        Plain \<Rightarrow> Inr []
      | Terminator \<Rightarrow> Inr []
      | Malformed \<Rightarrow> Inl 2
      | Flag name val \<Rightarrow>
          (case fs name of
             None \<Rightarrow> Inl (unknownFlag name)
           | Some fl \<Rightarrow>
               if fd_IsBool fl
               then assign fl name (case val of None \<Rightarrow> ''true'' | Some v \<Rightarrow> v) (parseArgs fs args)
               else (case val of
                       Some v \<Rightarrow> assign fl name v (parseArgs fs args)
                     | None \<Rightarrow>
                         (case args of
                            [] \<Rightarrow> Inl 2
                          | v # args' \<Rightarrow> assign fl name v (parseArgs fs args')))))"

definition parse :: "flagset \<Rightarrow> string list \<Rightarrow> nat + flagset" where
  "parse fs args =
     (case parseArgs (formal fs) args of
        Inl code \<Rightarrow> Inl code
      | Inr as \<Rightarrow> Inr (fs\<lparr>vals := vals fs ++ map_of (rev as)\<rparr>))"

section \<open>Lemmas\<close>

subsection \<open>Definitions and a second parse\<close>

lemma defineFlag_Some:
  "defineFlag fs (n, d, v) = Some fs' \<longleftrightarrow>
     formal fs n = None \<and> formal fs' = (formal fs)(n \<mapsto> d) \<and> vals fs' = (vals fs)(n \<mapsto> v)"
  by (auto simp: defineFlag_def)

lemma defineFlags_old:
  "defineFlags fs xs = Some fs' \<Longrightarrow> formal fs n = Some d \<Longrightarrow>
     formal fs' n = Some d \<and> vals fs' n = vals fs n"
proof (induction xs arbitrary: fs)
  case (Cons x xs)
  obtain m e v where x: "x = (m, e, v)" by (cases x)
  with Cons.prems obtain fs1 where
    1: "defineFlag fs (m, e, v) = Some fs1" "defineFlags fs1 xs = Some fs'"
    by (auto split: option.splits)
  then have "formal fs1 n = Some d" "vals fs1 n = vals fs n"
    using Cons.prems(2) by (auto simp: defineFlag_Some)
  with Cons.IH [OF 1(2)] show ?case by simp
qed simp

text \<open>A definition that goes through is new, and leaves its default.\<close>

lemma defineFlags_new:
  "defineFlags fs xs = Some fs' \<Longrightarrow> (n, d, v) \<in> set xs \<Longrightarrow>
     formal fs n = None \<and> formal fs' n = Some d \<and> vals fs' n = Some v"
proof (induction xs arbitrary: fs)
  case (Cons x xs)
  obtain m e u where x: "x = (m, e, u)" by (cases x)
  with Cons.prems obtain fs1 where
    1: "defineFlag fs (m, e, u) = Some fs1" "defineFlags fs1 xs = Some fs'"
    by (auto split: option.splits)
  then have fs1: "formal fs m = None" "formal fs1 = (formal fs)(m \<mapsto> e)" "vals fs1 = (vals fs)(m \<mapsto> u)"
    by (simp_all add: defineFlag_Some)
  show ?case
  proof (cases "(n, d, v) \<in> set xs")
    case True
    with Cons.IH [OF 1(2)] fs1 show ?thesis by (auto split: if_splits)
  next
    case False
    with Cons.prems x have "(n, d, v) = (m, e, u)" by simp
    with fs1 defineFlags_old [OF 1(2), of n d] show ?thesis by simp
  qed
qed simp

lemma defineFlags_mono: "defineFlags fs xs = Some fs' \<Longrightarrow> formal fs \<subseteq>\<^sub>m formal fs'"
  by (auto simp: map_le_def dest: defineFlags_old)

lemma assign_Inr:
  "assign fl n v rest = Inr asg \<longleftrightarrow>
     (\<exists>x bs. fd_Set fl v = Some x \<and> rest = Inr bs \<and> asg = (n, x) # bs)"
  by (auto simp: assign_def split: option.splits sum.splits)

text \<open>What parsed with some flags parses in the same way when there are more of them, and sets
  flags that were defined.\<close>

lemma parseArgs_more:
  "parseArgs fs args = Inr asg \<Longrightarrow> fs \<subseteq>\<^sub>m fs' \<Longrightarrow> parseArgs fs' args = Inr asg"
proof (induction fs args arbitrary: asg rule: parseArgs.induct)
  case (2 fs s args)
  show ?case
  proof (cases "flagToken s")
    case (Flag n arg)
    with "2.prems" obtain fl where fl: "fs n = Some fl" by (auto split: option.splits)
    with "2.prems"(2) have fl': "fs' n = Some fl" by (auto simp: map_le_def dom_def)
    show ?thesis
    proof (cases "fd_IsBool fl")
      case True
      with "2.prems" Flag fl fl' "2.IH"(1) [OF Flag fl True] show ?thesis
        by (auto simp: assign_Inr)
    next
      case False
      show ?thesis
      proof (cases arg)
        case None
        with False "2.prems" Flag fl fl' "2.IH"(2) [OF Flag fl False None] show ?thesis
          by (cases args) (auto simp: assign_Inr)
      next
        case (Some v)
        with False "2.prems" Flag fl fl' "2.IH"(3) [OF Flag fl False Some] show ?thesis
          by (auto simp: assign_Inr)
      qed
    qed
  qed (use "2.prems" in auto)
qed simp

lemma parseArgs_defined:
  "parseArgs fs args = Inr asg \<Longrightarrow> (n, x) \<in> set asg \<Longrightarrow> fs n \<noteq> None"
proof (induction fs args arbitrary: asg rule: parseArgs.induct)
  case (2 fs s args)
  show ?case
  proof (cases "flagToken s")
    case (Flag m arg)
    with "2.prems" obtain fl where fl: "fs m = Some fl" by (auto split: option.splits)
    show ?thesis
    proof (cases "fd_IsBool fl")
      case True
      with "2.prems" Flag fl "2.IH"(1) [OF Flag fl True] show ?thesis
        by (auto simp: assign_Inr)
    next
      case False
      show ?thesis
      proof (cases arg)
        case None
        with False "2.prems" Flag fl "2.IH"(2) [OF Flag fl False None] show ?thesis
          by (cases args) (auto simp: assign_Inr)
      next
        case (Some v)
        with False "2.prems" Flag fl "2.IH"(3) [OF Flag fl False Some] show ?thesis
          by (auto simp: assign_Inr)
      qed
    qed
  qed (use "2.prems" in auto)
qed simp

text \<open>So a flag defined between two parses of the same arguments keeps its default.\<close>

lemma parse_Inr:
  "parse fs args = Inr fs' \<longleftrightarrow>
     (\<exists>asg. parseArgs (formal fs) args = Inr asg \<and> fs' = fs\<lparr>vals := vals fs ++ map_of (rev asg)\<rparr>)"
  by (auto simp: parse_def split: sum.splits)

lemma late_flag_default:
  assumes "parse fs args = Inr fs1" and "defineFlags fs1 late = Some fs2"
    and "parse fs2 args = Inr fs3" and "(n, d, v) \<in> set late"
  shows "vals fs3 n = Some v"
proof -
  obtain asg where asg: "parseArgs (formal fs) args = Inr asg" and formal: "formal fs1 = formal fs"
    using assms(1) by (auto simp: parse_Inr)
  have "parseArgs (formal fs2) args = Inr asg"
    using parseArgs_more [OF asg] defineFlags_mono [OF assms(2)] formal by simp
  with assms(3) have fs3: "vals fs3 = vals fs2 ++ map_of (rev asg)" by (auto simp: parse_Inr)
  have "formal fs n = None" "vals fs2 n = Some v"
    using defineFlags_new [OF assms(2,4)] formal by simp_all
  moreover from this(1) have "map_of (rev asg) n = None"
    using parseArgs_defined [OF asg, of n] by (auto simp: map_of_eq_None_iff)
  ultimately show ?thesis by (simp add: fs3 map_add_def)
qed

text \<open>And a second parse sets again what the first one set.\<close>

lemma parse_twice:
  assumes "parse fs args = Inr fs1" and "defineFlags fs1 late = Some fs2"
  shows "\<exists>fs3. parse fs2 args = Inr fs3 \<and> (\<forall>n. formal fs n \<noteq> None \<longrightarrow> vals fs3 n = vals fs1 n)"
proof -
  obtain asg where asg: "parseArgs (formal fs) args = Inr asg"
    and fs1: "fs1 = fs\<lparr>vals := vals fs ++ map_of (rev asg)\<rparr>"
    using assms(1) by (auto simp: parse_Inr)
  have "parseArgs (formal fs2) args = Inr asg"
    using parseArgs_more [OF asg] defineFlags_mono [OF assms(2)] fs1 by simp
  moreover have "formal fs n \<noteq> None \<Longrightarrow> vals fs2 n = vals fs1 n" for n
    using defineFlags_old [OF assms(2)] fs1 by auto
  ultimately show ?thesis
    by (simp add: parse_Inr fs1 map_add_def split: option.split)
qed

subsection \<open>Decimal numbers\<close>

fun show_nat :: "nat \<Rightarrow> string" where
  "show_nat n = (if n < 10 then [char_of (n + 48)] else show_nat (n div 10) @ [char_of (n mod 10 + 48)])"

declare show_nat.simps [simp del]

lemma of_char_digit: "d < 10 \<Longrightarrow> of_char (char_of (d + 48) :: char) = (d + 48 :: nat)"
  by simp

lemma digit_char [simp]: "d < 10 \<Longrightarrow> is_digit (char_of (d + 48))"
  "d < 10 \<Longrightarrow> digit (char_of (d + 48)) = d"
  by (simp_all add: is_digit_def digit_def)

lemma show_nat_digits: "c \<in> set (show_nat n) \<Longrightarrow> is_digit c"
proof (induction n rule: show_nat.induct)
  case (1 n)
  then show ?case by (subst (asm) show_nat.simps) (auto split: if_splits)
qed

lemma show_nat_nonempty [simp]: "show_nat n \<noteq> []"
  by (subst show_nat.simps) simp

lemma decimal_show: "decimal (show_nat n) = n"
proof (induction n rule: show_nat.induct)
  case (1 n)
  then show ?case by (subst show_nat.simps) (simp add: decimal_def)
qed

lemma hd_show_nat: "n > 0 \<Longrightarrow> hd (show_nat n) \<noteq> CHR ''0''"
proof (induction n rule: show_nat.induct)
  case (1 n)
  show ?case
  proof (cases "n < 10")
    case True
    have "char_of (n + 48) \<noteq> CHR ''0''"
    proof
      assume "char_of (n + 48) = CHR ''0''"
      then have "of_char (char_of (n + 48) :: char) = (48 :: nat)" by simp
      with of_char_digit [OF True] 1(2) show False by simp
    qed
    with True show ?thesis by (subst show_nat.simps) simp
  next
    case False
    then show ?thesis using 1 by (subst show_nat.simps) simp
  qed
qed

lemma readDigits_append:
  "readDigits b m (xs @ ys) = (case readDigits b m xs of None \<Rightarrow> None | Some k \<Rightarrow> readDigits b k ys)"
  by (induction xs arbitrary: m) (auto split: option.split)

lemma digit_not_underscore: "is_digit c \<Longrightarrow> c \<noteq> CHR ''_''"
  by (auto simp: is_digit_def)

lemma digitVal_char: "d < 10 \<Longrightarrow> digitVal (char_of (d + 48)) = Some d"
  by (simp add: digitVal_def)

lemma readDigits_show: "n < 2 ^ 64 \<Longrightarrow> readDigits 10 0 (show_nat n) = Some n"
proof (induction n rule: show_nat.induct)
  case (1 n)
  have nu: "char_of (d + 48) \<noteq> CHR ''_''" if "d < 10" for d :: nat
    using that digit_not_underscore digit_char(1) by blast
  show ?case
  proof (cases "n < 10")
    case True
    then show ?thesis by (subst show_nat.simps) (simp add: digitVal_char nu)
  next
    case False
    have "n div 10 < 2 ^ 64" using "1.prems" by (rule le_less_trans [OF div_le_dividend])
    with False "1.IH" have "readDigits 10 0 (show_nat (n div 10)) = Some (n div 10)" by simp
    moreover have "n div 10 * 10 + n mod 10 = n" by simp
    ultimately show ?thesis
      using False "1.prems"
      by (subst show_nat.simps) (simp add: readDigits_append digitVal_char nu)
  qed
qed

text \<open>Decimal numerals read back, as integers and as a number of seconds.\<close>

lemma show_nat_no_sign:
  "c \<in> set (show_nat n) \<Longrightarrow> c \<notin> {CHR ''-'', CHR ''+'', CHR ''_'', CHR ''.''}"
  by (drule show_nat_digits) (auto simp: is_digit_def)

lemma basePrefix_show: "basePrefix (show_nat n) = None"
proof (cases "n = 0")
  case True
  then show ?thesis by (simp add: show_nat.simps basePrefix_def)
next
  case False
  then have "hd (show_nat n) \<noteq> CHR ''0''" by (simp add: hd_show_nat)
  then show ?thesis by (auto simp: basePrefix_def split: list.split)
qed

lemma parseUint_show: "n < 2 ^ 64 \<Longrightarrow> parseUint (show_nat n) = Some n"
proof (cases "n = 0")
  case True
  moreover have "show_nat 0 = ''0''" by code_simp
  ultimately show ?thesis by (simp add: parseUint_def basePrefix_def)
next
  case False
  then have "hd (show_nat n) \<noteq> CHR ''0''" by (simp add: hd_show_nat)
  moreover have "CHR ''_'' \<notin> set (show_nat n)" using show_nat_no_sign by blast
  moreover assume "n < 2 ^ 64"
  ultimately show ?thesis by (simp add: parseUint_def basePrefix_show readDigits_show)
qed

lemma parseInt_show: "n < 2 ^ 63 \<Longrightarrow> parseInt (show_nat n) = Some (of_nat n)"
proof -
  assume n: "n < 2 ^ 63"
  obtain c cs where s: "show_nat n = c # cs" by (cases "show_nat n") auto
  then have "c \<noteq> CHR ''-''" "c \<noteq> CHR ''+''" using show_nat_no_sign [of c n] by auto
  with n s parseUint_show [of n] show ?thesis by (simp add: parseInt_def)
qed

lemma durationLoop_seconds:
  assumes "n \<le> 9223372036"
  shows "durationLoop frac 0 (show_nat n @ ''s'') = Some (n * 1000000000)"
proof -
  have digits: "takeWhile is_digit (show_nat n @ ''s'') = show_nat n"
    "dropWhile is_digit (show_nat n @ ''s'') = ''s''"
    using show_nat_digits by (simp_all add: is_digit_def)
  have unit: "takeWhile (\<lambda>c. \<not> (c = CHR ''.'' \<or> is_digit c)) ''s'' = ''s''"
    "dropWhile (\<lambda>c. \<not> (c = CHR ''.'' \<or> is_digit c)) ''s'' = []"
    by (simp_all add: is_digit_def)
  have "unitMap ''s'' = Some 1000000000" "\<not> is_digit (CHR ''s'')"
    by (simp_all add: unitMap_def is_digit_def)
  then show ?thesis
    using assms
    by (subst durationLoop.simps) (simp add: digits unit decimal_show durationLoop.simps [of _ _ "[]"])
qed

lemma parseDuration_seconds:
  assumes "n \<le> 9223372036"
  shows "parseDuration frac (show_nat n @ ''s'') = Some (of_nat n * 1000000000)"
proof -
  obtain c cs where s: "show_nat n = c # cs" by (cases "show_nat n") auto
  then have "c \<noteq> CHR ''-''" "c \<noteq> CHR ''+''" using show_nat_no_sign [of c n] by auto
  moreover have "n * 1000000000 \<le> 2 ^ 63 - 1" using assms by simp
  ultimately show ?thesis
    using durationLoop_seconds [OF assms, of frac] s by (simp add: parseDuration_def)
qed

end
