(* ===== verification/CsiClient.thy ===== *)
theory CsiClient
  imports Cluster
begin

text \<open>
  The gRPC client of the driver and the connection to its socket. Source:
  \<^verbatim>\<open>pkg/csiclient/csiclient.go\<close> and \<^verbatim>\<open>pkg/connection/connection.go\<close>. The driver on the
  other side, \<open>status.FromError\<close> and \<open>grpc.Dial\<close> are parameters. \<open>Connect\<close> and \<open>ProbeDriver\<close>
  retry without a bound, so they are partial functions: \<open>None\<close> is a call that never returns.
\<close>

section \<open>The driver client\<close>

text \<open>The request message of the extension.\<close>

record vgsrequest =
  req_Name :: string
  req_SourceVolumeIDs :: "string list"
  req_Parameters :: "(string \<times> string) list"

text \<open>
  The remote side of a connection in state \<open>'c\<close>: each RPC with the deadline of its context in
  nanoseconds. \<open>grpcCode\<close> is \<open>status.FromError\<close>: the status code, or \<open>None\<close> for an error that
  does not come from gRPC.
\<close>

record 'c remote =
  rm_Create :: "int64 \<Rightarrow> vgsrequest \<Rightarrow> 'c \<Rightarrow> (error + vgsresponse) \<times> 'c"
  rm_Probe :: "int64 \<Rightarrow> 'c \<Rightarrow> (error + string) \<times> 'c"
  rm_Code :: "error \<Rightarrow> nat option"

text \<open>\<open>codes.DeadlineExceeded\<close>.\<close>

definition DeadlineExceeded :: nat where "DeadlineExceeded = 4"

text \<open>\<open>VolumeGroupSnapshotClient\<close>: the connection and the timeout of one call.\<close>

record 'c vgsclient =
  cc_conn :: "'c remote"
  cc_timeout :: int64

definition newCsiClient :: "'c remote \<Rightarrow> int64 \<Rightarrow> 'c vgsclient" where
  "newCsiClient conn timeout = \<lparr>cc_conn = conn, cc_timeout = timeout\<rparr>"

definition createVolumeGroupSnapshot ::
  "'c vgsclient \<Rightarrow> string \<Rightarrow> string list \<Rightarrow> (string \<times> string) list \<Rightarrow> 'c
     \<Rightarrow> (error + vgsresponse) \<times> 'c" where
  "createVolumeGroupSnapshot v vgName volIDs params =
     rm_Create (cc_conn v) (cc_timeout v)
       \<lparr>req_Name = vgName, req_SourceVolumeIDs = volIDs, req_Parameters = params\<rparr>"

definition probeController :: "'c vgsclient \<Rightarrow> 'c \<Rightarrow> (error + string) \<times> 'c" where
  "probeController v c =
     (case rm_Probe (cc_conn v) (cc_timeout v) c of
        (Inl err, c') \<Rightarrow> (Inl err, c')
      | (Inr driverName, c') \<Rightarrow> (Inr driverName, c'))"

text \<open>The retry loop; the number counts the sleeps of one second before the answer.\<close>

partial_function (option) probeDriver ::
  "'c vgsclient \<Rightarrow> nat \<Rightarrow> 'c \<Rightarrow> ((error + string) \<times> nat \<times> 'c) option" where
  "probeDriver v sleeps c =
     (case probeController v c of
        (Inr driverName, c') \<Rightarrow> Some (Inr driverName, sleeps, c')
      | (Inl err, c') \<Rightarrow>
          (case rm_Code (cc_conn v) err of
             None \<Rightarrow> Some (Inl err, sleeps, c')
           | Some code \<Rightarrow>
               if code \<noteq> DeadlineExceeded then Some (Inl err, sleeps, c')
               else probeDriver v (Suc sleeps) c'))"

section \<open>The connection\<close>

definition dialAddress :: "string \<Rightarrow> string" where
  "dialAddress address = (if has_prefix address ''/'' then ''unix://'' @ address else address)"

text \<open>What the \<open>select\<close> of \<open>Connect\<close> receives: the logging ticker, or the end of the dial.\<close>

datatype 'c dialevent = StillConnecting | Ready "error + 'c"

primrec connectLoop :: "'c dialevent list \<Rightarrow> (error + 'c) option" where
  "connectLoop [] = None"
| "connectLoop (e # es) = (case e of StillConnecting \<Rightarrow> connectLoop es | Ready res \<Rightarrow> Some res)"

definition connect :: "(string \<Rightarrow> 'c dialevent list) \<Rightarrow> string \<Rightarrow> (error + 'c) option" where
  "connect dial address = connectLoop (dial (dialAddress address))"

section \<open>Lemmas\<close>

text \<open>A probe that the loop retries: the deadline of the call passed.\<close>

definition timed_out :: "'c vgsclient \<Rightarrow> (error + string) \<Rightarrow> bool" where
  "timed_out v res \<longleftrightarrow>
     (case res of Inl err \<Rightarrow> rm_Code (cc_conn v) err = Some DeadlineExceeded | Inr _ \<Rightarrow> False)"

lemma probeController_id: "probeController v c = rm_Probe (cc_conn v) (cc_timeout v) c"
  by (simp add: probeController_def split: prod.split sum.split)

lemma probeDriver_step:
  "probeDriver v k c =
     (case probeController v c of (res, c') \<Rightarrow>
        if timed_out v res then probeDriver v (Suc k) c' else Some (res, k, c'))"
  by (subst probeDriver.simps)
    (auto simp: timed_out_def split: prod.split sum.split option.split)

text \<open>The answers of the driver to the first, second, ... probe.\<close>

primrec probes :: "'c vgsclient \<Rightarrow> nat \<Rightarrow> 'c \<Rightarrow> (error + string) \<times> 'c" where
  "probes v 0 c = probeController v c"
| "probes v (Suc n) c = probes v n (snd (probeController v c))"

lemma probeDriver_first_answer:
  "(\<And>i. i < n \<Longrightarrow> timed_out v (fst (probes v i c))) \<Longrightarrow> \<not> timed_out v (fst (probes v n c)) \<Longrightarrow>
     probeDriver v k c = Some (fst (probes v n c), k + n, snd (probes v n c))"
proof (induction n arbitrary: k c)
  case 0
  then show ?case by (subst probeDriver_step) (simp add: split_def)
next
  case (Suc n)
  let ?c = "snd (probeController v c)"
  have "timed_out v (fst (probeController v c))" using Suc.prems(1) [of 0] by simp
  moreover have "\<And>i. i < n \<Longrightarrow> timed_out v (fst (probes v i ?c))"
    using Suc.prems(1) [of "Suc i" for i] by simp
  ultimately show ?case
    using Suc.IH [of ?c "Suc k"] Suc.prems(2) by (subst probeDriver_step) (simp add: split_def)
qed

text \<open>A result of the loop is the answer of the first probe it did not retry.\<close>

definition answered_at :: "'c vgsclient \<Rightarrow> 'c \<Rightarrow> nat \<Rightarrow> bool" where
  "answered_at v c n \<longleftrightarrow>
     list_all (\<lambda>i. timed_out v (fst (probes v i c))) [0..<n] \<and> \<not> timed_out v (fst (probes v n c))"

lemma answered_at_Suc:
  "timed_out v (fst (probeController v c)) \<Longrightarrow> answered_at v (snd (probeController v c)) n \<Longrightarrow>
     answered_at v c (Suc n)"
  by (simp add: answered_at_def upt_conv_Cons map_Suc_upt [symmetric] list.pred_map o_def del: upt_Suc)

lemma probeDriver_Some:
  assumes "probeDriver v k c = Some y"
  shows "\<exists>n. answered_at v c n \<and> y = (fst (probes v n c), k + n, snd (probes v n c))"
  using assms
proof (rule probeDriver.raw_induct [rotated])
  fix f v k c y
  assume IH: "\<And>v k c y. f v k c = Some y \<Longrightarrow>
      \<exists>n. answered_at v c n \<and> y = (fst (probes v n c), k + n, snd (probes v n c))"
    and body: "(case probeController v c of
        (Inl err, c') \<Rightarrow> (case rm_Code (cc_conn v) err of
           None \<Rightarrow> Some (Inl err, k, c')
         | Some code \<Rightarrow> if code \<noteq> DeadlineExceeded then Some (Inl err, k, c') else f v (Suc k) c')
      | (Inr driverName, c') \<Rightarrow> Some (Inr driverName, k, c')) = Some y"
  obtain res c' where p: "probeController v c = (res, c')" by force
  show "\<exists>n. answered_at v c n \<and> y = (fst (probes v n c), k + n, snd (probes v n c))"
  proof (cases "timed_out v res")
    case True
    with p body have "f v (Suc k) c' = Some y"
      by (auto simp: timed_out_def split: sum.splits)
    from IH [OF this] obtain n where
      "answered_at v c' n" "y = (fst (probes v n c'), Suc k + n, snd (probes v n c'))" by blast
    with answered_at_Suc [of v c n] True p show ?thesis
      by (intro exI [of _ "Suc n"]) simp
  next
    case False
    with p body have "y = (res, k, c')"
      by (auto simp: timed_out_def split: sum.splits option.splits if_splits)
    with False p show ?thesis
      by (intro exI [of _ 0]) (simp add: answered_at_def)
  qed
qed

section \<open>Properties\<close>

text \<open>C31: The start-up probe comes back exactly when the driver at some time answers a probe before the
  deadline of the call (with its name or with another error); it then returns the first such
  answer, after one sleep for each deadline that passed before. So the controller never starts
  on a name it did not get, and waits for ever on a driver that never answers.\<close>

lemma probe_driver_first_answer:
  "probeDriver v 0 c = Some (res, sleeps, c')
     \<longleftrightarrow> answered_at v c sleeps \<and> (res, c') = probes v sleeps c"
proof
  assume "probeDriver v 0 c = Some (res, sleeps, c')"
  from probeDriver_Some [OF this] show "answered_at v c sleeps \<and> (res, c') = probes v sleeps c"
    by (auto simp: prod_eq_iff)
next
  assume "answered_at v c sleeps \<and> (res, c') = probes v sleeps c"
  then show "probeDriver v 0 c = Some (res, sleeps, c')"
    using probeDriver_first_answer [of sleeps v c 0]
    by (simp add: answered_at_def list_all_iff prod_eq_iff)
qed

text \<open>Connecting returns what the dial returned, however often the ticker logged before, and dials
  a path as a Unix socket and any other address as it is given.\<close>

lemma connect_returns_dial:
  "connect (\<lambda>a. replicate n StillConnecting @ Ready (dial a) # es) address
     = Some (dial (if address \<noteq> [] \<and> hd address = CHR ''/'' then ''unix://'' @ address else address))"
proof -
  have "connectLoop (replicate n StillConnecting @ Ready x # es) = Some x" for x
    by (induction n) simp_all
  moreover have "has_prefix address ''/'' \<longleftrightarrow> address \<noteq> [] \<and> hd address = CHR ''/''"
    by (cases address) simp_all
  ultimately show ?thesis by (simp add: connect_def dialAddress_def)
qed

end
