(* ===== verification/Startup.thy ===== *)
theory Startup
  imports GoFlag CsiClient Informers
begin

text \<open>
  The start of the process: registration of the API types, the command line, the connection to
  the driver, its probe, the manager and the controller. Source: \<^verbatim>\<open>main.go\<close> and
  \<^verbatim>\<open>api/v1/groupversion_info.go\<close>. Everything of client-go, controller-runtime and gRPC that is
  called is a field of \<open>machine\<close>. The program runs in the state monad of the other components;
  its result is the exit status of an \<open>os.Exit\<close>, or \<open>None\<close> where \<open>main\<close> returns; \<open>Panic\<close> and
  \<open>Hang\<close> are a process that crashes and one that goes on waiting (or serving).
\<close>

section \<open>Registration of the API types\<close>

record schemebuilder =
  sb_Group :: string
  sb_Version :: string
  sb_Types :: "string list"

definition GroupVersion :: "string \<times> string" where
  "GroupVersion = (''volumegroup.storage.dell.com'', ''v1'')"

definition SchemeBuilder :: schemebuilder where
  "SchemeBuilder = \<lparr>sb_Group = fst GroupVersion, sb_Version = snd GroupVersion, sb_Types = []\<rparr>"

text \<open>The package's \<open>init\<close> registers the resource and its list.\<close>

definition registeredTypes :: schemebuilder where
  "registeredTypes = SchemeBuilder\<lparr>sb_Types := sb_Types SchemeBuilder
     @ [''DellCsiVolumeGroupSnapshot'', ''DellCsiVolumeGroupSnapshotList'']\<rparr>"

section \<open>The machine\<close>

record 'sch manageropts =
  mo_Scheme :: 'sch
  mo_MetricsBindAddress :: string
  mo_Port :: nat
  mo_LeaderElection :: bool
  mo_LeaderElectionID :: string

text \<open>
  The libraries \<open>main\<close> calls: schemes (\<open>'sch\<close>; \<open>AddToScheme\<close> of client-go, of the snapshot API and
  of a scheme builder, \<open>utilruntime.Must\<close>), flags that imported packages define before \<open>main\<close> and
  the flags \<open>zap\<close> binds, the float step of durations, \<open>grpc.Dial\<close>, \<open>ctrl.GetConfigOrDie\<close> (an exit
  status or a configuration), the manager (\<open>'mgr\<close>) with its client and scheme, the rate limiter
  (\<open>'l\<close>), the informers' configuration, the builder's \<open>Complete\<close> and the manager's \<open>Start\<close>
  (\<open>None\<close> while it serves). \<open>mc_Library\<close> holds the library functions of the reconciler.
\<close>

record ('cfg, 'sch, 'mgr, 'l, 'i, 's) machine =
  mc_NewScheme :: 'sch
  mc_AddClientgo :: "'sch \<Rightarrow> error option \<times> 'sch"
  mc_AddSnapshots :: "'sch \<Rightarrow> error option \<times> 'sch"
  mc_AddBuilder :: "schemebuilder \<Rightarrow> 'sch \<Rightarrow> error option \<times> 'sch"
  mc_Must :: "error option \<Rightarrow> unit outcome"
  mc_Flags :: flagset
  mc_ZapFlags :: "flagvar list"
  mc_Frac :: "nat \<Rightarrow> nat \<Rightarrow> nat \<Rightarrow> nat"
  mc_Dial :: "string \<Rightarrow> 's remote dialevent list"
  mc_ConfigOrDie :: "nat + 'cfg"
  mc_NewManager :: "'cfg \<Rightarrow> 'sch manageropts \<Rightarrow> error + 'mgr"
  mc_GetClient :: "'mgr \<Rightarrow> 's client"
  mc_GetScheme :: "'mgr \<Rightarrow> 'sch"
  mc_Limiter :: "int64 \<Rightarrow> int64 \<Rightarrow> 'l"
  mc_Rest :: "('cfg, 'i) restlib"
  mc_Complete :: "'mgr \<Rightarrow> 'l controlleropts \<Rightarrow> 's reconciler \<Rightarrow> error option"
  mc_Start :: "'mgr \<Rightarrow> error option option"
  mc_Library :: "'s reconciler"

text \<open>What has succeeded so far, and the state of the process: the driver and the cluster, the
  successes, the informers.\<close>

datatype ('sch, 'l, 's) milestone =
    Connected string
  | DriverReady string nat
  | ManagerMade "'sch manageropts"
  | ControllerMade "'s reconciler" 'l int64

record ('sch, 'l, 'i, 's) process =
  pr_State :: 's
  pr_Log :: "('sch, 'l, 's) milestone list"
  pr_Informers :: "('i, 's) informer list"

definition reached :: "('sch, 'l, 's) milestone \<Rightarrow> (('sch, 'l, 'i, 's) process, unit) state" where
  "reached m = State (\<lambda>p. ((), p\<lparr>pr_Log := pr_Log p @ [m]\<rparr>))"

definition osExit :: "nat \<Rightarrow> ('p, nat option outcome) state" where
  "osExit code = ret (Some code)"

section \<open>The command line\<close>

definition mainFlags :: "(nat \<Rightarrow> nat \<Rightarrow> nat \<Rightarrow> nat) \<Rightarrow> flagvar list" where
  "mainFlags frac =
     [stringVar ''csi-address'' ''/var/run/csi/csi.sock'',
      intVar ''worker-threads'' 2,
      durationVar frac ''retry-interval-start'' 1000000000,
      durationVar frac ''retry-interval-max'' (5 * 60000000000),
      durationVar frac ''timeout'' (10 * 1000000000)]"

text \<open>Defined only after the first \<open>flag.Parse\<close>.\<close>

definition lateFlags :: "flagvar list \<Rightarrow> flagvar list" where
  "lateFlags zapFlags = boolVar ''leader-elect'' False # zapFlags"

definition commandLine ::
  "('cfg, 'sch, 'mgr, 'l, 'i, 's) machine \<Rightarrow> string list \<Rightarrow> (nat + flagset) outcome" where
  "commandLine mc args =
     (case defineFlags (mc_Flags mc) (mainFlags (mc_Frac mc)) of
        None \<Rightarrow> Panic
      | Some fs \<Rightarrow>
          (case parse fs args of
             Inl code \<Rightarrow> Ret (Inl code)
           | Inr fs1 \<Rightarrow>
               (case defineFlags fs1 (lateFlags (mc_ZapFlags mc)) of
                  None \<Rightarrow> Panic
                | Some fs2 \<Rightarrow> Ret (parse fs2 args))))"

section \<open>main\<close>

text \<open>\<open>init\<close>: the scheme with the three API groups.\<close>

definition initScheme :: "('cfg, 'sch, 'mgr, 'l, 'i, 's) machine \<Rightarrow> 'sch outcome" where
  "initScheme mc =
     (case mc_AddClientgo mc (mc_NewScheme mc) of (e1, s1) \<Rightarrow>
        case mc_Must mc e1 of Panic \<Rightarrow> Panic | Hang \<Rightarrow> Hang | Ret _ \<Rightarrow>
          (case mc_AddSnapshots mc s1 of (e2, s2) \<Rightarrow>
             case mc_Must mc e2 of Panic \<Rightarrow> Panic | Hang \<Rightarrow> Hang | Ret _ \<Rightarrow>
               (case mc_AddBuilder mc registeredTypes s2 of (e3, s3) \<Rightarrow>
                  case mc_Must mc e3 of Panic \<Rightarrow> Panic | Hang \<Rightarrow> Hang | Ret _ \<Rightarrow> Ret s3)))"

text \<open>The reconciler handed to the manager; \<open>SnapClient\<close> is left nil.\<close>

definition controllerFor ::
  "('cfg, 'sch, 'mgr, 'l, 'i, 's) machine \<Rightarrow> 'mgr \<Rightarrow> 's remote \<Rightarrow> int64 \<Rightarrow> string \<Rightarrow> 's reconciler" where
  "controllerFor mc mgr conn timeout driverName = (mc_Library mc)
     \<lparr>r_Client := mc_GetClient mc mgr,
      r_VGClient := createVolumeGroupSnapshot (newCsiClient conn timeout),
      r_DriverName := driverName\<rparr>"

definition startController ::
  "('cfg, 'sch, 'mgr, 'l, 'i, 's) machine \<Rightarrow> flagset \<Rightarrow> 'mgr \<Rightarrow> 's remote \<Rightarrow> string
     \<Rightarrow> (('sch, 'l, 'i, 's) process, nat option outcome) state" where
  "startController mc fs mgr conn driverName =
     (let limiter = mc_Limiter mc (the_duration fs ''retry-interval-start'')
                      (the_duration fs ''retry-interval-max'')
      in case fst (mc_AddSnapshots mc (mc_GetScheme mc mgr)) of
           Some schemaErr \<Rightarrow> osExit 1
         | None \<Rightarrow>
             let r = controllerFor mc mgr conn (the_duration fs ''timeout'') driverName;
                 workers = the_int fs ''worker-threads''
             in do {
               err \<leftarrow> State (\<lambda>p. case setupWithManager ((mc_Rest mc)\<lparr>rl_SnapClient := None\<rparr>)
                   (mc_Complete mc mgr) r limiter workers (pr_Informers p) of
                 (e, is) \<Rightarrow> (e, p\<lparr>pr_Informers := is\<rparr>));
               (case err of
                  Some _ \<Rightarrow> osExit 1
                | None \<Rightarrow> do {
                    reached (ControllerMade r limiter workers);
                    (case mc_Start mc mgr of
                       None \<Rightarrow> State_Monad.return Hang
                     | Some (Some _) \<Rightarrow> osExit 1
                     | Some None \<Rightarrow> ret None)
                  })
             })"

definition startManager ::
  "('cfg, 'sch, 'mgr, 'l, 'i, 's) machine \<Rightarrow> 'sch \<Rightarrow> flagset \<Rightarrow> 's remote \<Rightarrow> string
     \<Rightarrow> (('sch, 'l, 'i, 's) process, nat option outcome) state" where
  "startManager mc sch fs conn driverName =
     (case mc_ConfigOrDie mc of
        Inl code \<Rightarrow> osExit code
      | Inr config \<Rightarrow>
          let opts = \<lparr>mo_Scheme = sch, mo_MetricsBindAddress = ''0'', mo_Port = 9443,
                mo_LeaderElection = the_bool fs ''leader-elect'',
                mo_LeaderElectionID = DellCSIVolumegroup\<rparr>
          in (case mc_NewManager mc config opts of
                Inl err \<Rightarrow> osExit 1
              | Inr mgr \<Rightarrow> do {
                  reached (ManagerMade opts);
                  startController mc fs mgr conn driverName
                }))"

definition serve ::
  "('cfg, 'sch, 'mgr, 'l, 'i, 's) machine \<Rightarrow> 'sch \<Rightarrow> flagset
     \<Rightarrow> (('sch, 'l, 'i, 's) process, nat option outcome) state" where
  "serve mc sch fs =
     (case connect (mc_Dial mc) (the_string fs ''csi-address'') of
        None \<Rightarrow> State_Monad.return Hang
      | Some (Inl err) \<Rightarrow> osExit 1
      | Some (Inr conn) \<Rightarrow> do {
          reached (Connected (the_string fs ''csi-address''));
          res \<leftarrow> State (\<lambda>p. case probeDriver (newCsiClient conn (the_duration fs ''timeout'')) 0 (pr_State p) of
                  None \<Rightarrow> (None, p)
                | Some (res, sleeps, s') \<Rightarrow> (Some (res, sleeps), p\<lparr>pr_State := s'\<rparr>));
          (case res of
             None \<Rightarrow> State_Monad.return Hang
           | Some (Inl err, sleeps) \<Rightarrow> osExit 1
           | Some (Inr driverName, sleeps) \<Rightarrow> do {
               reached (DriverReady driverName sleeps);
               startManager mc sch fs conn driverName
             })
        })"

definition main ::
  "('cfg, 'sch, 'mgr, 'l, 'i, 's) machine \<Rightarrow> string list
     \<Rightarrow> (('sch, 'l, 'i, 's) process, nat option outcome) state" where
  "main mc args =
     (case initScheme mc of
        Panic \<Rightarrow> panic
      | Hang \<Rightarrow> State_Monad.return Hang
      | Ret sch \<Rightarrow>
          (case commandLine mc args of
             Panic \<Rightarrow> panic
           | Hang \<Rightarrow> State_Monad.return Hang
           | Ret (Inl code) \<Rightarrow> osExit code
           | Ret (Inr fs) \<Rightarrow> serve mc sch fs))"

definition newProcess :: "'s \<Rightarrow> ('sch, 'l, 'i, 's) process" where
  "newProcess s = \<lparr>pr_State = s, pr_Log = [], pr_Informers = []\<rparr>"

section \<open>Lemmas\<close>

lemma defineFlags_formal:
  "formal fs = formal gs \<Longrightarrow> defineFlags fs xs = Some fs' \<Longrightarrow> \<exists>gs'. defineFlags gs xs = Some gs'"
proof (induction xs arbitrary: fs gs)
  case (Cons x xs)
  obtain n d v where x: "x = (n, d, v)" by (cases x)
  let ?add = "\<lambda>h. \<lparr>formal = (formal h)(n \<mapsto> d), vals = (vals h)(n \<mapsto> v)\<rparr>"
  have "defineFlags (?add fs) xs = Some fs'" "formal fs n = None"
    using Cons.prems(2) x by (auto simp: defineFlag_def split: if_splits)
  with Cons.IH [of "?add fs" "?add gs"] Cons.prems(1) x show ?case
    by (simp add: defineFlag_def)
qed simp

text \<open>Without a clash of names the command line only fails on its arguments.\<close>

lemma no_clash:
  assumes "commandLine mc [] \<noteq> Panic"
  obtains fs0 fs2 where "defineFlags (mc_Flags mc) (mainFlags (mc_Frac mc)) = Some fs0"
    "defineFlags fs0 (lateFlags (mc_ZapFlags mc)) = Some fs2"
  using assms by (auto simp: commandLine_def parse_def split: option.splits)

lemma commandLine_parsed:
  assumes "defineFlags (mc_Flags mc) (mainFlags (mc_Frac mc)) = Some fs0"
    and "defineFlags fs0 (lateFlags (mc_ZapFlags mc)) = Some fs2"
    and "parse fs0 args = Inr fs1"
  shows "\<exists>fs. commandLine mc args = Ret (Inr fs) \<and> (\<forall>n. formal fs0 n \<noteq> None \<longrightarrow> vals fs n = vals fs1 n)"
proof -
  have f: "formal fs1 = formal fs0" using assms(3) by (auto simp: parse_Inr)
  then obtain gs where gs: "defineFlags fs1 (lateFlags (mc_ZapFlags mc)) = Some gs"
    using defineFlags_formal [OF _ assms(2), of fs1] by auto
  from parse_twice [OF assms(3) gs] assms(1,3) gs show ?thesis by (auto simp: commandLine_def)
qed

lemma commandLine_InrD:
  assumes "commandLine mc args = Ret (Inr fs)"
  obtains fs0 fs1 fs2 where "defineFlags (mc_Flags mc) (mainFlags (mc_Frac mc)) = Some fs0"
    "parse fs0 args = Inr fs1" "defineFlags fs1 (lateFlags (mc_ZapFlags mc)) = Some fs2"
    "parse fs2 args = Inr fs"
  using assms by (auto simp: commandLine_def split: option.splits sum.splits)

text \<open>The log of a process whose controller was made.\<close>

lemma run_reached [simp]: "run_state (reached m) p = ((), p\<lparr>pr_Log := pr_Log p @ [m]\<rparr>)"
  by (simp add: reached_def)

lemma run_osExit [simp]: "run_state (osExit code) p = (Ret (Some code), p)"
  by (simp add: osExit_def)

lemma log_startController:
  assumes "ControllerMade r limiter workers
      \<in> set (pr_Log (snd (run_state (startController mc fs mgr conn name) p)))"
    and "ControllerMade r limiter workers \<notin> set (pr_Log p)"
  shows "r = controllerFor mc mgr conn (the_duration fs ''timeout'') name
     \<and> workers = the_int fs ''worker-threads''"
  using assms
  by (auto simp: startController_def Let_def split: option.splits prod.splits)

lemma log_startManager:
  assumes "ControllerMade r limiter workers
      \<in> set (pr_Log (snd (run_state (startManager mc sch fs conn name) p)))"
    and "ControllerMade r limiter workers \<notin> set (pr_Log p)"
  shows "\<exists>mgr. r = controllerFor mc mgr conn (the_duration fs ''timeout'') name
     \<and> workers = the_int fs ''worker-threads''"
proof -
  obtain config where "mc_ConfigOrDie mc = Inr config"
    using assms by (cases "mc_ConfigOrDie mc") (simp_all add: startManager_def)
  with assms show ?thesis
    by (cases "mc_NewManager mc config \<lparr>mo_Scheme = sch, mo_MetricsBindAddress = ''0'', mo_Port = 9443,
          mo_LeaderElection = the_bool fs ''leader-elect'', mo_LeaderElectionID = DellCSIVolumegroup\<rparr>")
      (auto simp: startManager_def Let_def dest!: log_startController)
qed

lemma log_serve:
  assumes "ControllerMade r limiter workers \<in> set (pr_Log (snd (run_state (serve mc sch fs) (newProcess s))))"
  obtains conn name sleeps mgr where
    "connect (mc_Dial mc) (the_string fs ''csi-address'') = Some (Inr conn)"
    "answered_at (newCsiClient conn (the_duration fs ''timeout'')) s sleeps"
    "fst (probes (newCsiClient conn (the_duration fs ''timeout'')) sleeps s) = Inr name"
    "r = controllerFor mc mgr conn (the_duration fs ''timeout'') name"
    "workers = the_int fs ''worker-threads''"
proof -
  obtain conn where conn: "connect (mc_Dial mc) (the_string fs ''csi-address'') = Some (Inr conn)"
    using assms by (auto simp: serve_def newProcess_def split: option.splits sum.splits)
  let ?v = "newCsiClient conn (the_duration fs ''timeout'')"
  obtain name sleeps s' where pr: "probeDriver ?v 0 s = Some (Inr name, sleeps, s')"
    using assms conn by (auto simp: serve_def newProcess_def split: option.splits sum.splits prod.splits)
  with probeDriver_Some [OF pr] obtain n where
    n: "answered_at ?v s n" "fst (probes ?v n s) = Inr name"
    by (auto simp: prod_eq_iff)
  obtain p where p: "ControllerMade r limiter workers
      \<in> set (pr_Log (snd (run_state (startManager mc sch fs conn name) p)))"
    "ControllerMade r limiter workers \<notin> set (pr_Log p)"
    using assms conn pr by (force simp: serve_def newProcess_def)
  from log_startManager [OF p] conn n that show thesis by blast
qed

section \<open>A machine for examples\<close>

text \<open>Every library call succeeds, the driver is PowerStore's, and the manager serves for ever.\<close>

definition example_remote :: "unit remote" where
  "example_remote = \<lparr>rm_Create = (\<lambda>d req s. (Inl (errorf ''down''), s)),
     rm_Probe = (\<lambda>d s. (Inr driverTypePowerstore, s)), rm_Code = (\<lambda>e. None)\<rparr>"

definition example_machine :: "(unit, unit, unit, int64 \<times> int64, string, unit) machine" where
  "example_machine = \<lparr>
     mc_NewScheme = (), mc_AddClientgo = (\<lambda>s. (None, s)), mc_AddSnapshots = (\<lambda>s. (None, s)),
     mc_AddBuilder = (\<lambda>b s. (None, s)), mc_Must = (\<lambda>e. if e = None then Ret () else Panic),
     mc_Flags = \<lparr>formal = Map.empty, vals = Map.empty\<rparr>, mc_ZapFlags = [boolVar ''zap-devel'' True],
     mc_Frac = (\<lambda>f scale unit. f * unit div scale),
     mc_Dial = (\<lambda>a. [StillConnecting, Ready (Inr example_remote)]),
     mc_ConfigOrDie = Inr (), mc_NewManager = (\<lambda>c opts. Inr ()),
     mc_GetClient = (\<lambda>m. failing_client (errorf ''down'')), mc_GetScheme = (\<lambda>m. ()),
     mc_Limiter = (\<lambda>a b. (a, b)), mc_Rest = \<lparr>rl_InClusterConfig = Inr (),
       rl_NewForConfig = (\<lambda>_. Inr ''clientset''), rl_SnapClient = None\<rparr>,
     mc_Complete = (\<lambda>m opts r. None), mc_Start = (\<lambda>m. None),
     mc_Library = example_reconciler (failing_client (errorf ''down''))\<rparr>"

lemma example_machine_flags: "commandLine example_machine [] \<noteq> Panic"
  by (simp add: commandLine_def example_machine_def mainFlags_def lateFlags_def stringVar_def boolVar_def
      intVar_def durationVar_def defineFlag_def parse_def)

lemma example_machine_serves:
  "\<exists>r. ControllerMade r (1000000000, 300000000000) 2
     \<in> set (pr_Log (snd (run_state (main example_machine []) (newProcess ()))))"
  by (simp add: main_def initScheme_def commandLine_def mainFlags_def lateFlags_def stringVar_def
      boolVar_def intVar_def durationVar_def defineFlag_def parse_def serve_def newProcess_def
      startManager_def startController_def connect_def probeDriver.simps probeController_def
      newCsiClient_def setupWithManager_def snapContentWatch_def the_value_defs Let_def
      example_machine_def example_remote_def split: prod.split)

section \<open>Properties\<close>

text \<open>C20: A controller that was started serves the driver that answered: the command line was
  accepted, the connection to the given address came up, the driver answered the first probe it
  did not let time out with its name, the controller's driver calls go through that connection
  with the given timeout, and every content any of its reconciliations creates names that driver,
  in whatever cluster.\<close>

lemma started_controller_serves_driver:
  assumes "ControllerMade r limiter workers \<in> set (pr_Log (snd (run_state (main mc args) (newProcess s))))"
  shows "\<exists>fs conn name sleeps. commandLine mc args = Ret (Inr fs)
     \<and> connect (mc_Dial mc) (the_string fs ''csi-address'') = Some (Inr conn)
     \<and> answered_at (newCsiClient conn (the_duration fs ''timeout'')) s sleeps
     \<and> fst (probes (newCsiClient conn (the_duration fs ''timeout'')) sleeps s) = Inr name
     \<and> r_VGClient r = createVolumeGroupSnapshot (newCsiClient conn (the_duration fs ''timeout''))
     \<and> workers = the_int fs ''worker-threads''
     \<and> (\<forall>req st ticks c. CreateContent c \<in> set (trace (snd (run_state (reconcile r req) (start st ticks))))
          \<longrightarrow> vc_Driver c = name)"
proof -
  obtain sch fs where init: "initScheme mc = Ret sch" and cl: "commandLine mc args = Ret (Inr fs)"
    using assms by (auto simp: main_def newProcess_def split: outcome.splits sum.splits)
  then have "ControllerMade r limiter workers \<in> set (pr_Log (snd (run_state (serve mc sch fs) (newProcess s))))"
    using assms by (simp add: main_def)
  then obtain conn name sleeps mgr where
    *: "connect (mc_Dial mc) (the_string fs ''csi-address'') = Some (Inr conn)"
      "answered_at (newCsiClient conn (the_duration fs ''timeout'')) s sleeps"
      "fst (probes (newCsiClient conn (the_duration fs ''timeout'')) sleeps s) = Inr name"
      "workers = the_int fs ''worker-threads''"
    and r: "r = controllerFor mc mgr conn (the_duration fs ''timeout'') name"
    by (rule log_serve)
  have "vc_Driver c = name"
    if "CreateContent c \<in> set (trace (snd (run_state (reconcile r req) (start st ticks))))" for req st ticks c
  proof -
    obtain ts where "trace (snd (run_state (reconcile r req) (start st ticks))) = ts"
      "paired (\<lambda>c. vc_Driver c = r_DriverName r) ts"
      using shapedD [OF paired_reconcile, of r req "start st ticks"]
      by (cases "run_state (reconcile r req) (start st ticks)") force
    with that paired_contents show ?thesis by (auto simp: r controllerFor_def)
  qed
  with cl * r show ?thesis by (auto simp: controllerFor_def)
qed

lemma started_controller_serves_driver_witness:
  "\<exists>r. ControllerMade r (1000000000, 300000000000) 2
       \<in> set (pr_Log (snd (run_state (main example_machine []) (newProcess ()))))
     \<and> (\<forall>req ticks c. CreateContent c \<in> set (trace (snd (run_state (reconcile r req) (start () ticks))))
          \<longrightarrow> vc_Driver c = driverTypePowerstore)"
proof -
  obtain r where r: "ControllerMade r (1000000000, 300000000000) 2
      \<in> set (pr_Log (snd (run_state (main example_machine []) (newProcess ()))))"
    using example_machine_serves by blast
  have probe: "probes (newCsiClient example_remote d) n () = (Inr driverTypePowerstore, ())" for d n
    by (induction n) (simp_all add: probeController_def newCsiClient_def example_remote_def)
  have conn: "connect (mc_Dial example_machine) a = Some (Inr example_remote)" for a
    by (simp add: connect_def example_machine_def)
  show ?thesis
    using started_controller_serves_driver [OF r] r by (auto simp: probe conn)
qed

text \<open>C34: Leader election can never be switched on, nor a logging flag be set: they are defined after
  the first \<open>flag.Parse\<close>, so an accepted command line leaves them at their defaults, and one that
  starts with \<open>-leader-elect\<close> in any spelling ends the process with status 2.\<close>

lemma late_flags_never_set:
  assumes "commandLine mc [] \<noteq> Panic"
  shows "(\<forall>args fs n d v. commandLine mc args = Ret (Inr fs) \<longrightarrow> (n, d, v) \<in> set (lateFlags (mc_ZapFlags mc))
           \<longrightarrow> vals fs n = Some v \<and> \<not> the_bool fs ''leader-elect'')
     \<and> (\<forall>s v args. flagToken s = Flag ''leader-elect'' v \<longrightarrow> commandLine mc (s # args) = Ret (Inl 2))"
proof (intro conjI allI impI)
  fix args fs n d v
  assume "commandLine mc args = Ret (Inr fs)"
  then obtain fs0 fs1 fs2 where
    fs: "parse fs0 args = Inr fs1" "defineFlags fs1 (lateFlags (mc_ZapFlags mc)) = Some fs2"
      "parse fs2 args = Inr fs"
    by (rule commandLine_InrD)
  note default = late_flag_default [OF fs]
  show "(n, d, v) \<in> set (lateFlags (mc_ZapFlags mc)) \<Longrightarrow> vals fs n = Some v" by (rule default)
  have "vals fs ''leader-elect'' = Some (BoolVal False)"
    by (rule default) (auto simp: lateFlags_def boolVar_def)
  then show "\<not> the_bool fs ''leader-elect''" by (simp add: the_bool_def)
next
  fix s v args
  obtain fs0 fs2 where fs0: "defineFlags (mc_Flags mc) (mainFlags (mc_Frac mc)) = Some fs0"
    "defineFlags fs0 (lateFlags (mc_ZapFlags mc)) = Some fs2"
    using assms by (rule no_clash)
  have "(''leader-elect'', fst (snd (boolVar ''leader-elect'' False)), BoolVal False)
      \<in> set (lateFlags (mc_ZapFlags mc))"
    by (simp add: lateFlags_def boolVar_def)
  from defineFlags_new [OF fs0(2) this] have "formal fs0 ''leader-elect'' = None" by simp
  then show "flagToken s = Flag ''leader-elect'' v \<Longrightarrow> commandLine mc (s # args) = Ret (Inl 2)"
    using fs0(1) by (simp add: commandLine_def parse_def unknownFlag_def)
qed

text \<open>The arguments of \<^verbatim>\<open>config/manager/manager.yaml\<close>.\<close>

lemma late_flags_never_set_witness:
  "commandLine example_machine [''--leader-elect''] = Ret (Inl 2)"
  using late_flags_never_set [OF example_machine_flags] by (simp add: flagToken_def)

text \<open>The command line reaches the controller: any socket address (also one with \<open>=\<close> in it), any
  number of workers and any number of seconds that fits the timeout, written in decimal and in
  any of Go's spellings of a flag, come back as the values \<open>main\<close> starts with; what is not given
  has its default.\<close>

lemma flags_reach_controller:
  assumes "commandLine mc [] \<noteq> Panic" and "n < 2 ^ 63" and "t \<le> 9223372036"
  shows "\<exists>fs. commandLine mc [''-csi-address='' @ a, ''--worker-threads'', show_nat n,
        ''--timeout='' @ show_nat t @ ''s''] = Ret (Inr fs)
     \<and> the_string fs ''csi-address'' = a
     \<and> the_int fs ''worker-threads'' = of_nat n
     \<and> the_duration fs ''timeout'' = of_nat t * 1000000000
     \<and> the_duration fs ''retry-interval-start'' = 1000000000
     \<and> the_duration fs ''retry-interval-max'' = 300000000000"
proof -
  let ?args = "[''-csi-address='' @ a, ''--worker-threads'', show_nat n, ''--timeout='' @ show_nat t @ ''s'']"
  obtain fs0 fs2 where fs0: "defineFlags (mc_Flags mc) (mainFlags (mc_Frac mc)) = Some fs0"
    "defineFlags fs0 (lateFlags (mc_ZapFlags mc)) = Some fs2"
    using assms(1) by (rule no_clash)
  note new = defineFlags_new [OF fs0(1)]
  have flags: "formal fs0 ''csi-address'' = Some \<lparr>fd_IsBool = False, fd_Set = \<lambda>s. Some (StringVal s)\<rparr>"
    "formal fs0 ''worker-threads'' = Some \<lparr>fd_IsBool = False, fd_Set = \<lambda>s. map_option IntVal (parseInt s)\<rparr>"
    "formal fs0 ''timeout'' = Some \<lparr>fd_IsBool = False,
       fd_Set = \<lambda>s. map_option DurationVal (parseDuration (mc_Frac mc) s)\<rparr>"
    "formal fs0 ''retry-interval-start'' \<noteq> None" "formal fs0 ''retry-interval-max'' \<noteq> None"
    "vals fs0 ''retry-interval-start'' = Some (DurationVal 1000000000)"
    "vals fs0 ''retry-interval-max'' = Some (DurationVal 300000000000)"
    by (insert new, force simp: mainFlags_def stringVar_def intVar_def durationVar_def)+
  have tokens: "flagToken (''-csi-address='' @ a) = Flag ''csi-address'' (Some a)"
    "flagToken ''--worker-threads'' = Flag ''worker-threads'' None"
    "flagToken (''--timeout='' @ show_nat t @ ''s'') = Flag ''timeout'' (Some (show_nat t @ ''s''))"
    by (simp_all add: flagToken_def)
  have "parse fs0 ?args = Inr (fs0\<lparr>vals := vals fs0 ++ map_of
      [(''timeout'', DurationVal (of_nat t * 1000000000)), (''worker-threads'', IntVal (of_nat n)),
       (''csi-address'', StringVal a)]\<rparr>)"
    using assms(2,3)
    by (simp add: parse_def tokens flags assign_def parseInt_show parseDuration_seconds del: append.simps)
  from commandLine_parsed [OF fs0 this] flags show ?thesis
    by (auto simp: the_value_defs)
qed

lemma flags_reach_controller_witness:
  "\<exists>fs. commandLine example_machine [''-csi-address=/tmp/a=b'', ''--worker-threads'', ''16'', ''--timeout=90s'']
      = Ret (Inr fs)
     \<and> the_string fs ''csi-address'' = ''/tmp/a=b'' \<and> the_int fs ''worker-threads'' = 16
     \<and> the_duration fs ''timeout'' = 90000000000"
proof -
  have "show_nat 16 = ''16''" "show_nat 90 = ''90''" by code_simp+
  with flags_reach_controller [OF example_machine_flags, of 16 90 "''/tmp/a=b''"] show ?thesis by auto
qed

end
