(* ===== verification/DeepCopy.thy ===== *)
theory DeepCopy
  imports ApiTypes
begin

text \<open>
  The generated copy functions of the API types. Source: \<^verbatim>\<open>api/v1/zz_generated.deepcopy.go\<close>. What
  a deep copy is for is that original and copy share no memory, so slices live in an explicit
  heap: a slice is an array, an offset and a length, nil is \<open>None\<close>, and arrays may be shared.
  \<open>TypeMeta\<close>, \<open>ObjectMeta\<close> and \<open>ListMeta\<close> are opaque values whose own copy functions, like that
  of \<open>metav1.Time\<close>, are library code and a parameter. A pointer to a struct is an \<open>option\<close>.
\<close>

section \<open>Slices and structs in memory\<close>

record slice =
  sl_Array :: nat
  sl_Off :: nat
  sl_Len :: nat

record hspec =
  hs_DriverName :: string
  hs_MemberReclaimPolicy :: string
  hs_Volumesnapshotclass :: string
  hs_PvcLabel :: string
  hs_PvcList :: "slice option"
  hs_Timeout :: int64

record ('t, 'm) hgroup =
  hg_TypeMeta :: 't
  hg_ObjectMeta :: 'm
  hg_Spec :: hspec
  hg_Status :: vgstatus

record ('t, 'l) hlist =
  hl_TypeMeta :: 't
  hl_ListMeta :: 'l
  hl_Items :: "slice option"

text \<open>Arrays of strings and arrays of groups, and the first free address.\<close>

record ('t, 'm) heap =
  strings :: "nat \<Rightarrow> string list"
  groups :: "nat \<Rightarrow> ('t, 'm) hgroup list"
  lim :: nat

text \<open>The copy functions of the library, and the zero group of \<open>make\<close>.\<close>

record ('t, 'm, 'l) copiers =
  cp_Meta :: "'m \<Rightarrow> 'm"
  cp_ListMeta :: "'l \<Rightarrow> 'l"
  cp_Time :: "gotime \<Rightarrow> gotime"
  cp_Zero :: "('t, 'm) hgroup"

text \<open>\<open>make\<close>, reading, and \<open>copy\<close> (the shorter length decides).\<close>

definition elems :: "'a list \<Rightarrow> slice \<Rightarrow> 'a list" where
  "elems arr s = take (sl_Len s) (drop (sl_Off s) arr)"

definition overwrite :: "'a list \<Rightarrow> nat \<Rightarrow> 'a list \<Rightarrow> 'a list" where
  "overwrite arr off xs = take off arr @ xs @ drop (off + length xs) arr"

definition makeStrings :: "nat \<Rightarrow> ('t, 'm) heap \<Rightarrow> slice \<times> ('t, 'm) heap" where
  "makeStrings n h = (\<lparr>sl_Array = lim h, sl_Off = 0, sl_Len = n\<rparr>,
     h\<lparr>strings := (strings h)(lim h := replicate n []), lim := Suc (lim h)\<rparr>)"

definition copyStrings :: "slice \<Rightarrow> slice \<Rightarrow> ('t, 'm) heap \<Rightarrow> ('t, 'm) heap" where
  "copyStrings dst src h =
     (let xs = take (min (sl_Len dst) (sl_Len src)) (elems (strings h (sl_Array src)) src)
      in h\<lparr>strings := (strings h)(sl_Array dst :=
             overwrite (strings h (sl_Array dst)) (sl_Off dst) xs)\<rparr>)"

definition makeGroups ::
  "('t, 'm, 'l) copiers \<Rightarrow> nat \<Rightarrow> ('t, 'm) heap \<Rightarrow> slice \<times> ('t, 'm) heap" where
  "makeGroups cp n h = (\<lparr>sl_Array = lim h, sl_Off = 0, sl_Len = n\<rparr>,
     h\<lparr>groups := (groups h)(lim h := replicate n (cp_Zero cp)), lim := Suc (lim h)\<rparr>)"

definition groupAt :: "slice \<Rightarrow> nat \<Rightarrow> ('t, 'm) heap \<Rightarrow> ('t, 'm) hgroup" where
  "groupAt s i h = groups h (sl_Array s) ! (sl_Off s + i)"

definition setGroupAt :: "slice \<Rightarrow> nat \<Rightarrow> ('t, 'm) hgroup \<Rightarrow> ('t, 'm) heap \<Rightarrow> ('t, 'm) heap" where
  "setGroupAt s i g h =
     h\<lparr>groups := (groups h)(sl_Array s := (groups h (sl_Array s))[sl_Off s + i := g])\<rparr>"

section \<open>The copy functions\<close>

text \<open>\<open>DeepCopyInto\<close> returns what it writes to \<open>*out\<close>, all of which it overwrites.\<close>

definition specDeepCopyInto :: "hspec \<Rightarrow> ('t, 'm) heap \<Rightarrow> hspec \<times> ('t, 'm) heap" where
  "specDeepCopyInto i h =
     (case hs_PvcList i of
        None \<Rightarrow> (i, h)
      | Some src \<Rightarrow>
          (case makeStrings (sl_Len src) h of (dst, h1) \<Rightarrow>
             (i\<lparr>hs_PvcList := Some dst\<rparr>, copyStrings dst src h1)))"

definition specDeepCopy :: "hspec option \<Rightarrow> ('t, 'm) heap \<Rightarrow> hspec option \<times> ('t, 'm) heap" where
  "specDeepCopy p h =
     (case p of None \<Rightarrow> (None, h)
      | Some i \<Rightarrow> (case specDeepCopyInto i h of (out, h') \<Rightarrow> (Some out, h')))"

definition statusDeepCopyInto :: "('t, 'm, 'l) copiers \<Rightarrow> vgstatus \<Rightarrow> vgstatus" where
  "statusDeepCopyInto cp i = i\<lparr>status_CreationTime := cp_Time cp (status_CreationTime i)\<rparr>"

definition statusDeepCopy :: "('t, 'm, 'l) copiers \<Rightarrow> vgstatus option \<Rightarrow> vgstatus option" where
  "statusDeepCopy cp p = (case p of None \<Rightarrow> None | Some i \<Rightarrow> Some (statusDeepCopyInto cp i))"

definition groupDeepCopyInto ::
  "('t, 'm, 'l) copiers \<Rightarrow> ('t, 'm) hgroup \<Rightarrow> ('t, 'm) heap \<Rightarrow> ('t, 'm) hgroup \<times> ('t, 'm) heap" where
  "groupDeepCopyInto cp i h =
     (let out = i\<lparr>hg_TypeMeta := hg_TypeMeta i, hg_ObjectMeta := cp_Meta cp (hg_ObjectMeta i)\<rparr>
      in case specDeepCopyInto (hg_Spec i) h of (sp, h') \<Rightarrow>
           (out\<lparr>hg_Spec := sp, hg_Status := statusDeepCopyInto cp (hg_Status i)\<rparr>, h'))"

definition groupDeepCopy ::
  "('t, 'm, 'l) copiers \<Rightarrow> ('t, 'm) hgroup option \<Rightarrow> ('t, 'm) heap
     \<Rightarrow> ('t, 'm) hgroup option \<times> ('t, 'm) heap" where
  "groupDeepCopy cp p h =
     (case p of None \<Rightarrow> (None, h)
      | Some i \<Rightarrow> (case groupDeepCopyInto cp i h of (out, h') \<Rightarrow> (Some out, h')))"

text \<open>The loop over the items, by index.\<close>

primrec itemsLoop ::
  "('t, 'm, 'l) copiers \<Rightarrow> slice \<Rightarrow> slice \<Rightarrow> nat list \<Rightarrow> ('t, 'm) heap \<Rightarrow> ('t, 'm) heap" where
  "itemsLoop cp src dst [] h = h"
| "itemsLoop cp src dst (i # is) h =
     (case groupDeepCopyInto cp (groupAt src i h) h of (out, h1) \<Rightarrow>
        itemsLoop cp src dst is (setGroupAt dst i out h1))"

definition listDeepCopyInto ::
  "('t, 'm, 'l) copiers \<Rightarrow> ('t, 'l) hlist \<Rightarrow> ('t, 'm) heap \<Rightarrow> ('t, 'l) hlist \<times> ('t, 'm) heap" where
  "listDeepCopyInto cp i h =
     (let out = i\<lparr>hl_TypeMeta := hl_TypeMeta i, hl_ListMeta := cp_ListMeta cp (hl_ListMeta i)\<rparr>
      in case hl_Items i of
           None \<Rightarrow> (out, h)
         | Some src \<Rightarrow>
             (case makeGroups cp (sl_Len src) h of (dst, h1) \<Rightarrow>
                (out\<lparr>hl_Items := Some dst\<rparr>, itemsLoop cp src dst [0..<sl_Len src] h1)))"

definition listDeepCopy ::
  "('t, 'm, 'l) copiers \<Rightarrow> ('t, 'l) hlist option \<Rightarrow> ('t, 'm) heap
     \<Rightarrow> ('t, 'l) hlist option \<times> ('t, 'm) heap" where
  "listDeepCopy cp p h =
     (case p of None \<Rightarrow> (None, h)
      | Some i \<Rightarrow> (case listDeepCopyInto cp i h of (out, h') \<Rightarrow> (Some out, h')))"

text \<open>\<open>DeepCopyObject\<close>: a \<open>runtime.Object\<close>, nil for a nil pointer.\<close>

datatype ('t, 'm, 'l) runtimeObject = GroupObject "('t, 'm) hgroup" | ListObject "('t, 'l) hlist"

definition groupDeepCopyObject ::
  "('t, 'm, 'l) copiers \<Rightarrow> ('t, 'm) hgroup option \<Rightarrow> ('t, 'm) heap
     \<Rightarrow> ('t, 'm, 'l) runtimeObject option \<times> ('t, 'm) heap" where
  "groupDeepCopyObject cp p h =
     (case groupDeepCopy cp p h of
        (Some c, h') \<Rightarrow> (Some (GroupObject c), h')
      | (None, h') \<Rightarrow> (None, h'))"

definition listDeepCopyObject ::
  "('t, 'm, 'l) copiers \<Rightarrow> ('t, 'l) hlist option \<Rightarrow> ('t, 'm) heap
     \<Rightarrow> ('t, 'm, 'l) runtimeObject option \<times> ('t, 'm) heap" where
  "listDeepCopyObject cp p h =
     (case listDeepCopy cp p h of
        (Some c, h') \<Rightarrow> (Some (ListObject c), h')
      | (None, h') \<Rightarrow> (None, h'))"

section \<open>What memory holds\<close>

text \<open>The specification a struct stands for, and the group and list values.\<close>

definition spec_view :: "('t, 'm) heap \<Rightarrow> hspec \<Rightarrow> vgspec" where
  "spec_view h sp = \<lparr>spec_DriverName = hs_DriverName sp,
     spec_MemberReclaimPolicy = hs_MemberReclaimPolicy sp,
     spec_Volumesnapshotclass = hs_Volumesnapshotclass sp, spec_PvcLabel = hs_PvcLabel sp,
     spec_PvcList = map_option (\<lambda>s. elems (strings h (sl_Array s)) s) (hs_PvcList sp),
     spec_Timeout = hs_Timeout sp\<rparr>"

definition group_view :: "('t, 'm) heap \<Rightarrow> ('t, 'm) hgroup \<Rightarrow> 't \<times> 'm \<times> vgspec \<times> vgstatus" where
  "group_view h g = (hg_TypeMeta g, hg_ObjectMeta g, spec_view h (hg_Spec g), hg_Status g)"

definition items :: "('t, 'm) heap \<Rightarrow> ('t, 'l) hlist \<Rightarrow> ('t, 'm) hgroup list" where
  "items h l = (case hl_Items l of None \<Rightarrow> [] | Some s \<Rightarrow> elems (groups h (sl_Array s)) s)"

definition list_view ::
  "('t, 'm) heap \<Rightarrow> ('t, 'l) hlist \<Rightarrow> 't \<times> 'l \<times> bool \<times> ('t \<times> 'm \<times> vgspec \<times> vgstatus) list" where
  "list_view h l = (hl_TypeMeta l, hl_ListMeta l, hl_Items l = None, map (group_view h) (items h l))"

text \<open>Slices in bounds of allocated arrays.\<close>

definition slice_ok :: "nat \<Rightarrow> 'a list \<Rightarrow> slice \<Rightarrow> bool" where
  "slice_ok n arr s \<longleftrightarrow> sl_Array s < n \<and> sl_Off s + sl_Len s \<le> length arr"

definition spec_ok :: "('t, 'm) heap \<Rightarrow> hspec \<Rightarrow> bool" where
  "spec_ok h sp \<longleftrightarrow>
     (case hs_PvcList sp of None \<Rightarrow> True | Some s \<Rightarrow> slice_ok (lim h) (strings h (sl_Array s)) s)"

definition list_ok :: "('t, 'm) heap \<Rightarrow> ('t, 'l) hlist \<Rightarrow> bool" where
  "list_ok h l \<longleftrightarrow>
     (case hl_Items l of None \<Rightarrow> True | Some s \<Rightarrow> slice_ok (lim h) (groups h (sl_Array s)) s)
     \<and> list_all (\<lambda>g. spec_ok h (hg_Spec g)) (items h l)"

text \<open>The arrays that can be written through a list: of strings, and of groups.\<close>

definition spec_arrays :: "hspec \<Rightarrow> nat set" where
  "spec_arrays sp = set_option (map_option sl_Array (hs_PvcList sp))"

definition string_arrays :: "('t, 'm) heap \<Rightarrow> ('t, 'l) hlist \<Rightarrow> nat set" where
  "string_arrays h l = (\<Union>g \<in> set (items h l). spec_arrays (hg_Spec g))"

definition group_arrays :: "('t, 'l) hlist \<Rightarrow> nat set" where
  "group_arrays l = set_option (map_option sl_Array (hl_Items l))"

section \<open>Lemmas\<close>

text \<open>Memory that has grown: allocated string arrays are as they were.\<close>

definition grown :: "('t, 'm) heap \<Rightarrow> ('t, 'm) heap \<Rightarrow> bool" where
  "grown h h' \<longleftrightarrow> lim h \<le> lim h' \<and> (\<forall>a < lim h. strings h' a = strings h a)"

lemma grown_refl [simp]: "grown h h"
  by (simp add: grown_def)

lemma grown_trans: "grown h h' \<Longrightarrow> grown h' h'' \<Longrightarrow> grown h h''"
  by (auto simp: grown_def)

lemma grown_groups [simp]: "grown h (h'\<lparr>groups := G\<rparr>) = grown h h'"
  by (simp add: grown_def)

lemma spec_groups [simp]:
  "spec_ok (h\<lparr>groups := G\<rparr>) sp = spec_ok h sp" "spec_view (h\<lparr>groups := G\<rparr>) sp = spec_view h sp"
  by (simp_all add: spec_ok_def spec_view_def split: option.split)

lemma grown_spec:
  assumes "grown h h'" and "spec_ok h sp"
  shows "spec_ok h' sp" "spec_view h' sp = spec_view h sp"
  using assms by (auto simp: grown_def spec_ok_def spec_view_def slice_ok_def split: option.splits)

lemma overwrite_all: "length xs = length arr \<Longrightarrow> overwrite arr 0 xs = xs"
  by (simp add: overwrite_def)

lemma length_elems: "sl_Off s + sl_Len s \<le> length arr \<Longrightarrow> length (elems arr s) = sl_Len s"
  by (simp add: elems_def)

lemma nth_elems: "i < sl_Len s \<Longrightarrow> elems arr s ! i = arr ! (sl_Off s + i)"
  if "sl_Off s + sl_Len s \<le> length arr"
  using that by (simp add: elems_def)

lemma spec_copy:
  assumes "spec_ok h sp" and "specDeepCopyInto sp h = (c, h')"
  shows "grown h h'" "groups h' = groups h" "spec_ok h' c" "spec_view h' c = spec_view h sp"
    "a \<in> spec_arrays c \<Longrightarrow> lim h \<le> a"
proof -
  have "grown h h' \<and> groups h' = groups h \<and> spec_ok h' c \<and> spec_view h' c = spec_view h sp
      \<and> (\<forall>a \<in> spec_arrays c. lim h \<le> a)"
  proof (cases "hs_PvcList sp")
    case None
    with assms show ?thesis by (simp add: specDeepCopyInto_def spec_arrays_def)
  next
    case (Some s)
    with assms(1) have s: "sl_Array s < lim h" "sl_Off s + sl_Len s \<le> length (strings h (sl_Array s))"
      by (simp_all add: spec_ok_def slice_ok_def)
    let ?xs = "elems (strings h (sl_Array s)) s"
    have len: "length ?xs = sl_Len s" using s(2) by (rule length_elems)
    have c: "c = sp\<lparr>hs_PvcList := Some \<lparr>sl_Array = lim h, sl_Off = 0, sl_Len = sl_Len s\<rparr>\<rparr>"
      "h' = h\<lparr>strings := (strings h)(lim h := ?xs), lim := Suc (lim h)\<rparr>"
      using assms(2) Some s len
      by (auto simp: specDeepCopyInto_def makeStrings_def copyStrings_def Let_def overwrite_all)
    show ?thesis
      using Some len
      by (simp add: c grown_def spec_ok_def spec_view_def slice_ok_def spec_arrays_def elems_def)
  qed
  then show "grown h h'" "groups h' = groups h" "spec_ok h' c" "spec_view h' c = spec_view h sp"
    "a \<in> spec_arrays c \<Longrightarrow> lim h \<le> a" by auto
qed

text \<open>Library copies that give equal values.\<close>

definition faithful_copiers :: "('t, 'm, 'l) copiers \<Rightarrow> bool" where
  "faithful_copiers cp \<longleftrightarrow> cp_Meta cp = id \<and> cp_ListMeta cp = id \<and> cp_Time cp = id"

lemma group_copy:
  assumes "faithful_copiers cp" and "spec_ok h (hg_Spec g)" and "groupDeepCopyInto cp g h = (c, h')"
  shows "grown h h'" "groups h' = groups h" "spec_ok h' (hg_Spec c)" "group_view h' c = group_view h g"
    "a \<in> spec_arrays (hg_Spec c) \<Longrightarrow> lim h \<le> a"
proof -
  obtain sp where sp: "specDeepCopyInto (hg_Spec g) h = (sp, h')"
    and c: "hg_Spec c = sp" "hg_TypeMeta c = hg_TypeMeta g" "hg_ObjectMeta c = hg_ObjectMeta g"
      "hg_Status c = hg_Status g"
    using assms(1,3)
    by (auto simp: groupDeepCopyInto_def faithful_copiers_def statusDeepCopyInto_def Let_def
        split: prod.splits)
  note copy = spec_copy [OF assms(2) sp]
  show "grown h h'" "groups h' = groups h" "spec_ok h' (hg_Spec c)" "group_view h' c = group_view h g"
    "a \<in> spec_arrays (hg_Spec c) \<Longrightarrow> lim h \<le> a"
    using copy by (simp_all add: c group_view_def)
qed

text \<open>The loop after \<open>k\<close> items: the first \<open>k\<close> cells of the new array hold copies.\<close>

definition copy_of ::
  "('t, 'm) heap \<Rightarrow> ('t, 'm) hgroup \<Rightarrow> ('t, 'm) heap \<Rightarrow> ('t, 'm) hgroup \<Rightarrow> bool" where
  "copy_of h g h' c \<longleftrightarrow> spec_ok h' (hg_Spec c) \<and> group_view h' c = group_view h g
     \<and> (\<forall>a \<in> spec_arrays (hg_Spec c). lim h \<le> a)"

definition copied :: "('t, 'm) heap \<Rightarrow> slice \<Rightarrow> nat \<Rightarrow> nat \<Rightarrow> nat \<Rightarrow> ('t, 'm) heap \<Rightarrow> bool" where
  "copied h src d n k h' \<longleftrightarrow> grown h h' \<and> (\<forall>a. a \<noteq> d \<longrightarrow> groups h' a = groups h a)
     \<and> length (groups h' d) = n
     \<and> (\<forall>i < k. copy_of h (groupAt src i h) h' (groups h' d ! i))"

lemma copy_of_grown:
  assumes "copy_of h g h1 c" and "grown h1 h2"
  shows "copy_of h g h2 c"
  using assms(1) grown_spec [OF assms(2)] by (auto simp: copy_of_def group_view_def)

lemma copy_of_groups [simp]: "copy_of h g (h'\<lparr>groups := G\<rparr>) c = copy_of h g h' c"
  by (simp add: copy_of_def group_view_def)

lemma itemsLoop_append:
  "itemsLoop cp src dst (xs @ ys) h = itemsLoop cp src dst ys (itemsLoop cp src dst xs h)"
  by (induction xs arbitrary: h) (simp_all split: prod.split)

lemma itemsLoop_copied:
  assumes cp: "faithful_copiers cp" and d: "sl_Array src \<noteq> d" "length (groups h d) = n"
    and ok: "\<And>i. i < n \<Longrightarrow> spec_ok h (hg_Spec (groupAt src i h))"
  shows "k \<le> n \<Longrightarrow> copied h src d n k
     (itemsLoop cp src \<lparr>sl_Array = d, sl_Off = 0, sl_Len = n\<rparr> [0..<k] h)"
proof (induction k)
  case 0
  then show ?case using d(2) by (simp add: copied_def)
next
  case (Suc k)
  let ?dst = "\<lparr>sl_Array = d, sl_Off = 0, sl_Len = n\<rparr>"
  let ?h = "itemsLoop cp src ?dst [0..<k] h"
  have J: "copied h src d n k ?h" using Suc by simp
  have at: "groupAt src k ?h = groupAt src k h"
    using J d(1) by (simp add: copied_def groupAt_def)
  have gr: "grown h ?h" using J by (simp add: copied_def)
  obtain c h2 where c: "groupDeepCopyInto cp (groupAt src k h) ?h = (c, h2)" by force
  have oks: "spec_ok h (hg_Spec (groupAt src k h))" using ok Suc.prems by simp
  note copy = group_copy [OF cp grown_spec(1) [OF gr oks] c]
  have new: "copy_of h (groupAt src k h) h2 c"
    using copy(3,4,5) gr grown_spec(2) [OF gr oks]
    by (force simp: copy_of_def group_view_def grown_def)
  have old: "copy_of h (groupAt src i h) h2 (groups ?h d ! i)" if "i < k" for i
    using J that copy_of_grown [OF _ copy(1)] by (auto simp: copied_def)
  have step: "itemsLoop cp src ?dst [0..<Suc k] h =
      h2\<lparr>groups := (groups ?h)(d := (groups ?h d)[k := c])\<rparr>"
    using c at copy(2) by (simp add: itemsLoop_append setGroupAt_def)
  have "grown h h2" "length (groups ?h d) = n" "\<And>a. a \<noteq> d \<Longrightarrow> groups ?h a = groups h a"
    using J grown_trans [OF gr copy(1)] by (simp_all add: copied_def)
  then show ?case
    unfolding step copied_def
    using new old Suc.prems by (auto simp: nth_list_update less_Suc_eq)
qed

text \<open>A write elsewhere is not seen.\<close>

lemma write_strings_elsewhere:
  "a \<notin> string_arrays h l \<Longrightarrow> list_view (h\<lparr>strings := (strings h)(a := xs)\<rparr>) l = list_view h l"
  by (auto simp: list_view_def string_arrays_def items_def group_view_def spec_view_def spec_arrays_def
      intro!: option.map_cong0 split: option.splits)

lemma write_groups_elsewhere:
  "a \<notin> group_arrays l \<Longrightarrow> list_view (h\<lparr>groups := (groups h)(a := gs)\<rparr>) l = list_view h l"
  by (auto simp: list_view_def group_arrays_def items_def group_view_def split: option.splits)

lemma items_nth:
  assumes "list_ok h l" and "hl_Items l = Some s" and "i < sl_Len s"
  shows "items h l ! i = groupAt s i h" "spec_ok h (hg_Spec (groupAt s i h))"
proof -
  have len: "length (items h l) = sl_Len s" and nth: "items h l ! i = groupAt s i h"
    using assms by (simp_all add: list_ok_def slice_ok_def items_def length_elems nth_elems groupAt_def)
  then show "items h l ! i = groupAt s i h" "spec_ok h (hg_Spec (groupAt s i h))"
    using assms(1,3) by (auto simp: list_ok_def list_all_length)
qed

text \<open>The copy of a list: equal, in fresh arrays, and the original as it was.\<close>

lemma list_copy:
  assumes cp: "faithful_copiers cp" and ok: "list_ok h l" and c: "listDeepCopyInto cp l h = (l', h')"
  shows "list_view h' l' = list_view h l" "list_view h' l = list_view h l" "items h' l = items h l"
    "a \<in> string_arrays h' l' \<union> group_arrays l' \<Longrightarrow> lim h \<le> a"
    "a \<in> string_arrays h l \<union> group_arrays l \<Longrightarrow> a < lim h"
proof -
  have old: "a < lim h" if "a \<in> string_arrays h l \<union> group_arrays l" for a
    using that ok
    by (auto simp: list_ok_def string_arrays_def group_arrays_def spec_arrays_def spec_ok_def
        slice_ok_def list_all_iff split: option.splits)
  have "list_view h' l' = list_view h l \<and> list_view h' l = list_view h l \<and> items h' l = items h l
      \<and> (\<forall>a \<in> string_arrays h' l' \<union> group_arrays l'. lim h \<le> a)"
  proof (cases "hl_Items l")
    case None
    with c cp show ?thesis
      by (auto simp: listDeepCopyInto_def faithful_copiers_def list_view_def items_def
          string_arrays_def group_arrays_def)
  next
    case (Some s)
    let ?n = "sl_Len s"
    obtain dst h1 where m: "makeGroups cp ?n h = (dst, h1)" by force
    then have h1: "dst = \<lparr>sl_Array = lim h, sl_Off = 0, sl_Len = ?n\<rparr>"
      "h1 = h\<lparr>groups := (groups h)(lim h := replicate ?n (cp_Zero cp)), lim := Suc (lim h)\<rparr>"
      by (simp_all add: makeGroups_def)
    have s: "sl_Array s < lim h" using ok Some by (simp add: list_ok_def slice_ok_def)
    have grown: "grown h h1" by (simp add: h1 grown_def)
    have at: "groupAt s i h1 = groupAt s i h" for i using s by (simp add: groupAt_def h1)
    have h': "h' = itemsLoop cp s dst [0..<?n] h1"
      and l': "hl_Items l' = Some dst" "hl_TypeMeta l' = hl_TypeMeta l" "hl_ListMeta l' = hl_ListMeta l"
      using c Some m cp by (auto simp: listDeepCopyInto_def Let_def faithful_copiers_def)
    have J: "copied h1 s (lim h) ?n ?n h'"
      unfolding h' h1(1)
    proof (rule itemsLoop_copied [OF cp])
      show "i < ?n \<Longrightarrow> spec_ok h1 (hg_Spec (groupAt s i h1))" for i
        using items_nth(2) [OF ok Some] grown_spec(1) [OF grown] at by simp
    qed (use s in \<open>simp_all add: h1\<close>)
    then have gh': "grown h h'" using grown_trans [OF grown] by (simp add: copied_def)
    have same: "items h' l = items h l"
      using J s Some by (simp add: items_def copied_def h1)
    have new: "items h' l' = groups h' (lim h)" "length (groups h' (lim h)) = ?n"
      using J l'(1) by (simp_all add: items_def elems_def copied_def h1(1))
    have copy: "copy_of h1 (groupAt s i h) h' (groups h' (lim h) ! i)" if "i < ?n" for i
      using J that at by (simp add: copied_def)
    have len: "length (items h l) = ?n"
      using ok Some by (simp add: list_ok_def slice_ok_def items_def length_elems)
    have specs: "spec_view h1 (hg_Spec g) = spec_view h (hg_Spec g)"
      "spec_view h' (hg_Spec g) = spec_view h (hg_Spec g)" if "g \<in> set (items h l)" for g
      using ok that grown_spec(2) [OF grown] grown_spec(2) [OF gh'] by (auto simp: list_ok_def list_all_iff)
    have views: "map (group_view h') (items h' l') = map (group_view h) (items h l)"
    proof (rule nth_equalityI)
      fix i assume "i < length (map (group_view h') (items h' l'))"
      then have i: "i < ?n" using new by simp
      then have "items h l ! i \<in> set (items h l)" using len by simp
      with i copy [OF i] specs(1) items_nth(1) [OF ok Some i] new len show
        "map (group_view h') (items h' l') ! i = map (group_view h) (items h l) ! i"
        by (simp add: copy_of_def group_view_def)
    qed (simp add: new len)
    moreover have "map (group_view h') (items h l) = map (group_view h) (items h l)"
      using specs(2) by (simp add: group_view_def)
    moreover have "\<forall>a \<in> string_arrays h' l' \<union> group_arrays l'. lim h \<le> a"
      using copy new l'(1)
      by (fastforce simp: string_arrays_def group_arrays_def copy_of_def in_set_conv_nth h1)
    ultimately show ?thesis
      using l' Some by (simp add: list_view_def same)
  qed
  then show "list_view h' l' = list_view h l" "list_view h' l = list_view h l" "items h' l = items h l"
    "a \<in> string_arrays h' l' \<union> group_arrays l' \<Longrightarrow> lim h \<le> a"
    "a \<in> string_arrays h l \<union> group_arrays l \<Longrightarrow> a < lim h"
    using old by auto
qed

section \<open>Properties\<close>

text \<open>C28: A deep copy of a list of groups shares no memory with the original: the copy has the value of
  the original (a nil list of claims stays nil, and an empty one stays empty, which the choice
  between claims, label and namespace depends on), the original is as it was, and a later write to
  any array reachable from one of the two, of claim names or of items, leaves the value of the
  other.\<close>

lemma deep_copy_shares_nothing:
  assumes "faithful_copiers cp" and "list_ok h l"
    and "listDeepCopyObject cp (Some l) h = (c, h')"
  shows "\<exists>l'. c = Some (ListObject l') \<and> list_view h' l' = list_view h l \<and> list_view h' l = list_view h l
     \<and> (\<forall>a xs. (a \<in> string_arrays h' l' \<longrightarrow> list_view (h'\<lparr>strings := (strings h')(a := xs)\<rparr>) l = list_view h l)
           \<and> (a \<in> string_arrays h' l \<longrightarrow> list_view (h'\<lparr>strings := (strings h')(a := xs)\<rparr>) l' = list_view h l))
     \<and> (\<forall>a gs. (a \<in> group_arrays l' \<longrightarrow> list_view (h'\<lparr>groups := (groups h')(a := gs)\<rparr>) l = list_view h l)
           \<and> (a \<in> group_arrays l \<longrightarrow> list_view (h'\<lparr>groups := (groups h')(a := gs)\<rparr>) l' = list_view h l))"
proof -
  obtain l' where l': "listDeepCopyInto cp l h = (l', h')" "c = Some (ListObject l')"
    using assms(3) by (auto simp: listDeepCopyObject_def listDeepCopy_def split: prod.splits)
  note copy = list_copy [OF assms(1,2) l'(1)]
  have "string_arrays h' l = string_arrays h l" by (simp add: string_arrays_def copy(3))
  then have sep: "a \<in> string_arrays h' l' \<Longrightarrow> a \<notin> string_arrays h' l"
    "a \<in> string_arrays h' l \<Longrightarrow> a \<notin> string_arrays h' l'"
    "a \<in> group_arrays l' \<Longrightarrow> a \<notin> group_arrays l" "a \<in> group_arrays l \<Longrightarrow> a \<notin> group_arrays l'" for a
    using copy(4) [of a] copy(5) [of a] by auto
  show ?thesis
    using l'(2) copy(1,2)
    by (intro exI [of _ l']) (simp add: sep write_strings_elsewhere write_groups_elsewhere)
qed

text \<open>A list of one group whose claim names are the first of two cells of an array.\<close>

definition example_copiers :: "(unit, unit, unit) copiers" where
  "example_copiers = \<lparr>cp_Meta = id, cp_ListMeta = id, cp_Time = id,
     cp_Zero = \<lparr>hg_TypeMeta = (), hg_ObjectMeta = (), hg_Spec = \<lparr>hs_DriverName = [],
       hs_MemberReclaimPolicy = [], hs_Volumesnapshotclass = [], hs_PvcLabel = [], hs_PvcList = None,
       hs_Timeout = 0\<rparr>, hg_Status = empty_status\<rparr>\<rparr>"

definition example_heap :: "(unit, unit) heap" where
  "example_heap = \<lparr>strings = (\<lambda>a. if a = 0 then [''pvc-a'', ''pvc-b''] else []),
     groups = (\<lambda>a. if a = 1 then [(cp_Zero example_copiers)\<lparr>hg_Spec := (hg_Spec (cp_Zero example_copiers))
       \<lparr>hs_PvcList := Some \<lparr>sl_Array = 0, sl_Off = 0, sl_Len = 1\<rparr>\<rparr>\<rparr>] else []), lim = 2\<rparr>"

definition example_list :: "(unit, unit) hlist" where
  "example_list = \<lparr>hl_TypeMeta = (), hl_ListMeta = (),
     hl_Items = Some \<lparr>sl_Array = 1, sl_Off = 0, sl_Len = 1\<rparr>\<rparr>"

lemma deep_copy_shares_nothing_witness:
  "\<exists>c h'. listDeepCopyObject example_copiers (Some example_list) example_heap = (Some (ListObject c), h')
     \<and> list_view (h'\<lparr>strings := (strings h')(0 := [])\<rparr>) c = list_view example_heap example_list"
proof -
  obtain c h' where c: "listDeepCopyObject example_copiers (Some example_list) example_heap = (c, h')"
    by force
  have ok: "faithful_copiers example_copiers" "list_ok example_heap example_list"
    by (simp_all add: faithful_copiers_def example_copiers_def list_ok_def slice_ok_def items_def
        elems_def spec_ok_def example_heap_def example_list_def)
  have "0 \<in> string_arrays h' example_list"
    using c [symmetric]
    by (simp add: listDeepCopyObject_def listDeepCopy_def listDeepCopyInto_def makeGroups_def
        groupDeepCopyInto_def specDeepCopyInto_def makeStrings_def copyStrings_def setGroupAt_def
        groupAt_def string_arrays_def items_def elems_def spec_arrays_def example_heap_def
        example_list_def Let_def)
  then show ?thesis
    using deep_copy_shares_nothing [OF ok c] c by auto
qed

end
