(* ===== verification/MockDriver.thy ===== *)
theory MockDriver
  imports CsiClient
begin

text \<open>
  The driver the repository tests with: a store of stubs behind an administration server
  (\<^verbatim>\<open>test/mock-server/stub/stub.go\<close> and \<^verbatim>\<open>storage.go\<close>) and a driver that answers each call
  from it (\<^verbatim>\<open>test/mock-server/server/server.go\<close>). JSON values are modelled; their text and
  HTTP are transparent, so a handler takes the decoded body, or the decoder's error, and a reply
  carries a value. Parameters are the generated message types, \<open>strings.Title\<close>, \<open>regexp.Match\<close>,
  the text of the "no stub" error with its ranking of near misses, and the order in which Go ranges
  over a map. The gRPC connection between the driver's client and this driver is any remote side
  for which \<open>carries_calls\<close> holds, deadlines included.
\<close>

section \<open>JSON values\<close>

text \<open>What \<open>encoding/json\<close> decodes into an \<open>interface{}\<close>. A number is given by its canonical
  decimal form; the fields of an object have distinct names and are listed in some order.\<close>

datatype json =
    JNull
  | JBool bool
  | JNum string
  | JString string
  | JArray "json list"
  | JObject "(string \<times> json) list"

type_synonym jobj = "(string \<times> json) list"

text \<open>\<open>fmt.Sprint(reflect.TypeOf(v))\<close>, and \<open>v.(string)\<close> with a zero value.\<close>

fun typeName :: "json \<Rightarrow> string" where
  "typeName JNull = ''<nil>''"
| "typeName (JBool _) = ''bool''"
| "typeName (JNum _) = ''float64''"
| "typeName (JString _) = ''string''"
| "typeName (JArray _) = ''[]interface {}''"
| "typeName (JObject _) = ''map[string]interface {}''"

fun asString :: "json \<Rightarrow> string option" where
  "asString (JString s) = Some s"
| "asString _ = None"

definition stringOrEmpty :: "json \<Rightarrow> string" where
  "stringOrEmpty v = (case asString v of None \<Rightarrow> [] | Some s \<Rightarrow> s)"

text \<open>\<open>reflect.DeepEqual\<close> on these values: arrays by position, objects by name.\<close>

function deepEqual :: "json \<Rightarrow> json \<Rightarrow> bool" where
  "deepEqual (JArray xs) (JArray ys) =
     (length xs = length ys \<and> list_all (\<lambda>(x, y). deepEqual x y) (zip xs ys))"
| "deepEqual (JObject xs) (JObject ys) =
     (length xs = length ys
      \<and> list_all (\<lambda>(k, x). case map_of ys k of None \<Rightarrow> False | Some y \<Rightarrow> deepEqual x y) xs)"
| "deepEqual JNull y = (y = JNull)"
| "deepEqual (JBool b) y = (y = JBool b)"
| "deepEqual (JNum n) y = (y = JNum n)"
| "deepEqual (JString s) y = (y = JString s)"
| "deepEqual (JArray xs) JNull = False"
| "deepEqual (JArray xs) (JBool b) = False"
| "deepEqual (JArray xs) (JNum n) = False"
| "deepEqual (JArray xs) (JString s) = False"
| "deepEqual (JArray xs) (JObject ys) = False"
| "deepEqual (JObject xs) JNull = False"
| "deepEqual (JObject xs) (JBool b) = False"
| "deepEqual (JObject xs) (JNum n) = False"
| "deepEqual (JObject xs) (JString s) = False"
| "deepEqual (JObject xs) (JArray ys) = False"
  by pat_completeness auto

lemma size_member:
  "x \<in> set xs \<Longrightarrow> size x < Suc (size_list size xs)"
  "(k, v) \<in> set fs \<Longrightarrow> size v < Suc (size_list (size_prod (\<lambda>_. 0) size) fs)"
proof -
  show "x \<in> set xs \<Longrightarrow> size x < Suc (size_list size xs)"
    by (induction xs) auto
  show "(k, v) \<in> set fs \<Longrightarrow> size v < Suc (size_list (size_prod (\<lambda>_. 0) size) fs)"
    by (induction fs) auto
qed

termination deepEqual
  by (relation "measure (size \<circ> fst)") (auto dest!: set_zip_leftD simp: size_member)

section \<open>The storage of stubs\<close>

text \<open>\<open>Input\<close> and \<open>Output\<close> of a stub; an absent rule or an absent answer is a nil map.\<close>

record stubinput =
  in_Equals :: "jobj option"
  in_Contains :: "jobj option"
  in_Matches :: "jobj option"

record stuboutput =
  out_Data :: "jobj option"
  out_Error :: string

record stub =
  st_Service :: string
  st_Method :: string
  st_Input :: stubinput
  st_Output :: stuboutput

type_synonym stubMapping = "string \<rightharpoonup> (string \<rightharpoonup> (stubinput \<times> stuboutput) list)"

text \<open>\<open>findStubPayload\<close>.\<close>

record payload =
  pl_Service :: string
  pl_Method :: string
  pl_Data :: jobj

text \<open>The parameters. \<open>ml_Range\<close> puts the fields of an object in the order Go visits them;
  \<open>ml_Match\<close> is false for a pattern that does not compile.\<close>

record mocklib =
  ml_Range :: "jobj \<Rightarrow> jobj"
  ml_Match :: "string \<Rightarrow> string \<Rightarrow> bool"
  ml_Title :: "string \<Rightarrow> string"
  ml_NoStub :: "payload \<Rightarrow> (string \<times> jobj) list \<Rightarrow> error"
  ml_Request :: "vgsrequest \<Rightarrow> jobj"
  ml_Response :: "jobj option \<Rightarrow> error + vgsresponse"
  ml_DriverName :: "jobj option \<Rightarrow> error + string"

definition storeStub :: "stub \<Rightarrow> stubMapping \<Rightarrow> stubMapping" where
  "storeStub stub m =
     (let methods = (case m (st_Service stub) of None \<Rightarrow> Map.empty | Some ms \<Rightarrow> ms);
          stored = (case methods (st_Method stub) of None \<Rightarrow> [] | Some ss \<Rightarrow> ss)
      in m(st_Service stub \<mapsto> methods(st_Method stub \<mapsto> stored @ [(st_Input stub, st_Output stub)])))"

text \<open>\<open>clearStorage\<close>.\<close>

definition clearStorage :: "stubMapping \<Rightarrow> stubMapping" where
  "clearStorage m = Map.empty"

definition equalsRule :: "jobj \<Rightarrow> jobj \<Rightarrow> bool" where
  "equalsRule input1 input2 = deepEqual (JObject input1) (JObject input2)"

text \<open>The loop of \<open>contains\<close>, over the expected fields in the order they are visited: it returns at
  the first field whose actual value has a type with "string" in its name.\<close>

primrec containsLoop :: "jobj \<Rightarrow> jobj \<Rightarrow> bool" where
  "containsLoop [] actual = True"
| "containsLoop (kv # expect) actual =
     (case map_of actual (fst kv) of
        None \<Rightarrow> False
      | Some actualValue \<Rightarrow>
          if \<not> str_contains (typeName actualValue) ''string''
          then (if \<not> deepEqual (snd kv) actualValue then False else containsLoop expect actual)
          else str_contains (stringOrEmpty actualValue) (stringOrEmpty (snd kv)))"

definition containsRule :: "mocklib \<Rightarrow> jobj \<Rightarrow> jobj \<Rightarrow> bool" where
  "containsRule lib expect actual = containsLoop (ml_Range lib expect) actual"

primrec matchesLoop :: "mocklib \<Rightarrow> jobj \<Rightarrow> jobj \<Rightarrow> bool" where
  "matchesLoop lib [] actual = True"
| "matchesLoop lib (kv # expect) actual =
     (case asString (snd kv) of
        None \<Rightarrow> False
      | Some pattern \<Rightarrow>
          (case Option.bind (map_of actual (fst kv)) asString of
             None \<Rightarrow> False
           | Some actualvalue \<Rightarrow>
               if \<not> ml_Match lib pattern actualvalue then False else matchesLoop lib expect actual))"

definition matchesRule :: "mocklib \<Rightarrow> jobj \<Rightarrow> jobj \<Rightarrow> bool" where
  "matchesRule lib expect actual = matchesLoop lib (ml_Range lib expect) actual"

text \<open>The rules of one stub in turn: equals, contains, matches.\<close>

definition stubMatches :: "mocklib \<Rightarrow> jobj \<Rightarrow> stubinput \<Rightarrow> bool" where
  "stubMatches lib data inp \<longleftrightarrow>
     (case in_Equals inp of None \<Rightarrow> False | Some expect \<Rightarrow> equalsRule data expect)
     \<or> (case in_Contains inp of None \<Rightarrow> False | Some expect \<Rightarrow> containsRule lib expect data)
     \<or> (case in_Matches inp of None \<Rightarrow> False | Some expect \<Rightarrow> matchesRule lib expect data)"

definition closeMatches :: "stubinput \<Rightarrow> (string \<times> jobj) list" where
  "closeMatches inp =
     (case in_Equals inp of None \<Rightarrow> [] | Some expect \<Rightarrow> [(''equals'', expect)])
     @ (case in_Contains inp of None \<Rightarrow> [] | Some expect \<Rightarrow> [(''contains'', expect)])
     @ (case in_Matches inp of None \<Rightarrow> [] | Some expect \<Rightarrow> [(''matches'', expect)])"

primrec findLoop ::
  "mocklib \<Rightarrow> payload \<Rightarrow> (string \<times> jobj) list \<Rightarrow> (stubinput \<times> stuboutput) list \<Rightarrow> error + stuboutput" where
  "findLoop lib pl closest [] = Inl (ml_NoStub lib pl closest)"
| "findLoop lib pl closest (sr # stubs) =
     (if stubMatches lib (pl_Data pl) (fst sr) then Inr (snd sr)
      else findLoop lib pl (closest @ closeMatches (fst sr)) stubs)"

definition findStub :: "mocklib \<Rightarrow> payload \<Rightarrow> stubMapping \<Rightarrow> error + stuboutput" where
  "findStub lib pl m =
     (case m (pl_Service pl) of
        None \<Rightarrow> Inl (errorf (''can't find stub for Service: '' @ pl_Service pl))
      | Some methods \<Rightarrow>
          (case methods (pl_Method pl) of
             None \<Rightarrow> Inl (errorf (''can't find stub for Service:'' @ pl_Service pl
                        @ '' and Method:'' @ pl_Method pl))
           | Some stubs \<Rightarrow>
               if length stubs = 0
               then Inl (errorf (''stub for Service:'' @ pl_Service pl @ '' and Method:''
                      @ pl_Method pl @ '' is empty''))
               else findLoop lib pl [] stubs))"

section \<open>The administration server\<close>

text \<open>\<open>responseError\<close>: the status 500 and the text of the error. Every other reply has status 200.\<close>

type_synonym reply = "nat \<times> string"

definition responseFailed :: "error \<Rightarrow> reply" where
  "responseFailed err = (500, errText err)"

text \<open>\<open>validateStub\<close>: the stub with its method capitalised, or why it is refused.\<close>

definition validateStub :: "mocklib \<Rightarrow> stub \<Rightarrow> error + stub" where
  "validateStub lib stub =
     (if st_Service stub = [] then Inl (errorf ''service name can't be empty'')
      else if st_Method stub = [] then Inl (errorf ''method name can't be emtpy'')
      else (let stub' = stub\<lparr>st_Method := ml_Title lib (st_Method stub)\<rparr>; inp = st_Input stub
            in if in_Contains inp = None \<and> in_Equals inp = None \<and> in_Matches inp = None
               then Inl (errorf ''input cannot be empty'')
               else if out_Error (st_Output stub) = [] \<and> out_Data (st_Output stub) = None
               then Inl (errorf ''Output can't be empty'')
               else Inr stub'))"

definition handleAddStub :: "mocklib \<Rightarrow> error + stub \<Rightarrow> stubMapping \<Rightarrow> reply \<times> stubMapping" where
  "handleAddStub lib body m =
     (case body of
        Inl err \<Rightarrow> (responseFailed err, m)
      | Inr stub \<Rightarrow>
          (case validateStub lib stub of
             Inl err \<Rightarrow> (responseFailed err, m)
           | Inr stub' \<Rightarrow> ((200, ''Success add stub''), storeStub stub' m)))"

definition handleFindStub ::
  "mocklib \<Rightarrow> error + payload \<Rightarrow> stubMapping \<Rightarrow> reply + stuboutput" where
  "handleFindStub lib body m =
     (case body of
        Inl err \<Rightarrow> Inl (responseFailed err)
      | Inr pl \<Rightarrow>
          (case findStub lib (pl\<lparr>pl_Method := ml_Title lib (pl_Method pl)\<rparr>) m of
             Inl err \<Rightarrow> Inl (responseFailed err)
           | Inr output \<Rightarrow> Inr output))"

text \<open>\<open>allStub\<close> and the listing: the whole mapping, encoded.\<close>

definition allStub :: "stubMapping \<Rightarrow> stubMapping" where
  "allStub m = m"

definition handleListStub :: "stubMapping \<Rightarrow> stubMapping" where
  "handleListStub m = allStub m"

definition handleClearStub :: "stubMapping \<Rightarrow> reply \<times> stubMapping" where
  "handleClearStub m = ((200, ''OK''), clearStorage m)"

text \<open>The stub files of a directory, each read or not and decoded or not; a file that fails is
  skipped, and a stub that is read is stored without being validated.\<close>

definition readStubFromDir :: "(error + (error + stub)) list \<Rightarrow> stubMapping \<Rightarrow> stubMapping" where
  "readStubFromDir files m =
     fold (\<lambda>file m. case file of Inr (Inr stub) \<Rightarrow> storeStub stub m | _ \<Rightarrow> m) files m"

text \<open>The routes of \<open>RunStubServer\<close>, the address it serves at, and the stubs it starts with. \<open>dir\<close> are
  the files of a directory; \<open>RunServer\<close> calls it with fixed options.\<close>

datatype adminreq = PostAdd "error + stub" | GetList | PostFind "error + payload" | GetClear

datatype adminreply = Text reply | Listing stubMapping | Found stuboutput

definition serveStubs :: "mocklib \<Rightarrow> adminreq \<Rightarrow> stubMapping \<Rightarrow> adminreply \<times> stubMapping" where
  "serveStubs lib req m =
     (case req of
        PostAdd body \<Rightarrow> (case handleAddStub lib body m of (rep, m') \<Rightarrow> (Text rep, m'))
      | GetList \<Rightarrow> (Listing (handleListStub m), m)
      | PostFind body \<Rightarrow>
          (case handleFindStub lib body m of Inl rep \<Rightarrow> Text rep | Inr output \<Rightarrow> Found output, m)
      | GetClear \<Rightarrow> (case handleClearStub m of (rep, m') \<Rightarrow> (Text rep, m')))"

record options =
  op_Port :: string
  op_BindAddr :: string
  op_StubPath :: string

definition RunStubServer ::
  "options \<Rightarrow> (string \<Rightarrow> (error + (error + stub)) list) \<Rightarrow> stubMapping \<Rightarrow> string \<times> stubMapping" where
  "RunStubServer opt dir m =
     (let port = (if op_Port opt = [] then ''4771'' else op_Port opt);
          bind = (if op_BindAddr opt = [] then ''localhost'' else op_BindAddr opt)
      in (bind @ '':'' @ port, if op_StubPath opt \<noteq> [] then readStubFromDir (dir (op_StubPath opt)) m else m))"

definition RunServer ::
  "string \<Rightarrow> (string \<Rightarrow> (error + (error + stub)) list) \<Rightarrow> stubMapping \<Rightarrow> string \<times> stubMapping" where
  "RunServer stubsPath dir m =
     RunStubServer \<lparr>op_Port = ''4771'', op_BindAddr = ''0.0.0.0'',
       op_StubPath = (if length stubsPath = 0 then ''../stubs'' else stubsPath)\<rparr> dir m"

section \<open>The driver\<close>

text \<open>\<open>FindStub\<close> of the server: the request is posted to \<open>/find\<close> and the data of the reply decoded
  into the message of the caller.\<close>

definition FindStub ::
  "mocklib \<Rightarrow> string \<Rightarrow> string \<Rightarrow> jobj \<Rightarrow> (jobj option \<Rightarrow> error + 'a) \<Rightarrow> stubMapping \<Rightarrow> error + 'a" where
  "FindStub lib service method inp decode m =
     (case handleFindStub lib (Inr \<lparr>pl_Service = service, pl_Method = method, pl_Data = inp\<rparr>) m of
        Inl (status, body) \<Rightarrow> Inl (errorf body)
      | Inr output \<Rightarrow>
          if out_Error output \<noteq> []
          then Inl (errorf (''response RPC error '' @ out_Error output))
          else decode (out_Data output))"

definition mockCreate :: "mocklib \<Rightarrow> vgsrequest \<Rightarrow> stubMapping \<Rightarrow> error + vgsresponse" where
  "mockCreate lib req m =
     FindStub lib ''VolumeGroupSnapshot'' ''CreateVolumeGroupSnapshot'' (ml_Request lib req)
       (ml_Response lib) m"

text \<open>The request of a probe is an empty message.\<close>

definition mockProbe :: "mocklib \<Rightarrow> stubMapping \<Rightarrow> error + string" where
  "mockProbe lib m = FindStub lib ''VolumeGroupSnapshot'' ''ProbeController'' [] (ml_DriverName lib) m"

text \<open>
  What gRPC documents of a call with a deadline, on a connection to this driver whose calls take
  the given times in nanoseconds: a call answered before its deadline returns what the handler
  returned, an error as some status error; one that is not, or that has no time at all, ends with
  the code \<open>DeadlineExceeded\<close>. The handlers change no stub.
\<close>

definition carried ::
  "('e \<Rightarrow> nat option) \<Rightarrow> int64 \<Rightarrow> nat \<Rightarrow> 'e + 'a \<Rightarrow> 'm \<Rightarrow> ('e + 'a) \<times> 'm \<Rightarrow> bool" where
  "carried code timeout time answer m result \<longleftrightarrow>
     snd result = m
     \<and> (int time < sint timeout \<longrightarrow>
          (case answer of Inl _ \<Rightarrow> isl (fst result) | Inr res \<Rightarrow> fst result = Inr res))
     \<and> (sint timeout \<le> 0 \<or> sint timeout < int time \<longrightarrow>
          (case fst result of Inl err \<Rightarrow> code err = Some DeadlineExceeded | Inr _ \<Rightarrow> False))"

definition carries_calls ::
  "mocklib \<Rightarrow> (vgsrequest \<Rightarrow> nat) \<Rightarrow> nat \<Rightarrow> stubMapping remote \<Rightarrow> bool" where
  "carries_calls lib createTime probeTime conn \<longleftrightarrow>
     (\<forall>timeout req m. carried (rm_Code conn) timeout (createTime req) (mockCreate lib req m) m
        (rm_Create conn timeout req m))
     \<and> (\<forall>timeout m. carried (rm_Code conn) timeout probeTime (mockProbe lib m) m (rm_Probe conn timeout m))"

section \<open>What is stored is found\<close>

text \<open>Values as a decoder makes them: the fields of an object have distinct names.\<close>

function distinct_fields :: "json \<Rightarrow> bool" where
  "distinct_fields (JArray xs) = list_all distinct_fields xs"
| "distinct_fields (JObject fs) =
     (distinct (map fst fs) \<and> list_all (\<lambda>(k, v). distinct_fields v) fs)"
| "distinct_fields JNull = True"
| "distinct_fields (JBool b) = True"
| "distinct_fields (JNum n) = True"
| "distinct_fields (JString s) = True"
  by pat_completeness auto

termination distinct_fields
  by (relation "measure size") (auto simp: size_member)

lemma deepEqual_refl: "distinct_fields v \<Longrightarrow> deepEqual v v"
proof (induction v rule: distinct_fields.induct)
  case (1 xs)
  then show ?case by (auto simp: list_all_iff zip_same_conv_map)
next
  case (2 fs)
  then show ?case by (auto simp: list_all_iff)
qed simp_all

lemma findLoop_skips:
  assumes "list_all (\<lambda>sr. \<not> stubMatches lib (pl_Data pl) (fst sr)) before"
    and "stubMatches lib (pl_Data pl) inp"
  shows "findLoop lib pl closest (before @ [(inp, out)]) = Inr out"
  using assms by (induction before arbitrary: closest) simp_all

text \<open>The stubs kept for a method of a service.\<close>

definition stubs_for :: "stubMapping \<Rightarrow> string \<Rightarrow> string \<Rightarrow> (stubinput \<times> stuboutput) list" where
  "stubs_for m service method =
     (case Option.bind (m service) (\<lambda>methods. methods method) of None \<Rightarrow> [] | Some ss \<Rightarrow> ss)"

lemma stubs_for_store:
  "stubs_for (storeStub st m) service method =
     (if service = st_Service st \<and> method = st_Method st
      then stubs_for m service method @ [(st_Input st, st_Output st)] else stubs_for m service method)"
  by (auto simp: stubs_for_def storeStub_def Let_def split: option.split)

text \<open>
  The storage as a list: what is kept are the stubs accepted since the storage was last cleared,
  for each method of each service in the order they came.
\<close>

definition stored_list :: "stub list \<Rightarrow> stubMapping" where
  "stored_list sts = fold storeStub sts Map.empty"

lemma stubs_for_list:
  "stubs_for (stored_list sts) service method =
     map (\<lambda>st. (st_Input st, st_Output st))
       (filter (\<lambda>st. st_Service st = service \<and> st_Method st = method) sts)"
proof (induction sts rule: rev_induct)
  case Nil
  then show ?case by (simp add: stored_list_def stubs_for_def)
next
  case (snoc st sts)
  then show ?case by (auto simp: stored_list_def stubs_for_store)
qed

fun accept_stub :: "mocklib \<Rightarrow> adminreq \<Rightarrow> stub list \<Rightarrow> stub list" where
  "accept_stub lib (PostAdd (Inr st)) sts =
     (case validateStub lib st of Inl err \<Rightarrow> sts | Inr st' \<Rightarrow> sts @ [st'])"
| "accept_stub lib GetClear sts = []"
| "accept_stub lib req sts = sts"

lemma served_list:
  "fold (\<lambda>req m. snd (serveStubs lib req m)) reqs (stored_list sts) =
     stored_list (fold (accept_stub lib) reqs sts)"
proof (induction reqs arbitrary: sts)
  case Nil
  then show ?case by simp
next
  case (Cons req reqs)
  have "snd (serveStubs lib req (stored_list sts)) = stored_list (accept_stub lib req sts)"
    by (cases "(lib, req, sts)" rule: accept_stub.cases)
      (auto simp: serveStubs_def handleAddStub_def handleClearStub_def clearStorage_def stored_list_def
        split: sum.split)
  with Cons show ?case by simp
qed

definition stub_server :: "mocklib \<Rightarrow> adminreq list \<Rightarrow> stubMapping" where
  "stub_server lib reqs = fold (\<lambda>req m. snd (serveStubs lib req m)) reqs Map.empty"

definition accepted_stubs :: "mocklib \<Rightarrow> adminreq list \<Rightarrow> stub list" where
  "accepted_stubs lib reqs = fold (accept_stub lib) reqs []"

lemma stub_server_list: "stub_server lib reqs = stored_list (accepted_stubs lib reqs)"
  using served_list [of lib reqs "[]"] by (simp add: stub_server_def accepted_stubs_def stored_list_def)

lemma findLoop_find:
  "case find (\<lambda>st. P st \<and> stubMatches lib (pl_Data pl) (st_Input st)) sts of
     None \<Rightarrow> isl (findLoop lib pl closest (map (\<lambda>st. (st_Input st, st_Output st)) (filter P sts)))
   | Some st \<Rightarrow> findLoop lib pl closest (map (\<lambda>st. (st_Input st, st_Output st)) (filter P sts))
       = Inr (st_Output st)"
proof (induction sts arbitrary: closest)
  case Nil
  then show ?case by simp
next
  case (Cons st sts)
  then show ?case
    by (cases "find (\<lambda>st. P st \<and> stubMatches lib (pl_Data pl) (st_Input st)) sts") auto
qed

lemma findStub_stubs:
  "stubs_for m (pl_Service pl) (pl_Method pl) \<noteq> [] \<Longrightarrow>
     findStub lib pl m = findLoop lib pl [] (stubs_for m (pl_Service pl) (pl_Method pl))"
  by (auto simp: stubs_for_def findStub_def bind_eq_Some_conv split: option.splits)

lemma findStub_none:
  "stubs_for m (pl_Service pl) (pl_Method pl) = [] \<Longrightarrow> isl (findStub lib pl m)"
  by (auto simp: stubs_for_def findStub_def split: option.splits)

lemma findStub_list:
  "case find (\<lambda>st. (st_Service st = pl_Service pl \<and> st_Method st = pl_Method pl)
       \<and> stubMatches lib (pl_Data pl) (st_Input st)) sts of
     None \<Rightarrow> isl (findStub lib pl (stored_list sts))
   | Some st \<Rightarrow> findStub lib pl (stored_list sts) = Inr (st_Output st)"
proof (cases "stubs_for (stored_list sts) (pl_Service pl) (pl_Method pl) = []")
  case True
  then have "find (\<lambda>st. (st_Service st = pl_Service pl \<and> st_Method st = pl_Method pl)
       \<and> stubMatches lib (pl_Data pl) (st_Input st)) sts = None"
    by (auto simp: stubs_for_list filter_empty_conv find_None_iff)
  with findStub_none [OF True] show ?thesis by simp
next
  case False
  with findLoop_find [where P = "\<lambda>st. st_Service st = pl_Service pl \<and> st_Method st = pl_Method pl" and sts = sts
      and closest = "[]" and lib = lib and pl = pl]
  show ?thesis by (simp only: findStub_stubs [OF False] stubs_for_list)
qed

lemma findStub_stored:
  assumes "pl_Service pl = st_Service st" and "pl_Method pl = st_Method st"
    and "list_all (\<lambda>sr. \<not> stubMatches lib (pl_Data pl) (fst sr)) (stubs_for m (st_Service st) (st_Method st))"
    and "stubMatches lib (pl_Data pl) (st_Input st)"
  shows "findStub lib pl (storeStub st m) = Inr (st_Output st)"
proof -
  have "stubs_for (storeStub st m) (pl_Service pl) (pl_Method pl) =
      stubs_for m (st_Service st) (st_Method st) @ [(st_Input st, st_Output st)]"
    using assms(1,2) by (simp add: stubs_for_store)
  with findStub_stubs [of "storeStub st m" pl lib] findLoop_skips [OF assms(3,4)] show ?thesis
    by simp
qed

text \<open>A request with one stored stub of the rule \<open>contains\<close> over two fields.\<close>

lemma contains_order:
  assumes "map_of actual k1 = Some (JString a)" and "str_contains a b"
    and "map_of actual k2 = Some w" and "\<not> str_contains (typeName w) ''string''" and "\<not> deepEqual u w"
  shows "containsLoop [(k1, JString b), (k2, u)] actual"
    and "\<not> containsLoop [(k2, u), (k1, JString b)] actual"
  using assms by (simp_all add: stringOrEmpty_def)

text \<open>A nested object is never compared: every object contains every other value.\<close>

lemma contains_object:
  "map_of actual k = Some (JObject fs) \<Longrightarrow> asString u = None \<Longrightarrow> containsLoop ((k, u) # expect) actual"
  by (simp add: stringOrEmpty_def)

text \<open>So one request is answered or refused by one stub depending on the order of a range.\<close>

lemma stub_choice_depends_on_order:
  assumes "in_Equals (st_Input st) = None" and "in_Matches (st_Input st) = None"
    and "in_Contains (st_Input st) = Some [(k1, JString b), (k2, u)]"
    and "map_of (pl_Data pl) k1 = Some (JString a)" and "str_contains a b"
    and "map_of (pl_Data pl) k2 = Some w" and "\<not> str_contains (typeName w) ''string''"
    and "\<not> deepEqual u w"
    and "pl_Service pl = st_Service st" and "ml_Title lib (pl_Method pl) = st_Method st"
  shows "handleFindStub (lib\<lparr>ml_Range := (\<lambda>fs. fs)\<rparr>) (Inr pl) (storeStub st Map.empty) = Inr (st_Output st)"
    and "\<exists>err. handleFindStub (lib\<lparr>ml_Range := rev\<rparr>) (Inr pl) (storeStub st Map.empty) =
      Inl (responseFailed err)"
  using assms contains_order [OF assms(4-8)]
  by (auto simp: handleFindStub_def findStub_def storeStub_def stubMatches_def containsRule_def Let_def
      split: sum.split)

section \<open>Properties\<close>

text \<open>C32: The administration server keeps a list: after any requests to a fresh server, a listing shows,
  for every method of every service, the stubs accepted since the last clearing in the order they
  came, and a find request is answered by the first of them that is for its service and method and
  matches its data, or else refused with status 500.\<close>

lemma stub_server_refines_list:
  "fst (serveStubs lib GetList (stub_server lib reqs)) = Listing (stub_server lib reqs)
   \<and> stubs_for (stub_server lib reqs) service method =
       map (\<lambda>st. (st_Input st, st_Output st))
         (filter (\<lambda>st. st_Service st = service \<and> st_Method st = method) (accepted_stubs lib reqs))
   \<and> (case find (\<lambda>st. (st_Service st = pl_Service pl \<and> st_Method st = ml_Title lib (pl_Method pl))
              \<and> stubMatches lib (pl_Data pl) (st_Input st)) (accepted_stubs lib reqs) of
        None \<Rightarrow> \<exists>msg. fst (serveStubs lib (PostFind (Inr pl)) (stub_server lib reqs)) = Text (500, msg)
      | Some st \<Rightarrow> fst (serveStubs lib (PostFind (Inr pl)) (stub_server lib reqs)) = Found (st_Output st))"
proof -
  have "fst (serveStubs lib GetList (stub_server lib reqs)) = Listing (stub_server lib reqs)"
    by (simp add: serveStubs_def handleListStub_def allStub_def)
  moreover note findStub_list [of lib "pl\<lparr>pl_Method := ml_Title lib (pl_Method pl)\<rparr>" "accepted_stubs lib reqs",
      simplified, folded stub_server_list]
  ultimately show ?thesis
    by (auto simp: stub_server_list stubs_for_list serveStubs_def handleFindStub_def responseFailed_def isl_def
        split: option.splits)
qed

text \<open>C29: What a test adds to the mock driver is what the controller's driver client gets: after a
  stub for \<open>CreateVolumeGroupSnapshot\<close> with an \<open>equals\<close> rule was accepted, a call of the client with
  that request returns the message the stub holds, unless an earlier stub matches the request, if
  the driver answers within the client's timeout; if it takes longer, or the timeout leaves no time,
  the call fails with \<open>DeadlineExceeded\<close>. The call changes no stub.\<close>

lemma added_stub_answers_client:
  assumes "handleAddStub lib (Inr st) m = ((200, reply), m')"
    and "st_Service st = ''VolumeGroupSnapshot''"
    and "ml_Title lib (st_Method st) = ''CreateVolumeGroupSnapshot''"
    and "ml_Title lib ''CreateVolumeGroupSnapshot'' = ''CreateVolumeGroupSnapshot''"
    and "req = \<lparr>req_Name = name, req_SourceVolumeIDs = ids, req_Parameters = ps\<rparr>"
    and "data = ml_Request lib req"
    and "in_Equals (st_Input st) = Some data" and "distinct_fields (JObject data)"
    and "list_all (\<lambda>sr. \<not> stubMatches lib data (fst sr))
           (stubs_for m ''VolumeGroupSnapshot'' ''CreateVolumeGroupSnapshot'')"
    and "out_Error (st_Output st) = []" and "ml_Response lib (out_Data (st_Output st)) = Inr res"
    and "carries_calls lib createTime probeTime conn"
  shows "(int (createTime req) < sint timeout \<longrightarrow>
        createVolumeGroupSnapshot (newCsiClient conn timeout) name ids ps m' = (Inr res, m'))
     \<and> (sint timeout \<le> 0 \<or> sint timeout < int (createTime req) \<longrightarrow>
        (\<exists>err. createVolumeGroupSnapshot (newCsiClient conn timeout) name ids ps m' = (Inl err, m')
           \<and> rm_Code conn err = Some DeadlineExceeded))"
proof -
  let ?st = "st\<lparr>st_Method := ml_Title lib (st_Method st)\<rparr>"
  let ?pl = "\<lparr>pl_Service = ''VolumeGroupSnapshot'', pl_Method = ''CreateVolumeGroupSnapshot'', pl_Data = data\<rparr>"
  have m': "m' = storeStub ?st m"
    using assms(1) by (auto simp: handleAddStub_def validateStub_def responseFailed_def Let_def
        split: if_splits)
  have "stubMatches lib data (st_Input st)"
    using assms(7,8) deepEqual_refl by (simp add: stubMatches_def equalsRule_def del: deepEqual.simps)
  then have "findStub lib ?pl m' = Inr (st_Output st)"
    unfolding m' using findStub_stored [of ?pl ?st lib m] assms(2,3,9) by simp
  with assms(4,6,10,11) have "mockCreate lib req m' = Inr res"
    by (simp add: mockCreate_def FindStub_def handleFindStub_def)
  then have "carried (rm_Code conn) timeout (createTime req) (Inr res) m' (rm_Create conn timeout req m')"
    using assms(12) unfolding carries_calls_def by metis
  moreover have "createVolumeGroupSnapshot (newCsiClient conn timeout) name ids ps m' = rm_Create conn timeout req m'"
    by (simp add: createVolumeGroupSnapshot_def newCsiClient_def assms(5))
  ultimately show ?thesis
    by (auto simp: carried_def prod_eq_iff split: sum.splits)
qed

definition example_mocklib :: mocklib where
  "example_mocklib = \<lparr>ml_Range = (\<lambda>fs. fs), ml_Match = (\<lambda>p s. p = s), ml_Title = (\<lambda>s. s),
     ml_NoStub = (\<lambda>pl cs. errorf ''no stub''),
     ml_Request = (\<lambda>req. [(''SourceVolumeIDs'', JArray (map JString (req_SourceVolumeIDs req))),
       (''Name'', JString (req_Name req))]),
     ml_Response = (\<lambda>data. Inr \<lparr>res_SnapshotGroupID = ''123'', res_Snapshots = [], res_CreationTime = 20200202\<rparr>),
     ml_DriverName = (\<lambda>data. Inr ''csi-mock'')\<rparr>"

text \<open>A connection whose calls take two milliseconds.\<close>

definition example_conn :: "stubMapping remote" where
  "example_conn =
     \<lparr>rm_Create = (\<lambda>timeout req m.
        (if 2000000 < sint timeout then mockCreate example_mocklib req m
         else Inl (Error ''DeadlineExceeded'' []), m)),
      rm_Probe = (\<lambda>timeout m.
        (if 2000000 < sint timeout then mockProbe example_mocklib m
         else Inl (Error ''DeadlineExceeded'' []), m)),
      rm_Code = (\<lambda>err. Some (if errReason err = ''DeadlineExceeded'' then DeadlineExceeded else 2))\<rparr>"

lemma example_conn_carries: "carries_calls example_mocklib (\<lambda>req. 2000000) 2000000 example_conn"
  by (auto simp: carries_calls_def carried_def example_conn_def Let_def split: sum.splits)

definition example_stub :: stub where
  "example_stub = \<lparr>st_Service = ''VolumeGroupSnapshot'', st_Method = ''CreateVolumeGroupSnapshot'',
     st_Input = \<lparr>in_Equals = Some [(''SourceVolumeIDs'', JArray [JString ''4d4a2e5a36080e0f-12345'']),
       (''Name'', JString ''vg-snap'')], in_Contains = None, in_Matches = None\<rparr>,
     st_Output = \<lparr>out_Data = Some [(''SnapshotGroupID'', JString ''123'')], out_Error = []\<rparr>\<rparr>"

lemma added_stub_answers_client_witness:
  "fst (createVolumeGroupSnapshot (newCsiClient example_conn 1000000000)
     ''vg-snap'' [''4d4a2e5a36080e0f-12345''] [] (storeStub example_stub Map.empty)) =
   Inr \<lparr>res_SnapshotGroupID = ''123'', res_Snapshots = [], res_CreationTime = 20200202\<rparr>
   \<and> isl (fst (createVolumeGroupSnapshot (newCsiClient example_conn 1000000)
     ''vg-snap'' [''4d4a2e5a36080e0f-12345''] [] (storeStub example_stub Map.empty)))"
proof -
  let ?req = "\<lparr>req_Name = ''vg-snap'', req_SourceVolumeIDs = [''4d4a2e5a36080e0f-12345''], req_Parameters = []\<rparr>"
  have "handleAddStub example_mocklib (Inr example_stub) Map.empty =
      ((200, ''Success add stub''), storeStub example_stub Map.empty)"
    by (simp add: example_mocklib_def example_stub_def handleAddStub_def validateStub_def)
  note answers = added_stub_answers_client [OF this _ _ _ refl refl _ _ _ _ _ example_conn_carries]
  let ?call = "\<lambda>timeout. createVolumeGroupSnapshot (newCsiClient example_conn timeout)
     ''vg-snap'' [''4d4a2e5a36080e0f-12345''] [] (storeStub example_stub Map.empty)"
  let ?res = "\<lparr>res_SnapshotGroupID = ''123'', res_Snapshots = [], res_CreationTime = 20200202\<rparr>"
  have "(int 2000000 < sint timeout \<longrightarrow> ?call timeout = (Inr ?res, storeStub example_stub Map.empty))
     \<and> (sint timeout \<le> 0 \<or> sint timeout < int 2000000 \<longrightarrow>
        (\<exists>err. ?call timeout = (Inl err, storeStub example_stub Map.empty)
           \<and> rm_Code example_conn err = Some DeadlineExceeded))" for timeout
    by (rule answers) (simp_all add: example_mocklib_def example_stub_def stubs_for_def)
  from this [of 1000000000] this [of 1000000] show ?thesis by auto
qed

end
