(* ===== verification/Spec2Isabelle.thy ===== *)
theory Spec2Isabelle
  imports Causality Mishaps Retries Safety Startup DeepCopy MockDriver
begin

text \<open>
  \<^bold>\<open>The CSM volume group snapshotter\<close>

  The program is a Kubernetes controller that runs beside a Dell CSI driver. A user creates a
  \<open>DellCsiVolumeGroupSnapshot\<close> (a "group"); the controller finds the volumes behind the claims the
  group names, asks the driver for one crash-consistent snapshot of all of them, and then creates
  a \<open>VolumeSnapshotContent\<close> and a \<open>VolumeSnapshot\<close> for each snapshot of the driver's answer, waits
  until the snapshot controller reports them ready, and records the result in the group's status.
  When the group is deleted it deletes the members, or keeps them, as the snapshot class says,
  and drops its finalizer. Informer callbacks observe snapshots and take deleted contents out of
  the group's member list.

  \<^bold>\<open>Theories\<close>, each after those it uses:

  \<^item> \<open>GoLib\<close>: the prelude. Go's error values, the three ends of a call (\<open>Ret\<close>, \<open>Panic\<close> for a nil
    dereference, \<open>Hang\<close> for a \<open>select\<close> that is never served), \<open>strings.Split\<close>, \<open>Join\<close>, \<open>TrimRight\<close>
    and \<open>HasPrefix\<close> with their laws, \<open>int64\<close> as 64-bit words, sequencing of calls that may panic
    (\<open>andThen\<close>) and Hoare triples over the state monad.
  \<^item> \<open>ApiTypes\<close>: \<^verbatim>\<open>api/v1/dellcsivolumegroupsnapshot_types.go\<close> and \<^verbatim>\<open>pkg/common/common.go\<close>, and the
    fields the controller uses of claims, volumes, snapshot classes, snapshots, contents and the
    driver's response.
  \<^item> \<open>Cluster\<close>: the reconciler struct with everything it calls that is not in the repository as a
    parameter (API client, driver, \<open>controllerutil\<close>, \<open>uuid\<close>, \<open>scheme\<close>), the state a handler runs in,
    and one primitive per call. Every call is appended to a trace, and \<open>replay\<close> shows that the
    trace misses no change of the cluster. The locale \<open>trace_shape\<close> is the interface between a
    property of traces and the programs: what holds of the empty trace and of concatenations
    composes along every program (interpreted for "every call satisfies A" and, in
    \<open>SnapshotObjects\<close>, for "creations come in pairs").
  \<^item> \<open>VolumeSource\<close>, \<open>SnapshotObjects\<close>, \<open>Response\<close>, \<open>Reconcile\<close>, \<open>Watch\<close>:
    \<^verbatim>\<open>controllers/dellcsivolumegroupsnapshot_controller.go\<close>, function by function under the names
    of the source: the volume ids of a specification; the two objects of a member, created or
    checked and reused; \<open>processResponse\<close> and its wait; \<open>Reconcile\<close> and \<open>deleteVg\<close>; the informer
    callbacks. \<open>Watch\<close> states the member list of the status as an interface (\<open>member_codec\<close>)
    between its writer and its two readers.
  \<^item> \<open>ClusterContract\<close>: the locale \<open>guarded\<close>, what an invariant needs to survive the controller's
    calls, under which everything the controller writes of a group is followed once; what the
    controller relies on from an API server (locale \<open>cluster_contract\<close>, which gives a \<open>guarded\<close>
    invariant of the store, and \<open>reliable_cluster\<close> where every \<open>Get\<close> goes through), and what it
    then promises: the invariant on groups, what a successful creation has recorded, what a
    successful deletion has removed, what a failed one has left.
  \<^item> \<open>Informers\<close>: the event filter, what \<open>snapWatch\<close>, \<open>snapContentWatch\<close> and \<open>SetupWithManager\<close>
    hand to the informer and manager libraries, and the informers that processed answers leave running.
  \<^item> \<open>OwnWrites\<close>: a reconciliation stays within its group and namespace and keeps its
    specification (locale \<open>spec_server\<close>).
  \<^item> \<open>FakeClient\<close>: the API client of \<^verbatim>\<open>test/shared/fake-client/fake-client.go\<close>, a store behind an
    error injector, and the interpretations of these locales on it.
  \<^item> \<open>System\<close>: the step relation of controller, callbacks, users and snapshot controller on that
    store, whole handlers at a time, and the controller's promises on it.
  \<^item> \<open>Interleaving\<close>: handlers as jobs whose single calls interleave on the store; the invariant of
    the groups for every interleaving, and two callbacks that lose an update.
  \<^item> \<open>Causality\<close>: an adequacy check of \<open>Interleaving\<close>, which holds for any handlers. The locale
    \<open>twin\<close> runs two lifted controllers side by side; with it, the next call of a job depends on its
    answers only, and whole handlers are interleavings.
  \<^item> \<open>Liveness\<close>, \<open>Creation\<close>, \<open>Lifecycle\<close> and \<open>Refusal\<close>: on a store whose calls do not fail, when a
    deletion and a creation report success and every object that is then stored; a created group
    can be deleted again; which error refuses a creation. \<open>Creation\<close> runs a creation on a store that
    refuses any set of new objects, of which a store that refuses none is the special case. \<open>Retries\<close>:
    attempts to create a group that cannot be written.
  \<^item> \<open>TestObjects\<close>, \<open>Scenarios\<close> and \<open>Mishaps\<close>: the object builders of
    \<^verbatim>\<open>test/shared/common/common.go\<close>, the error switches and the check of error messages of
    \<^verbatim>\<open>test/integration-test/steps.go\<close>, and the happy path, the error scenarios and the retry scenarios of \<^verbatim>\<open>features/vg.feature\<close> on clusters made
    with them, for any number of volumes.
  \<^item> \<open>Progress\<close> and \<open>Safety\<close>: the controller comes back when its timer fires, and does not panic on
    sound objects.
  \<^item> \<open>CsiClient\<close>: \<^verbatim>\<open>pkg/csiclient/csiclient.go\<close> and \<^verbatim>\<open>pkg/connection/connection.go\<close>.
  \<^item> \<open>GoFlag\<close> and \<open>Startup\<close>: the parts of the \<open>flag\<close> package the program uses, and \<^verbatim>\<open>main.go\<close> with
    \<^verbatim>\<open>api/v1/groupversion_info.go\<close>: scheme, command line, connection, probe, manager, controller.
  \<^item> \<open>DeepCopy\<close>: \<^verbatim>\<open>api/v1/zz_generated.deepcopy.go\<close> over a heap of slices.
  \<^item> \<open>MockDriver\<close>: the stub store, its administration server with its routes, and the driver of
    \<^verbatim>\<open>test/mock-server\<close>; a connection to it is any remote side of the driver client that carries
    calls as gRPC documents, each answered within its deadline or ended by it.

  \<^bold>\<open>State and operations.\<close> A handler is a program of the state monad over \<open>'s world\<close>: the cluster of
  type \<open>'s\<close> (arbitrary, so that results hold for an API server that fails at any time, serves
  stale data or lets other actors in between two calls), the trace, the \<open>failedMap\<close> of
  \<open>processResponse\<close>, the number of UUIDs drawn, and what the timer and the ticker of the wait
  are going to deliver. The schedule is a finite list: a wait whose list runs out is \<open>Hang\<close>, and
  \<open>Progress\<close> shows that a list with a \<open>Timeout\<close> in it is enough. No other bound or fuel is used;
  \<open>Connect\<close> and \<open>ProbeDriver\<close>, which may retry for ever, are partial functions to \<open>option\<close>. A job of
  \<open>Interleaving\<close> is a handler with the stores its calls so far were answered from; its next call
  is read off the run of the same program over that script. The process of \<open>Startup\<close> is a machine
  record with the flag set, what was logged and how it ended.

  \<^bold>\<open>What the lemmas show.\<close> Effects, for every cluster: at most one driver call and its order, pairing
  of creations, creation and deletion exclude each other, no object outside the group's namespace
  is touched, the specification is kept and so the controller's own writes pass no filter,
  callbacks only observe. Results over a cluster that answers from tables: the claims and volume
  ids of a specification, or the first problem that ends the search, and the readiness check. Results over a store: the invariant of groups under
  every interleaving of calls, what a creation or deletion that reports success has done and, when
  no call fails, that it does report success, creation and deletion undoing each other, the error
  of each thing that is not there, the last content. Functions of strings and words: volume handles, member lists, timeouts, flag
  values. Deep copies share nothing with their originals; a started controller serves the driver
  it probed; the stub server refines the list of the stubs it accepted, and the mock driver
  answers with what was added. The remaining properties prove where the
  code departs from what it is for: snapshots without a status count as ready, a timed-out wait is reported
  as success, an unbound first claim spoils a group, volumes without CSI source and lost contents
  make the controller panic, a group with both selectors stays \<open>Pending\<close>, informers accumulate, a
  flag defined after the parse is never set, a member the store refused is listed in a complete
  group and never made, a group that cannot be written is snapshot again by every retry, and two deletions that interleave lose one.

  \<^bold>\<open>Not modelled.\<close> Logging. The libraries the code calls (client-go informers, controller-runtime's
  manager and queue, gRPC, JSON and HTTP) are parameters, with what is relied on as laws of a
  locale or hypotheses of a theorem. The conflict errors of an API server that checks resource
  versions are among the failures of an arbitrary cluster, but the store of the fake client does
  not produce them. The JSON round trip of that client's \<open>Get\<close> is a parameter; the results over the
  store take it for the identity, which it is but for the fraction of a second of a time. The mutex of \<open>HandleSnapContentDelete\<close> is local to the call and excludes
  nothing. Of the mock driver the listeners, HTTP and the text of the "no stub"
  error; of its storage the mapping that the listing hands to the encoder is the shared one, read
  without the lock, which a sequence of whole requests does not show. The step functions of the
  integration tests call an array's driver and compare results; what they set up and expect is in
  \<open>Scenarios\<close> and \<open>Mishaps\<close>, with the check of an error's message as the tests have it. The rest of the sources is imports, licences and comments.
\<close>

end
